(* ===== verification/Prelude.thy ===== *)
theory Prelude
  imports Main
begin

section \<open>Prelude: JavaScript maps, results and shared automation\<close>

text \<open>
  What every component theory shares: the results of fallible code, the insertion-ordered
  \<open>Map\<close> of JavaScript as an association list, and the interface \<open>ordered_map\<close> that the clients
  of such a map (the user list, the strategy registry, the introspection cache) rely on.

  \<^item> A function of the source that may throw returns \<open>js_error + 'a\<close>: \<open>Inl (Error msg)\<close>
    carries the message of the thrown \<open>Error\<close>.
  \<^item> \<open>undefined\<close> and \<open>null\<close> results are \<open>None\<close>.
  \<^item> A \<open>Map\<close> keeps its keys in insertion order; \<open>set\<close> on a present key keeps the key's place.
\<close>

named_theorems gw_defs "definitions that automation unfolds"

subsection \<open>Results\<close>

datatype js_error = Error (err_text: string)

type_synonym 'a result = "js_error + 'a"

fun bind_result :: "'a result \<Rightarrow> ('a \<Rightarrow> 'b result) \<Rightarrow> 'b result" where
  "bind_result (Inl e) f = Inl e"
| "bind_result (Inr a) f = f a"

lemma bind_result_Inr_iff [simp]:
  "bind_result r f = Inr b \<longleftrightarrow> (\<exists>a. r = Inr a \<and> f a = Inr b)"
  by (cases r) auto

lemma bind_result_Inl_iff:
  "bind_result r f = Inl e \<longleftrightarrow> r = Inl e \<or> (\<exists>a. r = Inr a \<and> f a = Inl e)"
  by (cases r) auto

subsection \<open>Insertion-ordered maps\<close>

type_synonym ('k, 'v) js_map = "('k \<times> 'v) list"

definition jm_empty :: "('k, 'v) js_map" where
  "jm_empty = []"

fun jm_get :: "('k, 'v) js_map \<Rightarrow> 'k \<Rightarrow> 'v option" where
  "jm_get [] k = None"
| "jm_get ((k', v) # m) k = (if k' = k then Some v else jm_get m k)"

definition jm_has :: "('k, 'v) js_map \<Rightarrow> 'k \<Rightarrow> bool" where
  "jm_has m k \<longleftrightarrow> jm_get m k \<noteq> None"

fun jm_set :: "('k, 'v) js_map \<Rightarrow> 'k \<Rightarrow> 'v \<Rightarrow> ('k, 'v) js_map" where
  "jm_set [] k v = [(k, v)]"
| "jm_set ((k', v') # m) k v = (if k' = k then (k, v) # m else (k', v') # jm_set m k v)"

definition jm_delete :: "('k, 'v) js_map \<Rightarrow> 'k \<Rightarrow> ('k, 'v) js_map" where
  "jm_delete m k = filter (\<lambda>(k', _). k' \<noteq> k) m"

definition jm_keys :: "('k, 'v) js_map \<Rightarrow> 'k list" where
  "jm_keys m = map fst m"

definition jm_size :: "('k, 'v) js_map \<Rightarrow> nat" where
  "jm_size m = length m"

definition jm_wf :: "('k, 'v) js_map \<Rightarrow> bool" where
  "jm_wf m \<longleftrightarrow> distinct (jm_keys m)"

lemma jm_get_map_of: "jm_get m = map_of m"
proof
  fix k show "jm_get m k = map_of m k"
    by (induction m k rule: jm_get.induct) auto
qed

lemma jm_get_None_iff: "jm_get m k = None \<longleftrightarrow> k \<notin> set (jm_keys m)"
  by (simp add: jm_get_map_of jm_keys_def map_of_eq_None_iff)

lemma jm_get_set: "jm_get (jm_set m k v) = (jm_get m)(k \<mapsto> v)"
proof
  fix k' show "jm_get (jm_set m k v) k' = ((jm_get m)(k \<mapsto> v)) k'"
    by (induction m k v rule: jm_set.induct) auto
qed

lemma jm_get_delete: "jm_get (jm_delete m k) = (jm_get m)(k := None)"
proof
  fix k' show "jm_get (jm_delete m k) k' = ((jm_get m)(k := None)) k'"
    by (induction m) (auto simp: jm_delete_def)
qed

lemma jm_keys_set:
  "jm_keys (jm_set m k v) = (if k \<in> set (jm_keys m) then jm_keys m else jm_keys m @ [k])"
  by (induction m k v rule: jm_set.induct) (auto simp: jm_keys_def)

lemma jm_keys_delete: "jm_keys (jm_delete m k) = filter (\<lambda>k'. k' \<noteq> k) (jm_keys m)"
  by (simp add: jm_keys_def jm_delete_def filter_map comp_def case_prod_unfold)

lemma jm_size_keys: "jm_size m = length (jm_keys m)"
  by (simp add: jm_size_def jm_keys_def)

lemma jm_wf_empty: "jm_wf jm_empty"
  by (simp add: jm_wf_def jm_keys_def jm_empty_def)

lemma jm_wf_set: "jm_wf m \<Longrightarrow> jm_wf (jm_set m k v)"
  by (simp add: jm_wf_def jm_keys_set)

lemma jm_wf_delete: "jm_wf m \<Longrightarrow> jm_wf (jm_delete m k)"
  by (simp add: jm_wf_def jm_keys_delete)

subsection \<open>The interface its clients rely on\<close>

locale ordered_map =
  fixes empty :: "'m"
    and get :: "'m \<Rightarrow> 'k \<Rightarrow> 'v option"
    and put :: "'m \<Rightarrow> 'k \<Rightarrow> 'v \<Rightarrow> 'm"
    and del :: "'m \<Rightarrow> 'k \<Rightarrow> 'm"
    and keys :: "'m \<Rightarrow> 'k list"
    and wf :: "'m \<Rightarrow> bool"
  assumes keys_empty: "keys empty = []"
    and wf_empty: "wf empty"
    and get_None: "get m k = None \<longleftrightarrow> k \<notin> set (keys m)"
    and get_put: "get (put m k v) = (get m)(k \<mapsto> v)"
    and get_del: "get (del m k) = (get m)(k := None)"
    and keys_put: "keys (put m k v) = (if k \<in> set (keys m) then keys m else keys m @ [k])"
    and keys_del: "keys (del m k) = filter (\<lambda>k'. k' \<noteq> k) (keys m)"
    and wf_put: "wf m \<Longrightarrow> wf (put m k v)"
    and wf_del: "wf m \<Longrightarrow> wf (del m k)"
    and wf_distinct: "wf m \<Longrightarrow> distinct (keys m)"
begin

lemmas map_laws = keys_empty wf_empty get_None get_put get_del keys_put keys_del wf_put wf_del

lemma get_empty: "get empty k = None"
  by (simp add: get_None keys_empty)

lemma put_absent_keys: "get m k = None \<Longrightarrow> keys (put m k v) = keys m @ [k]"
  by (simp add: keys_put get_None)

lemma put_present_keys: "get m k = Some w \<Longrightarrow> keys (put m k v) = keys m"
  using get_None [of m k] by (simp add: keys_put)

lemma size_put_le: "length (keys (put m k v)) \<le> Suc (length (keys m))"
  by (simp add: keys_put)

lemma size_del_le: "length (keys (del m k)) \<le> length (keys m)"
  by (simp add: keys_del)

lemma del_first:
  assumes "wf m" and "keys m = k # ks"
  shows "keys (del m k) = ks"
proof -
  from wf_distinct [OF assms(1)] assms(2) have "k \<notin> set ks" by simp
  then have "filter (\<lambda>k'. k' \<noteq> k) ks = ks"
    by (induction ks) auto
  with assms(2) show ?thesis by (simp add: keys_del)
qed

lemma wf_fold_del: "wf m \<Longrightarrow> wf (fold (\<lambda>k m. if P k then del m k else m) ks m)"
  by (induction ks arbitrary: m) (auto simp: wf_del)

lemma get_fold_del:
  "get (fold (\<lambda>k m. if P k then del m k else m) ks m) k
    = (if k \<in> set ks \<and> P k then None else get m k)"
  by (induction ks arbitrary: m) (auto simp: get_del)

lemma keys_fold_del:
  "keys (fold (\<lambda>k m. if P k then del m k else m) ks m)
    = filter (\<lambda>k. \<not> (k \<in> set ks \<and> P k)) (keys m)"
proof (induction ks arbitrary: m)
  case Nil
  then show ?case by simp
next
  case (Cons a ks)
  then show ?case
    by (auto simp: keys_del intro!: filter_cong)
qed

end

interpretation jm: ordered_map jm_empty jm_get jm_set jm_delete jm_keys jm_wf
  by unfold_locales
    (simp_all add: jm_get_None_iff jm_get_set jm_get_delete jm_keys_set jm_keys_delete
      jm_wf_empty jm_wf_set jm_wf_delete, simp_all add: jm_keys_def jm_empty_def jm_wf_def)

end
