(* ===== verification/JsText.thy ===== *)
theory JsText
  imports Prelude "HOL-Library.Sublist"
begin

section \<open>JavaScript text: the string operations and patterns the gateway uses\<close>

text \<open>
  A JavaScript string is a \<open>string\<close>: one \<open>char\<close> per code unit, so code units 0 to 255. That is
  every HTTP header value (Node decodes header bytes as Latin-1) and every configuration text in
  Latin-1. Text decoded from bytes, which can hold any code point, is a list of code points
  (theory \<open>Encoding\<close>).

  The theory has \<open>trim\<close>, \<open>split\<close>, \<open>join\<close>, \<open>indexOf\<close>, \<open>toLowerCase\<close>, the character classes
  \<open>\s\<close>, \<open>\d\<close>, \<open>\w\<close>, and the search of a regular expression from the left (\<open>exec_from\<close>) with
  the word boundary \<open>\b\<close>. \<open>\s\<close> and \<open>trim\<close> agree on white space; below code unit 256 it is
  tab, line feed, vertical tab, form feed, carriage return, space and no-break space.
\<close>

subsection \<open>Characters\<close>

abbreviation cc :: "char \<Rightarrow> nat" where
  "cc c \<equiv> of_char c"

definition is_ws :: "char \<Rightarrow> bool" where
  "is_ws c \<longleftrightarrow> cc c \<in> {9, 10, 11, 12, 13, 32, 160}"

definition is_digit :: "char \<Rightarrow> bool" where
  "is_digit c \<longleftrightarrow> 48 \<le> cc c \<and> cc c \<le> 57"

definition is_upper :: "char \<Rightarrow> bool" where
  "is_upper c \<longleftrightarrow> 65 \<le> cc c \<and> cc c \<le> 90"

definition is_lower :: "char \<Rightarrow> bool" where
  "is_lower c \<longleftrightarrow> 97 \<le> cc c \<and> cc c \<le> 122"

definition is_word :: "char \<Rightarrow> bool" where
  "is_word c \<longleftrightarrow> is_digit c \<or> is_upper c \<or> is_lower c \<or> c = CHR ''_''"

definition is_hex_lower :: "char \<Rightarrow> bool" where
  "is_hex_lower c \<longleftrightarrow> is_digit c \<or> 97 \<le> cc c \<and> cc c \<le> 102"

definition is_hex :: "char \<Rightarrow> bool" where
  "is_hex c \<longleftrightarrow> is_hex_lower c \<or> 65 \<le> cc c \<and> cc c \<le> 70"

text \<open>\<open>toLowerCase\<close> below code unit 256: the ASCII letters and the Latin-1 letters but \<open>0xD7\<close>.\<close>

definition js_lower :: "char \<Rightarrow> char" where
  "js_lower c = (if is_upper c \<or> 192 \<le> cc c \<and> cc c \<le> 222 \<and> cc c \<noteq> 215
     then char_of (cc c + 32) else c)"

lemmas char_class_defs = is_ws_def is_digit_def is_upper_def is_lower_def is_word_def
  is_hex_lower_def is_hex_def

declare char_class_defs [gw_defs] js_lower_def [gw_defs]

lemma word_char_not_ws: "is_word c \<Longrightarrow> \<not> is_ws c"
  by (auto simp: char_class_defs)

lemma hex_lower_not_ws: "is_hex_lower c \<Longrightarrow> \<not> is_ws c"
  by (auto simp: char_class_defs)

subsection \<open>Trimming\<close>

definition js_trim :: "string \<Rightarrow> string" where
  "js_trim s = rev (dropWhile is_ws (rev (dropWhile is_ws s)))"

definition trimmed :: "string \<Rightarrow> bool" where
  "trimmed s \<longleftrightarrow> s = [] \<or> (\<not> is_ws (hd s) \<and> \<not> is_ws (last s))"

lemma js_trim_Nil [simp]: "js_trim [] = []"
  by (simp add: js_trim_def)

lemma js_trim_id: "trimmed s \<Longrightarrow> js_trim s = s"
proof (cases s)
  case Nil
  then show ?thesis by simp
next
  case (Cons c cs)
  assume "trimmed s"
  with Cons have "\<not> is_ws c" and "\<not> is_ws (last s)"
    by (auto simp: trimmed_def)
  moreover from this(2) Cons have "\<not> is_ws (hd (rev s))"
    by (metis hd_rev)
  ultimately have "dropWhile is_ws s = s" and "dropWhile is_ws (rev s) = rev s"
    using Cons by (simp_all add: dropWhile_eq_self_iff)
  then show ?thesis by (simp add: js_trim_def)
qed

lemma trimmed_js_trim: "trimmed (js_trim s)"
proof (cases "js_trim s = []")
  case True
  then show ?thesis by (simp add: trimmed_def)
next
  case False
  let ?t = "dropWhile is_ws s" and ?u = "dropWhile is_ws (rev (dropWhile is_ws s))"
  from False have u: "?u \<noteq> []" by (simp add: js_trim_def)
  then have last: "\<not> is_ws (hd ?u)" by (rule hd_dropWhile)
  obtain zs where zs: "rev ?t = zs @ ?u"
    by (metis takeWhile_dropWhile_id)
  then have t: "?t = rev ?u @ rev zs"
    by (metis rev_append rev_rev_ident)
  with u have "?t \<noteq> []" by (metis append_is_Nil_conv rev_is_Nil_conv)
  then have "\<not> is_ws (hd ?t)" by (rule hd_dropWhile)
  moreover from t u have "hd ?t = hd (rev ?u)" by (metis hd_append rev_is_Nil_conv)
  ultimately show ?thesis
    using last u by (simp add: trimmed_def js_trim_def last_rev)
qed

lemma js_trim_idem [simp]: "js_trim (js_trim s) = js_trim s"
  by (rule js_trim_id, rule trimmed_js_trim)

lemma set_js_trim: "set (js_trim s) \<subseteq> set s"
  by (metis js_trim_def set_dropWhileD set_rev subsetI)

lemma trimmed_no_ws: "list_all (\<lambda>c. \<not> is_ws c) s \<Longrightarrow> trimmed s"
  by (cases s) (auto simp: trimmed_def list_all_iff)

subsection \<open>Splitting, joining, searching\<close>

fun split_on :: "'a \<Rightarrow> 'a list \<Rightarrow> 'a list list" where
  "split_on c [] = [[]]"
| "split_on c (x # xs) =
     (if x = c then [] # split_on c xs
      else (case split_on c xs of [] \<Rightarrow> [[x]] | y # ys \<Rightarrow> (x # y) # ys))"

fun join_with :: "'a list \<Rightarrow> 'a list list \<Rightarrow> 'a list" where
  "join_with sep [] = []"
| "join_with sep [x] = x"
| "join_with sep (x # y # ys) = x @ sep @ join_with sep (y # ys)"

fun index_of :: "'a \<Rightarrow> 'a list \<Rightarrow> nat option" where
  "index_of c [] = None"
| "index_of c (x # xs) = (if x = c then Some 0 else map_option Suc (index_of c xs))"

lemma split_on_not_Nil [simp]: "split_on c xs \<noteq> []"
  by (cases xs) (auto split: list.split)

lemma split_on_no_sep: "c \<notin> set xs \<Longrightarrow> split_on c xs = [xs]"
  by (induction xs) auto

lemma split_on_append:
  "c \<notin> set xs \<Longrightarrow> split_on c (xs @ c # ys) = xs # split_on c ys"
  by (induction xs) auto

lemma join_split_on: "join_with [c] (split_on c xs) = xs"
proof (induction xs)
  case Nil
  then show ?case by simp
next
  case (Cons x xs)
  then obtain y ys where "split_on c xs = y # ys"
    by (cases "split_on c xs") auto
  with Cons show ?case by (cases ys) auto
qed

lemma split_on_parts: "p \<in> set (split_on c xs) \<Longrightarrow> c \<notin> set p"
proof (induction xs arbitrary: p)
  case (Cons x xs)
  then show ?case
    by (cases "split_on c xs") (auto split: if_splits)
qed simp

lemma index_of_Some:
  "index_of c xs = Some i \<Longrightarrow> xs = take i xs @ c # drop (Suc i) xs \<and> c \<notin> set (take i xs)"
  by (induction xs arbitrary: i) (auto split: if_splits)

lemma index_of_append: "c \<notin> set xs \<Longrightarrow> index_of c (xs @ c # ys) = Some (length xs)"
  by (induction xs) auto

lemma index_of_None: "index_of c xs = None \<longleftrightarrow> c \<notin> set xs"
  by (induction xs) auto

lemma index_of_less: "index_of c xs = Some i \<Longrightarrow> i < length xs"
  by (induction xs arbitrary: i) (auto split: if_splits)

subsection \<open>Case-insensitive matching and leftmost search\<close>

definition prefix_ci :: "string \<Rightarrow> string \<Rightarrow> bool" where
  \<comment> \<open>the text starts with the lower-case pattern, letter case ignored\<close>
  "prefix_ci p s \<longleftrightarrow> map js_lower (take (length p) s) = p"

definition at_boundary :: "char option \<Rightarrow> string \<Rightarrow> bool" where
  \<comment> \<open>\<open>\b\<close> between the previous character and the rest\<close>
  "at_boundary prev s \<longleftrightarrow>
     (case prev of None \<Rightarrow> False | Some c \<Rightarrow> is_word c)
       \<noteq> (case s of [] \<Rightarrow> False | c # _ \<Rightarrow> is_word c)"

fun exec_from :: "(char option \<Rightarrow> string \<Rightarrow> 'r option) \<Rightarrow> char option \<Rightarrow> string \<Rightarrow> 'r option" where
  "exec_from m prev [] = m prev []"
| "exec_from m prev (c # cs) =
     (case m prev (c # cs) of Some r \<Rightarrow> Some r | None \<Rightarrow> exec_from m (Some c) cs)"

definition match_word :: "string \<Rightarrow> char option \<Rightarrow> string \<Rightarrow> unit option" where
  \<comment> \<open>\<open>\bw\b\<close>, case ignored\<close>
  "match_word w prev s =
     (if at_boundary prev s \<and> prefix_ci w s
         \<and> at_boundary (Some (last (take (length w) s))) (drop (length w) s)
      then Some () else None)"

definition has_word :: "string \<Rightarrow> string \<Rightarrow> bool" where
  "has_word w s \<longleftrightarrow> exec_from (match_word w) None s \<noteq> None"

definition match_number_after :: "string \<Rightarrow> char option \<Rightarrow> string \<Rightarrow> string option" where
  \<comment> \<open>\<open>\bname=(\d+)\<close>, case ignored: the captured digits\<close>
  "match_number_after name prev s =
     (let digits = takeWhile is_digit (drop (length name) s)
      in if at_boundary prev s \<and> prefix_ci name s \<and> digits \<noteq> [] then Some digits else None)"

definition number_after :: "string \<Rightarrow> string \<Rightarrow> string option" where
  "number_after name s = exec_from (match_number_after name) None s"

definition match_ci :: "string \<Rightarrow> char option \<Rightarrow> string \<Rightarrow> unit option" where
  "match_ci p prev s = (if prefix_ci p s then Some () else None)"

definition contains_ci :: "string \<Rightarrow> string \<Rightarrow> bool" where
  "contains_ci p s \<longleftrightarrow> exec_from (match_ci p) None s \<noteq> None"

declare prefix_ci_def [gw_defs] at_boundary_def [gw_defs] match_word_def [gw_defs]
  has_word_def [gw_defs] match_number_after_def [gw_defs] number_after_def [gw_defs]
  match_ci_def [gw_defs] contains_ci_def [gw_defs]

text \<open>The previous character of a position: the last one of the text before it.\<close>

definition prev_of :: "char option \<Rightarrow> string \<Rightarrow> char option" where
  "prev_of prev xs = (if xs = [] then prev else Some (last xs))"

lemma exec_from_found:
  "exec_from m prev s \<noteq> None
    \<longleftrightarrow> (\<exists>xs ys. s = xs @ ys \<and> m (prev_of prev xs) ys \<noteq> None)"
proof (induction s arbitrary: prev)
  case Nil
  then show ?case by (auto simp: prev_of_def)
next
  case (Cons c cs)
  have step: "(\<exists>xs ys. c # cs = xs @ ys \<and> m (prev_of prev xs) ys \<noteq> None)
    \<longleftrightarrow> m prev (c # cs) \<noteq> None
      \<or> (\<exists>xs ys. cs = xs @ ys \<and> m (prev_of (Some c) xs) ys \<noteq> None)"
    (is "?l \<longleftrightarrow> ?r")
  proof
    assume ?l
    then obtain xs ys where "c # cs = xs @ ys" and "m (prev_of prev xs) ys \<noteq> None"
      by blast
    then show ?r by (cases xs) (auto simp: prev_of_def split: if_splits)
  next
    assume ?r
    then show ?l
    proof
      assume "m prev (c # cs) \<noteq> None"
      then have "c # cs = [] @ (c # cs) \<and> m (prev_of prev []) (c # cs) \<noteq> None"
        by (simp add: prev_of_def)
      then show ?l by blast
    next
      assume "\<exists>xs ys. cs = xs @ ys \<and> m (prev_of (Some c) xs) ys \<noteq> None"
      then obtain xs ys where h: "cs = xs @ ys" "m (prev_of (Some c) xs) ys \<noteq> None"
        by blast
      moreover have "prev_of prev (c # xs) = prev_of (Some c) xs"
        by (auto simp: prev_of_def)
      ultimately have "c # cs = (c # xs) @ ys \<and> m (prev_of prev (c # xs)) ys \<noteq> None"
        by simp
      then show ?l by blast
    qed
  qed
  show ?case unfolding step using Cons [of "Some c"] by (auto split: option.splits)
qed

lemma exec_from_SomeD:
  "exec_from m prev s = Some r \<Longrightarrow> \<exists>xs ys. s = xs @ ys \<and> m (prev_of prev xs) ys = Some r"
proof (induction s arbitrary: prev)
  case Nil
  then show ?case by (auto simp: prev_of_def)
next
  case (Cons c cs)
  show ?case
  proof (cases "m prev (c # cs)")
    case (Some r')
    with Cons.prems have "c # cs = [] @ (c # cs) \<and> m (prev_of prev []) (c # cs) = Some r"
      by (simp add: prev_of_def)
    then show ?thesis by blast
  next
    case None
    with Cons.prems have "exec_from m (Some c) cs = Some r" by simp
    from Cons.IH [OF this] obtain xs ys
      where "cs = xs @ ys" and "m (prev_of (Some c) xs) ys = Some r" by blast
    then have "c # cs = (c # xs) @ ys \<and> m (prev_of prev (c # xs)) ys = Some r"
      by (auto simp: prev_of_def split: if_splits)
    then show ?thesis by blast
  qed
qed

subsection \<open>Schemes of the \<open>Authorization\<close> header\<close>

definition match_scheme :: "string \<Rightarrow> string \<Rightarrow> string option" where
  \<comment> \<open>\<open>/^scheme +(\S+)$/i\<close>: the captured token\<close>
  "match_scheme scheme s =
     (let rest = drop (length scheme) s; token = dropWhile (\<lambda>c. c = CHR '' '') rest
      in if prefix_ci scheme s \<and> token \<noteq> rest \<and> token \<noteq> [] \<and> list_all (\<lambda>c. \<not> is_ws c) token
         then Some token else None)"

lemma match_scheme_Some:
  "match_scheme scheme s = Some token \<Longrightarrow> token \<noteq> [] \<and> list_all (\<lambda>c. \<not> is_ws c) token"
  by (auto simp: match_scheme_def Let_def split: if_splits)

lemma match_scheme_intro:
  assumes "map js_lower p = scheme" and "token \<noteq> []" and "list_all (\<lambda>c. \<not> is_ws c) token"
  shows "match_scheme scheme (p @ CHR '' '' # token) = Some token"
proof -
  from assms(1) have len: "length p = length scheme" by auto
  from assms(2,3) have "\<not> is_ws (hd token)" by (cases token) auto
  then have "hd token \<noteq> CHR '' ''" by (auto simp: is_ws_def)
  then have "dropWhile (\<lambda>c. c = CHR '' '') token = token"
    using assms(2) by (cases token) auto
  moreover have "\<exists>x\<in>set token. x \<noteq> CHR '' ''"
    using assms(2) \<open>hd token \<noteq> CHR '' ''\<close> by (cases token) auto
  ultimately show ?thesis
    using assms len by (simp add: match_scheme_def prefix_ci_def)
qed

subsection \<open>Numbers in text\<close>

fun show_nat :: "nat \<Rightarrow> string" where
  "show_nat n = (if n < 10 then [char_of (48 + n)]
     else show_nat (n div 10) @ [char_of (48 + n mod 10)])"

declare show_nat.simps [simp del]

fun nat_of_digits_acc :: "nat \<Rightarrow> string \<Rightarrow> nat" where
  "nat_of_digits_acc a [] = a"
| "nat_of_digits_acc a (c # cs) = nat_of_digits_acc (10 * a + (cc c - 48)) cs"

definition nat_of_digits :: "string \<Rightarrow> nat" where
  "nat_of_digits = nat_of_digits_acc 0"

lemma nat_of_digits_acc_append:
  "nat_of_digits_acc a (xs @ ys) = nat_of_digits_acc (nat_of_digits_acc a xs) ys"
  by (induction xs arbitrary: a) auto

lemma digit_char: "n < 10 \<Longrightarrow> cc (char_of (48 + n)) = 48 + n"
  by simp

lemma nat_of_digits_show [simp]: "nat_of_digits (show_nat n) = n"
proof (induction n rule: show_nat.induct)
  case (1 n)
  show ?case
  proof (cases "n < 10")
    case True
    then show ?thesis by (subst show_nat.simps) (simp add: nat_of_digits_def)
  next
    case False
    with 1 have "nat_of_digits (show_nat (n div 10)) = n div 10" by simp
    with False show ?thesis
      by (subst show_nat.simps) (simp add: nat_of_digits_def nat_of_digits_acc_append)
  qed
qed

lemma show_nat_digits: "list_all is_digit (show_nat n) \<and> show_nat n \<noteq> []"
proof (induction n rule: show_nat.induct)
  case (1 n)
  have d: "is_digit (char_of (48 + m))" if "m < 10" for m :: nat
    using that by (simp add: is_digit_def)
  show ?case
  proof (cases "n < 10")
    case True
    then show ?thesis by (subst (1 2) show_nat.simps) (simp add: d)
  next
    case False
    with 1 have "list_all is_digit (show_nat (n div 10))" by simp
    with False show ?thesis by (subst (1 2) show_nat.simps) (simp add: d)
  qed
qed

lemma show_nat_inj [simp]: "show_nat m = show_nat n \<longleftrightarrow> m = n"
  by (metis nat_of_digits_show)

end
