(* ===== verification/Constants.thy ===== *)
theory Constants
  imports JsText
begin

section \<open>Constants and enumerations\<close>

text \<open>
  The constant objects of \<open>src/src/constants/\<close> and the enumerations of \<open>src/src/enums/\<close>. A
  constant object becomes a datatype of its keys and a function to the values; an enumeration a
  datatype and the string of each member. The safe-id pattern of \<open>patterns.constants.ts\<close> is the
  predicate \<open>safe_header_id\<close>.
\<close>

subsection \<open>\<open>HttpStatus\<close>, \<open>ErrorMessage\<close>, \<open>Header\<close>\<close>

datatype status_key = StOk | StBadRequest | StUnauthorized | StForbidden | StNotFound
  | StInternalServerError | StBadGateway | StServiceUnavailable | StGatewayTimeout

fun http_status :: "status_key \<Rightarrow> nat" where
  "http_status StOk = 200"
| "http_status StBadRequest = 400"
| "http_status StUnauthorized = 401"
| "http_status StForbidden = 403"
| "http_status StNotFound = 404"
| "http_status StInternalServerError = 500"
| "http_status StBadGateway = 502"
| "http_status StServiceUnavailable = 503"
| "http_status StGatewayTimeout = 504"

datatype message_key = MsgUnauthorized | MsgForbidden | MsgNotFound | MsgGatewayMisconfigured
  | MsgOverloaded | MsgUpstreamTimeout | MsgUpstreamUnavailable | MsgInternalError

fun error_message :: "message_key \<Rightarrow> string" where
  "error_message MsgUnauthorized = ''Unauthorized''"
| "error_message MsgForbidden = ''Forbidden''"
| "error_message MsgNotFound = ''Not found''"
| "error_message MsgGatewayMisconfigured = ''Gateway misconfigured''"
| "error_message MsgOverloaded = ''Gateway overloaded''"
| "error_message MsgUpstreamTimeout = ''Upstream timeout''"
| "error_message MsgUpstreamUnavailable = ''Upstream unavailable''"
| "error_message MsgInternalError = ''Internal gateway error''"

datatype header_key = HdrRequestId | HdrCorrelationId | HdrTraceparent | HdrTracestate
  | HdrAccept | HdrAcceptEncoding | HdrApiKey | HdrAuthorization | HdrCache | HdrCacheControl
  | HdrContentEncoding | HdrContentLanguage | HdrContentType | HdrCookie | HdrEtag
  | HdrForwardedFor | HdrForwardedHost | HdrForwardedProto | HdrLastModified | HdrRetryAfter
  | HdrVary | HdrWwwAuthenticate

fun header_name :: "header_key \<Rightarrow> string" where
  "header_name HdrRequestId = ''x-request-id''"
| "header_name HdrCorrelationId = ''x-correlation-id''"
| "header_name HdrTraceparent = ''traceparent''"
| "header_name HdrTracestate = ''tracestate''"
| "header_name HdrAccept = ''accept''"
| "header_name HdrAcceptEncoding = ''accept-encoding''"
| "header_name HdrApiKey = ''x-api-key''"
| "header_name HdrAuthorization = ''authorization''"
| "header_name HdrCache = ''x-cache''"
| "header_name HdrCacheControl = ''cache-control''"
| "header_name HdrContentEncoding = ''content-encoding''"
| "header_name HdrContentLanguage = ''content-language''"
| "header_name HdrContentType = ''content-type''"
| "header_name HdrCookie = ''cookie''"
| "header_name HdrEtag = ''etag''"
| "header_name HdrForwardedFor = ''x-forwarded-for''"
| "header_name HdrForwardedHost = ''x-forwarded-host''"
| "header_name HdrForwardedProto = ''x-forwarded-proto''"
| "header_name HdrLastModified = ''last-modified''"
| "header_name HdrRetryAfter = ''retry-after''"
| "header_name HdrVary = ''vary''"
| "header_name HdrWwwAuthenticate = ''www-authenticate''"

lemma header_name_inj [simp]: "header_name a = header_name b \<longleftrightarrow> a = b"
  by (cases a; cases b; simp)

declare header_name.simps [simp del]

subsection \<open>HTTP methods for metric labels\<close>

definition known_http_methods :: "string list" where
  "known_http_methods =
     [''GET'', ''HEAD'', ''POST'', ''PUT'', ''PATCH'', ''DELETE'', ''OPTIONS'', ''TRACE'',
      ''CONNECT'']"

definition other_method_label :: string where
  "other_method_label = ''OTHER''"

subsection \<open>The shape of client-supplied ids: \<open>/^[\w.-]{1,128}$/\<close>\<close>

definition safe_header_id :: "string \<Rightarrow> bool" where
  "safe_header_id s \<longleftrightarrow> 1 \<le> length s \<and> length s \<le> 128
     \<and> list_all (\<lambda>c. is_word c \<or> c = CHR ''.'' \<or> c = CHR ''-'') s"

subsection \<open>Enumerations\<close>

datatype auth_scheme = AuthNone | AuthApiKey | AuthBasic | AuthJwt | AuthBearer

fun auth_scheme_value :: "auth_scheme \<Rightarrow> string" where
  "auth_scheme_value AuthNone = ''none''"
| "auth_scheme_value AuthApiKey = ''api-key''"
| "auth_scheme_value AuthBasic = ''basic''"
| "auth_scheme_value AuthJwt = ''jwt''"
| "auth_scheme_value AuthBearer = ''bearer''"

datatype alert_channel_kind = ChannelNone | ChannelSlack | ChannelDiscord

fun alert_channel_value :: "alert_channel_kind \<Rightarrow> string" where
  "alert_channel_value ChannelNone = ''none''"
| "alert_channel_value ChannelSlack = ''slack''"
| "alert_channel_value ChannelDiscord = ''discord''"

datatype alert_level = AlertError | AlertWarn

fun alert_level_value :: "alert_level \<Rightarrow> string" where
  "alert_level_value AlertError = ''error''"
| "alert_level_value AlertWarn = ''warn''"

datatype log_destination = LogConsole | LogFile

fun log_destination_value :: "log_destination \<Rightarrow> string" where
  "log_destination_value LogConsole = ''console''"
| "log_destination_value LogFile = ''file''"

datatype log_request_style = StyleFastify | StyleSingle | StyleOff

fun log_request_style_value :: "log_request_style \<Rightarrow> string" where
  "log_request_style_value StyleFastify = ''fastify''"
| "log_request_style_value StyleSingle = ''single''"
| "log_request_style_value StyleOff = ''off''"

end
