(* ===== verification/Encoding.thy ===== *)
theory Encoding
  imports JsText "HOL-Library.Word"
begin

section \<open>Bytes and text: \<open>Buffer.from\<close>, \<open>toString\<close>, base64, UTF-8\<close>

text \<open>
  A \<open>Buffer\<close> is a list of 8-bit words. \<open>Buffer.from(s)\<close> is the UTF-8 encoding of the code
  points of \<open>s\<close> (\<open>utf8_encode\<close>), \<open>toString("utf8")\<close> is the decoder of the Encoding standard
  with U+FFFD for every maximal ill-formed piece (\<open>utf8_decode\<close>), \<open>toString("base64")\<close> is the
  padded standard alphabet (\<open>base64_encode\<close>), and \<open>Buffer.from(s, "base64")\<close> is Node's lenient
  decoder (\<open>base64_decode\<close>): it accepts the URL-safe alphabet too, skips every other character,
  and ends at the first \<open>=\<close>; one left-over character is dropped.

  Decoded text may hold any code point, so it is a \<open>nat list\<close> of code points (\<open>codes\<close>);
  \<open>js_codes\<close> reads a \<open>string\<close> as one.
\<close>

type_synonym byte = "8 word"
type_synonym bytes = "byte list"
type_synonym codes = "nat list"

definition js_codes :: "string \<Rightarrow> codes" where
  "js_codes s = map of_char s"

lemma js_codes_inj [simp]: "js_codes s = js_codes t \<longleftrightarrow> s = t"
  by (simp add: js_codes_def inj_on_def inj_map_eq_map)

lemma js_codes_simps [simp]:
  "js_codes [] = []" "js_codes (c # s) = of_char c # js_codes s"
  "js_codes (s @ t) = js_codes s @ js_codes t"
  by (simp_all add: js_codes_def)

lemma of_char_in_js_codes [simp]: "of_char c \<in> set (js_codes s) \<longleftrightarrow> c \<in> set s"
  by (auto simp: js_codes_def)

lemma js_codes_Nil_iff [simp]: "js_codes s = [] \<longleftrightarrow> s = []"
  by (simp add: js_codes_def)

lemma colon_in_js_codes [simp]: "58 \<in> set (js_codes s) \<longleftrightarrow> CHR '':'' \<in> set s"
  using of_char_in_js_codes [of "CHR '':''" s] by simp

subsection \<open>UTF-8\<close>

definition utf8_char :: "nat \<Rightarrow> nat list" where
  "utf8_char n =
     (if n < 128 then [n]
      else if n < 2048 then [192 + n div 64, 128 + n mod 64]
      else if n < 65536 then [224 + n div 4096, 128 + n div 64 mod 64, 128 + n mod 64]
      else [240 + n div 262144, 128 + n div 4096 mod 64, 128 + n div 64 mod 64, 128 + n mod 64])"

definition utf8_encode :: "codes \<Rightarrow> bytes" where
  "utf8_encode cs = map of_nat (concat (map utf8_char cs))"

definition is_cont :: "nat \<Rightarrow> bool" where
  "is_cont b \<longleftrightarrow> 128 \<le> b \<and> b < 192"

definition second3 :: "nat \<Rightarrow> nat \<Rightarrow> bool" where
  \<comment> \<open>second bytes of a three-byte sequence: no overlong forms, no surrogates\<close>
  "second3 b c \<longleftrightarrow> (if b = 224 then 160 else 128) \<le> c \<and> c < (if b = 237 then 160 else 192)"

definition second4 :: "nat \<Rightarrow> nat \<Rightarrow> bool" where
  "second4 b c \<longleftrightarrow> (if b = 240 then 144 else 128) \<le> c \<and> c < (if b = 244 then 144 else 192)"

abbreviation replacement :: nat where
  "replacement \<equiv> 65533"

definition utf8_join2 :: "nat \<Rightarrow> nat \<Rightarrow> nat" where
  "utf8_join2 b c = (b - 192) * 64 + (c - 128)"

definition utf8_join3 :: "nat \<Rightarrow> nat \<Rightarrow> nat \<Rightarrow> nat" where
  "utf8_join3 b c d = (b - 224) * 4096 + (c - 128) * 64 + (d - 128)"

definition utf8_join4 :: "nat \<Rightarrow> nat \<Rightarrow> nat \<Rightarrow> nat \<Rightarrow> nat" where
  "utf8_join4 b c d e = (b - 240) * 262144 + (c - 128) * 4096 + (d - 128) * 64 + (e - 128)"

lemmas utf8_join_defs = utf8_join2_def utf8_join3_def utf8_join4_def

fun utf8_scan :: "nat list \<Rightarrow> codes" where
  "utf8_scan [] = []"
| "utf8_scan (b # r) =
     (if b < 128 then b # utf8_scan r
      else if 194 \<le> b \<and> b < 224 then
        (case r of [] \<Rightarrow> [replacement]
         | c # r1 \<Rightarrow> if is_cont c then utf8_join2 b c # utf8_scan r1
                    else replacement # utf8_scan r)
      else if 224 \<le> b \<and> b < 240 then
        (case r of [] \<Rightarrow> [replacement]
         | c # r1 \<Rightarrow> if \<not> second3 b c then replacement # utf8_scan r
           else (case r1 of [] \<Rightarrow> [replacement]
            | d # r2 \<Rightarrow> if is_cont d
                then utf8_join3 b c d # utf8_scan r2
                else replacement # utf8_scan r1))
      else if 240 \<le> b \<and> b < 245 then
        (case r of [] \<Rightarrow> [replacement]
         | c # r1 \<Rightarrow> if \<not> second4 b c then replacement # utf8_scan r
           else (case r1 of [] \<Rightarrow> [replacement]
            | d # r2 \<Rightarrow> if \<not> is_cont d then replacement # utf8_scan r1
              else (case r2 of [] \<Rightarrow> [replacement]
               | e # r3 \<Rightarrow> if is_cont e
                   then utf8_join4 b c d e # utf8_scan r3
                   else replacement # utf8_scan r2)))
      else replacement # utf8_scan r)"

definition utf8_decode :: "bytes \<Rightarrow> codes" where
  "utf8_decode bs = utf8_scan (map unat bs)"

definition scalar :: "nat \<Rightarrow> bool" where
  \<comment> \<open>a Unicode scalar value: a code point that is no surrogate\<close>
  "scalar n \<longleftrightarrow> n < 55296 \<or> 57344 \<le> n \<and> n < 1114112"

lemma utf8_char_bytes: "scalar n \<Longrightarrow> b \<in> set (utf8_char n) \<Longrightarrow> b < 256"
  by (auto simp: utf8_char_def scalar_def split: if_splits)

lemma second3I:
  "\<lbrakk>x = 0 \<Longrightarrow> 32 \<le> y; x = 13 \<Longrightarrow> y < 32; y < 64\<rbrakk> \<Longrightarrow> second3 (224 + x) (128 + y)"
  by (auto simp: second3_def)

lemma second4I:
  "\<lbrakk>x = 0 \<Longrightarrow> 16 \<le> y; x = 4 \<Longrightarrow> y < 16; y < 64\<rbrakk> \<Longrightarrow> second4 (240 + x) (128 + y)"
  by (auto simp: second4_def)

lemma mod64_between:
  fixes m :: nat
  shows "64 * q + l \<le> m \<Longrightarrow> m < 64 * q + u \<Longrightarrow> u \<le> 64 \<Longrightarrow> l \<le> m mod 64 \<and> m mod 64 < u"
proof -
  assume h: "64 * q + l \<le> m" "m < 64 * q + u" "u \<le> 64"
  then obtain d where d: "m = 64 * q + d" "l \<le> d" "d < u"
    by (metis add_le_cancel_left add_less_cancel_left le_Suc_ex le_trans le_add1)
  with h(3) show ?thesis by simp
qed

lemmas div_bounds = less_eq_div_iff_mult_less_eq div_less_iff_less_mult

lemma utf8_scan_char3:
  assumes "2048 \<le> n" and "scalar n"
  shows "second3 (224 + n div 4096) (128 + n div 64 mod 64)"
proof (rule second3I)
  assume "n div 4096 = 0"
  then have "n < 4096" by (simp add: div_eq_0_iff)
  with assms(1) have "64 * 0 + 32 \<le> n div 64" and "n div 64 < 64 * 0 + 64"
    by (simp_all add: div_bounds)
  from mod64_between [OF this] show "32 \<le> n div 64 mod 64" by simp
next
  assume n: "n div 4096 = 13"
  have "n < 57344" and "53248 \<le> n"
    using div_times_less_eq_dividend [of n 4096] dividend_less_div_times [of 4096 n] n by simp_all
  moreover from this assms(2) have "n < 55296" by (auto simp: scalar_def)
  ultimately have "64 * 13 + 0 \<le> n div 64" and "n div 64 < 64 * 13 + 32"
    by (simp_all add: div_bounds)
  from mod64_between [OF this] show "n div 64 mod 64 < 32" by simp
qed simp

lemma utf8_scan_char4:
  assumes "65536 \<le> n" and "n < 1114112"
  shows "second4 (240 + n div 262144) (128 + n div 4096 mod 64)"
proof (rule second4I)
  assume "n div 262144 = 0"
  then have "n < 262144" by (simp add: div_eq_0_iff)
  with assms(1) have "64 * 0 + 16 \<le> n div 4096" and "n div 4096 < 64 * 0 + 64"
    by (simp_all add: div_bounds)
  from mod64_between [OF this] show "16 \<le> n div 4096 mod 64" by simp
next
  assume n: "n div 262144 = 4"
  have "1048576 \<le> n" using div_times_less_eq_dividend [of n 262144] n by simp
  with assms(2) have "64 * 4 + 0 \<le> n div 4096" and "n div 4096 < 64 * 4 + 16"
    by (simp_all add: div_bounds)
  from mod64_between [OF this] show "n div 4096 mod 64 < 16" by simp
qed simp

lemma join_sextets2: "(n::nat) div 64 * 64 + n mod 64 = n"
  by simp

lemma join_sextets3: "(n::nat) div 4096 * 4096 + n div 64 mod 64 * 64 + n mod 64 = n"
proof -
  have "n div 4096 = n div 64 div 64" by (simp add: div_mult2_eq [symmetric])
  then have "n div 4096 * 64 + n div 64 mod 64 = n div 64" by simp
  then have "(n div 4096 * 64 + n div 64 mod 64) * 64 + n mod 64 = n" by simp
  then show ?thesis by (simp add: algebra_simps)
qed

lemma join_sextets4:
  "(n::nat) div 262144 * 262144 + n div 4096 mod 64 * 4096 + n div 64 mod 64 * 64 + n mod 64 = n"
proof -
  have "n div 262144 = n div 64 div 4096" and "n div 4096 = n div 64 div 64"
    by (simp_all add: div_mult2_eq [symmetric])
  with join_sextets3 [of "n div 64"]
  have "(n div 262144 * 4096 + n div 4096 mod 64 * 64 + n div 64 mod 64) * 64 + n mod 64 = n"
    by simp
  then show ?thesis by (simp add: algebra_simps)
qed

lemma utf8_scan_char: "scalar n \<Longrightarrow> utf8_scan (utf8_char n @ r) = n # utf8_scan r"
proof -
  assume s: "scalar n"
  then have lt: "n < 1114112" by (auto simp: scalar_def)
  consider "n < 128" | "128 \<le> n" "n < 2048" | "2048 \<le> n" "n < 65536" | "65536 \<le> n"
    by linarith
  then show ?thesis
  proof cases
    case 1
    then show ?thesis by (simp add: utf8_char_def)
  next
    case 2
    then have "2 \<le> n div 64" and "n div 64 < 32"
      by (simp_all add: less_eq_div_iff_mult_less_eq div_less_iff_less_mult)
    with 2 show ?thesis by (simp add: utf8_char_def is_cont_def utf8_join_defs)
  next
    case 3
    then have "n div 4096 < 16" by (simp add: div_less_iff_less_mult)
    with 3 utf8_scan_char3 [OF 3(1) s] join_sextets3 [of n] show ?thesis
      by (simp add: utf8_char_def is_cont_def utf8_join_defs)
  next
    case 4
    with lt have "n div 262144 < 5" by (simp add: div_less_iff_less_mult)
    with 4 utf8_scan_char4 [OF 4 lt] join_sextets4 [of n] show ?thesis
      by (simp add: utf8_char_def is_cont_def utf8_join_defs)
  qed
qed

lemma utf8_round_trip:
  assumes "list_all scalar cs"
  shows "utf8_decode (utf8_encode cs) = cs"
proof -
  have "map (unat \<circ> (of_nat :: nat \<Rightarrow> byte)) (utf8_char n) = utf8_char n" if "scalar n" for n
    using utf8_char_bytes [OF that]
    by (intro map_idI) (simp add: unat_of_nat take_bit_nat_eq_self)
  with assms have "map (unat \<circ> (of_nat :: nat \<Rightarrow> byte)) (concat (map utf8_char cs))
      = concat (map utf8_char cs)"
    by (induction cs) auto
  moreover from assms have "utf8_scan (concat (map utf8_char cs)) = cs"
    by (induction cs) (auto simp: utf8_scan_char)
  ultimately show ?thesis by (simp add: utf8_decode_def utf8_encode_def)
qed

lemma byte_less: "unat (a :: byte) < 256"
proof -
  have "unat a < 2 ^ LENGTH(8)" by (rule unsigned_less)
  then show ?thesis by simp
qed

lemma utf8_join2_scalar: "194 \<le> b \<Longrightarrow> b < 224 \<Longrightarrow> is_cont c \<Longrightarrow> scalar (utf8_join2 b c)"
  unfolding scalar_def is_cont_def utf8_join2_def by linarith

lemma utf8_join3_scalar:
  assumes "224 \<le> b" and "b < 240" and "second3 b c" and "is_cont d"
  shows "scalar (utf8_join3 b c d)"
proof (cases "b = 237")
  case True
  with assms have "c - 128 < 32" and "d - 128 < 64"
    by (auto simp: is_cont_def second3_def)
  then have "(c - 128) * 64 + (d - 128) < 2048" by linarith
  with True show ?thesis unfolding scalar_def utf8_join3_def by simp
next
  case False
  from assms have "c - 128 < 64" and "d - 128 < 64"
    by (auto simp: is_cont_def second3_def split: if_splits)
  then have small: "(c - 128) * 64 + (d - 128) < 4096" by linarith
  from False consider "b - 224 < 13" | "14 \<le> b - 224" "b - 224 < 16"
    using assms(1,2) by linarith
  then show ?thesis
  proof cases
    case 1
    with small have "utf8_join3 b c d < 55296" unfolding utf8_join3_def by linarith
    then show ?thesis by (simp add: scalar_def)
  next
    case 2
    with small have "57344 \<le> utf8_join3 b c d" and "utf8_join3 b c d < 1114112"
      unfolding utf8_join3_def by linarith+
    then show ?thesis by (simp add: scalar_def)
  qed
qed

lemma utf8_join4_scalar:
  assumes "240 \<le> b" and "b < 245" and "second4 b c" and "is_cont d" and "is_cont e"
  shows "scalar (utf8_join4 b c d e)"
proof -
  from assms have low: "(d - 128) * 64 + (e - 128) < 4096"
    unfolding is_cont_def by linarith
  have "57344 \<le> utf8_join4 b c d e \<and> utf8_join4 b c d e < 1114112"
  proof (cases "b = 240 \<or> b = 244")
    case True
    then have "b - 240 = 0 \<and> 16 \<le> c - 128 \<and> c - 128 < 64 \<or> b - 240 = 4 \<and> c - 128 < 16"
      using assms(3) by (auto simp: second4_def)
    with low show ?thesis unfolding utf8_join4_def by linarith
  next
    case False
    with assms have "1 \<le> b - 240" and "b - 240 < 4" and "c - 128 < 64"
      by (auto simp: second4_def)
    with low show ?thesis unfolding utf8_join4_def by linarith
  qed
  then show ?thesis by (simp add: scalar_def)
qed

lemma utf8_scan_scalar: "list_all scalar (utf8_scan bs)"
proof (induction bs rule: utf8_scan.induct)
  case 1
  then show ?case by simp
next
  case (2 b r)
  have "scalar replacement" by (simp add: scalar_def)
  moreover have "b < 128 \<Longrightarrow> scalar b" by (simp add: scalar_def)
  ultimately show ?case
    using 2 utf8_join2_scalar utf8_join3_scalar utf8_join4_scalar
    by (simp split: list.split)
qed

lemma utf8_decode_scalar: "list_all scalar (utf8_decode bs)"
  unfolding utf8_decode_def by (rule utf8_scan_scalar)

lemma js_codes_scalar: "list_all scalar (js_codes s)"
proof (induction s)
  case (Cons c s)
  have "scalar (of_char c)"
    unfolding scalar_def using nat_of_char_less_256 [of c] by linarith
  with Cons show ?case by simp
qed simp

lemma utf8_encode_inj:
  "list_all scalar a \<Longrightarrow> list_all scalar b \<Longrightarrow> utf8_encode a = utf8_encode b \<longleftrightarrow> a = b"
  by (metis utf8_round_trip)

subsection \<open>Base64\<close>

definition base64_alphabet :: string where
  "base64_alphabet =
     ''ABCDEFGHIJKLMNOPQRSTUVWXYZabcdefghijklmnopqrstuvwxyz0123456789+/''"

definition base64_char :: "nat \<Rightarrow> char" where
  "base64_char n =
     (if n < 26 then char_of (65 + n)
      else if n < 52 then char_of (71 + n)
      else if n < 62 then char_of (n - 4)
      else if n = 62 then CHR ''+'' else CHR ''/'')"

definition base64_value :: "char \<Rightarrow> nat option" where
  "base64_value c =
     (if is_upper c then Some (cc c - 65)
      else if is_lower c then Some (cc c - 71)
      else if is_digit c then Some (cc c + 4)
      else if c = CHR ''+'' \<or> c = CHR ''-'' then Some 62
      else if c = CHR ''/'' \<or> c = CHR ''_'' then Some 63
      else None)"

lemma base64_char_alphabet: "map base64_char [0..<64] = base64_alphabet"
  by code_simp

fun base64_encode :: "bytes \<Rightarrow> string" where
  "base64_encode [] = []"
| "base64_encode [a] =
     (let n = unat a * 16 in [base64_char (n div 64), base64_char (n mod 64)] @ ''=='')"
| "base64_encode [a, b] =
     (let n = unat a * 1024 + unat b * 4
      in [base64_char (n div 4096), base64_char (n div 64 mod 64), base64_char (n mod 64)] @ ''='')"
| "base64_encode (a # b # c # r) =
     (let n = unat a * 65536 + unat b * 256 + unat c
      in [base64_char (n div 262144), base64_char (n div 4096 mod 64),
          base64_char (n div 64 mod 64), base64_char (n mod 64)] @ base64_encode r)"

fun base64_groups :: "nat list \<Rightarrow> bytes" where
  "base64_groups (w # x # y # z # r) =
     (let n = w * 262144 + x * 4096 + y * 64 + z
      in [of_nat (n div 65536), of_nat (n div 256), of_nat n] @ base64_groups r)"
| "base64_groups [w, x, y] =
     (let n = w * 4096 + x * 64 + y in [of_nat (n div 1024), of_nat (n div 4)])"
| "base64_groups [w, x] = [of_nat ((w * 64 + x) div 16)]"
| "base64_groups _ = []"

definition base64_decode :: "string \<Rightarrow> bytes" where
  "base64_decode s =
     base64_groups (List.map_filter base64_value (takeWhile (\<lambda>c. c \<noteq> CHR ''='') s))"

lemma base64_value_char: "n < 64 \<Longrightarrow> base64_value (base64_char n) = Some n"
  by (auto simp: base64_char_def base64_value_def is_upper_def is_lower_def is_digit_def)

lemma base64_char_not_pad: "n < 64 \<Longrightarrow> base64_char n \<noteq> CHR ''=''"
  using base64_value_char [of n] by (auto simp: base64_value_def is_upper_def is_lower_def is_digit_def)

lemma base64_char_not_ws: "n < 64 \<Longrightarrow> \<not> is_ws (base64_char n)"
  using base64_value_char [of n]
  by (auto simp: base64_value_def is_upper_def is_lower_def is_digit_def is_ws_def split: if_splits)

text \<open>The numbers of one to three bytes, and the sextets they have.\<close>

lemma group3_bound: "unat (a :: byte) * 65536 + unat (b :: byte) * 256 + unat (c :: byte) < 16777216"
  using byte_less [of a] byte_less [of b] byte_less [of c] by linarith

lemma of_nat_byte_add: "(of_nat (k * 256 + unat (b :: byte)) :: byte) = b"
proof -
  have "(256 :: byte) = 0" by code_simp
  then have "(of_nat (k * 256) :: byte) = 0"
    by (simp only: of_nat_mult of_nat_numeral mult_zero_right)
  then show ?thesis by (simp only: of_nat_add) simp
qed

lemma base64_groups_3:
  fixes a b c :: byte
  defines "n \<equiv> unat a * 65536 + unat b * 256 + unat c"
  shows "base64_groups (n div 262144 # n div 4096 mod 64 # n div 64 mod 64 # n mod 64 # r)
    = a # b # c # base64_groups r"
proof -
  have n: "n div 262144 * 262144 + n div 4096 mod 64 * 4096 + n div 64 mod 64 * 64 + n mod 64 = n"
    by (rule join_sextets4)
  have 1: "n div 65536 = unat a"
    using byte_less [of b] byte_less [of c] by (simp add: n_def)
  have 2: "n div 256 = unat a * 256 + unat b"
    using byte_less [of c] by (simp add: n_def)
  have 3: "n = (unat a * 256 + unat b) * 256 + unat c"
    by (simp add: n_def)
  have "(of_nat (n div 256) :: byte) = b" unfolding 2 by (rule of_nat_byte_add)
  moreover have "(of_nat n :: byte) = c" unfolding 3 by (rule of_nat_byte_add)
  moreover have "(of_nat (n div 65536) :: byte) = a" by (simp add: 1)
  ultimately show ?thesis by (simp add: n)
qed

lemma base64_round_trip: "base64_decode (base64_encode bs) = bs"
proof (induction bs rule: base64_encode.induct)
  case 1
  then show ?case by (simp add: base64_decode_def)
next
  case (2 a)
  have "unat a * 16 < 4096" using byte_less [of a] by simp
  then have "unat a * 16 div 64 < 64" by linarith
  moreover have "unat a div 4 * 64 + unat a * 16 mod 64 = unat a * 16"
    using div_mult_mod_eq [of "unat a * 16" 64] by simp
  ultimately show ?case
    by (simp add: base64_decode_def Let_def base64_char_not_pad base64_value_char
        map_filter_simps)
next
  case (3 a b)
  let ?n = "unat a * 1024 + unat b * 4"
  have "?n < 262144" using byte_less [of a] byte_less [of b] by linarith
  then have "?n div 4096 < 64" by linarith
  moreover have "?n div 4096 * 4096 + ?n div 64 mod 64 * 64 + ?n mod 64 = ?n"
    by (rule join_sextets3)
  moreover have "(of_nat (?n div 4) :: byte) = b"
    using of_nat_byte_add [of "unat a" b] by (simp add: algebra_simps)
  moreover have "(of_nat (?n div 1024) :: byte) = a"
  proof -
    have "?n div 1024 = unat a" using byte_less [of b] by simp
    then show ?thesis by simp
  qed
  ultimately show ?case
    by (simp add: base64_decode_def Let_def base64_char_not_pad base64_value_char
        map_filter_simps)
next
  case (4 a b c r)
  let ?n = "unat a * 65536 + unat b * 256 + unat c"
  have "?n div 262144 < 64" using group3_bound [of a b c] by linarith
  with 4 base64_groups_3 [of a b c] show ?case
    by (simp add: base64_decode_def Let_def base64_char_not_pad base64_value_char
        map_filter_simps del: base64_groups.simps)
qed

lemma base64_encode_no_ws: "list_all (\<lambda>c. \<not> is_ws c) (base64_encode bs)"
proof (induction bs rule: base64_encode.induct)
  case (2 a)
  have "unat a * 16 div 64 < 64" using byte_less [of a] by linarith
  then show ?case by (simp add: Let_def base64_char_not_ws is_ws_def [of "CHR ''=''"])
next
  case (3 a b)
  have "(unat a * 1024 + unat b * 4) div 4096 < 64"
    using byte_less [of a] byte_less [of b] by linarith
  then show ?case by (simp add: Let_def base64_char_not_ws is_ws_def [of "CHR ''=''"])
next
  case (4 a b c r)
  have "(unat a * 65536 + unat b * 256 + unat c) div 262144 < 64"
    using group3_bound [of a b c] by linarith
  with 4 show ?case by (simp add: Let_def base64_char_not_ws)
qed simp

lemma base64_encode_Nil: "base64_encode bs = [] \<longleftrightarrow> bs = []"
  by (cases bs rule: base64_encode.cases) (auto simp: Let_def)

subsection \<open>Hexadecimal\<close>

definition hex_char :: "nat \<Rightarrow> char" where
  "hex_char n = (if n < 10 then char_of (48 + n) else char_of (87 + n))"

definition bytes_hex :: "bytes \<Rightarrow> string" where
  \<comment> \<open>\<open>toString("hex")\<close>\<close>
  "bytes_hex bs = concat (map (\<lambda>b. [hex_char (unat b div 16), hex_char (unat b mod 16)]) bs)"

lemma cc_hex_char: "n < 16 \<Longrightarrow> cc (hex_char n) = (if n < 10 then 48 + n else 87 + n)"
proof -
  assume "n < 16"
  then have "(48 + n) mod 256 = 48 + n" and "(87 + n) mod 256 = 87 + n"
    by (intro mod_less, simp)+
  then show ?thesis
    unfolding hex_char_def if_distrib [of cc] of_char_of by (simp only:)
qed

lemma hex_char_lower: "n < 16 \<Longrightarrow> is_hex_lower (hex_char n)"
proof (cases "n < 10")
  case True
  then have "cc (hex_char n) = 48 + n" by (subst cc_hex_char) simp_all
  with True show ?thesis unfolding is_hex_lower_def is_digit_def by linarith
next
  case False
  assume "n < 16"
  with False have "cc (hex_char n) = 87 + n" by (subst cc_hex_char) simp_all
  with False \<open>n < 16\<close> show ?thesis unfolding is_hex_lower_def is_digit_def by linarith
qed

lemma hex_char_inj: "m < 16 \<Longrightarrow> n < 16 \<Longrightarrow> hex_char m = hex_char n \<longleftrightarrow> m = n"
proof
  assume "m < 16" and "n < 16" and eq: "hex_char m = hex_char n"
  from eq have "cc (hex_char m) = cc (hex_char n)" by (rule arg_cong)
  with \<open>m < 16\<close> \<open>n < 16\<close> have "(if m < 10 then 48 + m else 87 + m) = (if n < 10 then 48 + n else 87 + n)"
    by (simp only: cc_hex_char)
  then show "m = n" by (simp split: if_splits)
qed simp

lemma length_bytes_hex [simp]: "length (bytes_hex bs) = 2 * length bs"
  by (induction bs) (simp_all add: bytes_hex_def)

lemma bytes_hex_lower: "list_all is_hex_lower (bytes_hex bs)"
proof (induction bs)
  case (Cons b bs)
  have "unat b div 16 < 16" using byte_less [of b] by (simp add: div_less_iff_less_mult)
  with Cons show ?case by (simp add: bytes_hex_def hex_char_lower)
qed (simp add: bytes_hex_def)

lemma bytes_hex_inj [simp]: "bytes_hex a = bytes_hex b \<longleftrightarrow> a = b"
proof
  show "bytes_hex a = bytes_hex b \<Longrightarrow> a = b"
  proof (induction a arbitrary: b)
    case Nil
    then show ?case by (cases b) (auto simp: bytes_hex_def)
  next
    case (Cons x a)
    from Cons.prems obtain y b' where b: "b = y # b'"
      by (cases b) (auto simp: bytes_hex_def)
    have lt: "unat z div 16 < 16" for z :: byte
      using byte_less [of z] by (simp add: div_less_iff_less_mult)
    from Cons.prems b have "bytes_hex a = bytes_hex b'"
      and h: "unat x div 16 = unat y div 16" "unat x mod 16 = unat y mod 16"
      by (auto simp: bytes_hex_def hex_char_inj lt)
    from h have "unat x = unat y" by (metis div_mult_mod_eq)
    then have "x = y" by (rule unsigned_word_eqI)
    with b Cons.IH [OF \<open>bytes_hex a = bytes_hex b'\<close>] show ?case by simp
  qed
qed simp

end
