(* ===== verification/Http.thy ===== *)
theory Http
  imports Constants Encoding
begin

section \<open>Requests, replies and the uniform error body\<close>

text \<open>
  What the handlers read and write of Fastify's request and reply. Header names are in lower
  case, as Node delivers them; a header is absent, one string, or a list of strings (\<open>hval\<close>).
  \<open>reply.header\<close> replaces a value, \<open>reply.code\<close> sets the status, \<open>reply.send\<close> fixes the payload
  once (a second \<open>send\<close> is refused by Fastify and changes nothing). A log line written through
  \<open>req.log\<close> is appended to the request's log.

  \<open>send_unauthorized\<close> and \<open>send_misconfigured\<close> are \<open>utils/reply.util.ts\<close>, \<open>error_body_of\<close> is
  \<open>utils/error.util.ts\<close>.
\<close>

datatype hval = HStr string | HList "string list"

type_synonym headers = "string \<rightharpoonup> hval"

definition header_of :: "headers \<Rightarrow> header_key \<Rightarrow> hval option" where
  "header_of hs k = hs (header_name k)"

definition set_header :: "headers \<Rightarrow> header_key \<Rightarrow> hval \<Rightarrow> headers" where
  "set_header hs k v = hs(header_name k \<mapsto> v)"

definition del_header :: "headers \<Rightarrow> header_key \<Rightarrow> headers" where
  "del_header hs k = hs(header_name k := None)"

lemma header_of_set [simp]:
  "header_of (set_header hs k v) k' = (if k' = k then Some v else header_of hs k')"
  by (simp add: header_of_def set_header_def)

lemma header_of_del [simp]:
  "header_of (del_header hs k) k' = (if k' = k then None else header_of hs k')"
  by (simp add: header_of_def del_header_def)

lemma set_header_other [simp]:
  "n \<noteq> header_name k \<Longrightarrow> set_header hs k v n = hs n"
  by (simp add: set_header_def)

lemma del_header_other [simp]:
  "n \<noteq> header_name k \<Longrightarrow> del_header hs k n = hs n"
  by (simp add: del_header_def)

text \<open>\<open>typeof h === "string"\<close>, and \<open>String(h ?? "")\<close>.\<close>

fun string_header :: "hval option \<Rightarrow> string option" where
  "string_header (Some (HStr s)) = Some s"
| "string_header _ = None"

fun hval_text :: "hval \<Rightarrow> string" where
  "hval_text (HStr s) = s"
| "hval_text (HList ss) = join_with '','' ss"

definition header_text :: "hval option \<Rightarrow> string" where
  "header_text h = (case h of None \<Rightarrow> [] | Some v \<Rightarrow> hval_text v)"

text \<open>The truth value of a header: an empty string is false, every list is true.\<close>

fun header_truthy :: "hval option \<Rightarrow> bool" where
  "header_truthy None = False"
| "header_truthy (Some (HStr s)) = (s \<noteq> [])"
| "header_truthy (Some (HList _)) = True"

subsection \<open>Payloads\<close>

record error_body =
  eb_error :: string
  eb_request_id :: string

definition error_body_of :: "string \<Rightarrow> string \<Rightarrow> error_body" where
  "error_body_of request_id message = \<lparr>eb_error = message, eb_request_id = request_id\<rparr>"

text \<open>A readable stream: the chunks it will deliver, and whether it ends with an error.\<close>

datatype stream_chunk = BufferChunk bytes | StringChunk string

record stream =
  chunks :: "stream_chunk list"
  stream_fails :: bool

datatype payload = NoPayload | ErrorPayload error_body | StatusPayload string
  | TextPayload string | BufferPayload bytes | StreamPayload stream

subsection \<open>Logs\<close>

datatype log_level = LogInfo | LogWarn | LogError

text \<open>The fields of a structured line. An error object is written by pino's serializer, a value handed over by
  third-party code as it comes.\<close>

datatype log_value = LogText string | LogInt int | LogBool bool | LogUndefined | LogThrown | LogForeign
  | LogObject "(string \<times> log_value) list"

record log_line =
  line_level :: log_level
  line_fields :: "(string \<times> log_value) list"
  line_text :: string

record logger =
  bindings :: "(string \<times> string) list"
  log_lines :: "log_line list"

definition log_at :: "log_level \<Rightarrow> (string \<times> log_value) list \<Rightarrow> string \<Rightarrow> logger \<Rightarrow> logger" where
  "log_at lv fs msg lg =
     lg\<lparr>log_lines := log_lines lg @ [\<lparr>line_level = lv, line_fields = fs, line_text = msg\<rparr>]\<rparr>"

definition log_child :: "(string \<times> string) list \<Rightarrow> logger \<Rightarrow> logger" where
  "log_child bs lg = lg\<lparr>bindings := bindings lg @ bs\<rparr>"

subsection \<open>Requests and replies\<close>

record route_options =
  route_url :: "string option"
  route_shed :: "bool option"
  route_ip_filter :: "bool option"
  route_rate_limit :: "bool option"

record request =
  req_id :: string
  req_method :: string
  req_url :: string
  req_headers :: headers
  req_body :: string
  req_ip :: string
  remote_address :: "string option"
  req_hostname :: string
  req_protocol :: string
  req_route :: route_options
  correlation_id :: string
  trace_id :: string
  cache_key :: string
  req_log :: logger

record reply =
  status_code :: nat
  reply_headers :: headers
  sent :: "payload option"

definition reply_header :: "header_key \<Rightarrow> string \<Rightarrow> reply \<Rightarrow> reply" where
  "reply_header k v r = r\<lparr>reply_headers := set_header (reply_headers r) k (HStr v)\<rparr>"

definition reply_code :: "nat \<Rightarrow> reply \<Rightarrow> reply" where
  "reply_code n r = r\<lparr>status_code := n\<rparr>"

definition reply_send :: "payload \<Rightarrow> reply \<Rightarrow> reply" where
  "reply_send p r = (if sent r = None then r\<lparr>sent := Some p\<rparr> else r)"

definition fresh_reply :: reply where
  "fresh_reply = \<lparr>status_code = 200, reply_headers = Map.empty, sent = None\<rparr>"

definition req_header :: "request \<Rightarrow> header_key \<Rightarrow> hval option" where
  "req_header req k = header_of (req_headers req) k"

definition log_req :: "log_level \<Rightarrow> (string \<times> log_value) list \<Rightarrow> string \<Rightarrow> request \<Rightarrow> request" where
  "log_req lv fs msg req = req\<lparr>req_log := log_at lv fs msg (req_log req)\<rparr>"

lemma fresh_unsent [simp]: "sent fresh_reply = None"
  by (simp add: fresh_reply_def)

lemma reply_header_simps [simp]:
  "status_code (reply_header k v r) = status_code r"
  "sent (reply_header k v r) = sent r"
  "reply_headers (reply_header k v r) = set_header (reply_headers r) k (HStr v)"
  by (simp_all add: reply_header_def)

lemma reply_code_simps [simp]:
  "status_code (reply_code n r) = n"
  "sent (reply_code n r) = sent r"
  "reply_headers (reply_code n r) = reply_headers r"
  by (simp_all add: reply_code_def)

lemma reply_send_simps [simp]:
  "status_code (reply_send p r) = status_code r"
  "reply_headers (reply_send p r) = reply_headers r"
  "sent (reply_send p r) = (case sent r of None \<Rightarrow> Some p | Some q \<Rightarrow> Some q)"
  by (auto simp: reply_send_def split: option.split)

lemma log_req_simps [simp]:
  "req_id (log_req lv fs m q) = req_id q"
  "req_method (log_req lv fs m q) = req_method q"
  "req_url (log_req lv fs m q) = req_url q"
  "req_headers (log_req lv fs m q) = req_headers q"
  "req_ip (log_req lv fs m q) = req_ip q"
  "cache_key (log_req lv fs m q) = cache_key q"
  "req_route (log_req lv fs m q) = req_route q"
  "log_lines (req_log (log_req lv fs m q))
     = log_lines (req_log q) @ [\<lparr>line_level = lv, line_fields = fs, line_text = m\<rparr>]"
  by (simp_all add: log_req_def log_at_def)

subsection \<open>The uniform rejections\<close>

definition send_unauthorized :: "request \<Rightarrow> reply \<Rightarrow> reply" where
  "send_unauthorized req reply =
     reply_send (ErrorPayload (error_body_of (req_id req) (error_message MsgUnauthorized)))
       (reply_code (http_status StUnauthorized) reply)"

definition send_misconfigured :: "request \<Rightarrow> reply \<Rightarrow> string \<Rightarrow> request \<times> reply" where
  "send_misconfigured req reply detail =
     (let req = log_req LogError [] detail req
      in (req, reply_send
            (ErrorPayload (error_body_of (req_id req) (error_message MsgGatewayMisconfigured)))
            (reply_code (http_status StInternalServerError) reply)))"

text \<open>What every rejection of the gateway looks like to the client.\<close>

definition rejected_with :: "nat \<Rightarrow> string \<Rightarrow> request \<Rightarrow> reply \<Rightarrow> bool" where
  "rejected_with status msg req r \<longleftrightarrow>
     status_code r = status \<and> sent r = Some (ErrorPayload (error_body_of (req_id req) msg))"

lemma send_unauthorized_simps [simp]:
  "status_code (send_unauthorized req r) = 401"
  "reply_headers (send_unauthorized req r) = reply_headers r"
  by (simp_all add: send_unauthorized_def)

lemma send_unauthorized_sent [simp]:
  "sent (send_unauthorized req r)
     = (case sent r of None \<Rightarrow> Some (ErrorPayload (error_body_of (req_id req) ''Unauthorized''))
        | Some q \<Rightarrow> Some q)"
  by (simp add: send_unauthorized_def)

lemma send_unauthorized_rejects:
  "sent r = None \<Longrightarrow> rejected_with 401 ''Unauthorized'' req (send_unauthorized req r)"
  by (simp add: rejected_with_def)

lemma send_misconfigured_rejects:
  "sent r = None \<Longrightarrow> send_misconfigured req r d = (req', r') \<Longrightarrow>
    rejected_with 500 ''Gateway misconfigured'' req r' \<and> req' = log_req LogError [] d req"
  by (auto simp: send_misconfigured_def rejected_with_def)

subsection \<open>A request for concrete examples\<close>

definition sample_request :: "string \<Rightarrow> (header_key \<times> string) list \<Rightarrow> request" where
  "sample_request method hs =
     \<lparr>req_id = ''req-1'', req_method = method, req_url = ''/api/public/items'',
      req_headers = foldr (\<lambda>(k, v) m. set_header m k (HStr v)) hs Map.empty,
      req_body = [], req_ip = ''203.0.113.9'', remote_address = Some ''10.0.0.2'',
      req_hostname = ''gateway.example'', req_protocol = ''https'',
      req_route = \<lparr>route_url = Some ''/api/public/*'', route_shed = None, route_ip_filter = None,
        route_rate_limit = None\<rparr>,
      correlation_id = [], trace_id = [], cache_key = [],
      req_log = \<lparr>bindings = [], log_lines = []\<rparr>\<rparr>"

lemma sample_request_header [simp]:
  "req_header (sample_request m hs) k
     = header_of (foldr (\<lambda>(k, v) m. set_header m k (HStr v)) hs Map.empty) k"
  by (simp add: req_header_def sample_request_def)

lemma header_of_empty [simp]: "header_of Map.empty k = None"
  by (simp add: header_of_def)

end
