(* ===== verification/Credentials.thy ===== *)
theory Credentials
  imports Http
begin

section \<open>Credentials: secrets, Basic users, Basic and Bearer headers\<close>

text \<open>
  \<open>utils/crypto.util.ts\<close>, \<open>utils/basic-auth.util.ts\<close> and \<open>utils/bearer.util.ts\<close>. The hash of
  \<open>node:crypto\<close> is the parameter \<open>sha256\<close> of the definitions that hash; where a theorem needs
  that two secrets do not collide, it says so of those two secrets (\<open>no_collision\<close>). Every
  digest of SHA-256 has the same length, so \<open>timingSafeEqual\<close> never throws here and is equality.
\<close>

subsection \<open>\<open>safeEqual\<close>\<close>

type_synonym hash = "bytes \<Rightarrow> bytes"

definition digest :: "hash \<Rightarrow> codes \<Rightarrow> bytes" where
  "digest sha256 v = sha256 (utf8_encode v)"

definition timing_safe_equal :: "bytes \<Rightarrow> bytes \<Rightarrow> bool" where
  "timing_safe_equal a b \<longleftrightarrow> a = b"

definition safe_equal :: "hash \<Rightarrow> codes \<Rightarrow> codes \<Rightarrow> bool" where
  "safe_equal sha256 a b \<longleftrightarrow> timing_safe_equal (digest sha256 a) (digest sha256 b)"

definition no_collision :: "hash \<Rightarrow> codes \<Rightarrow> codes \<Rightarrow> bool" where
  "no_collision sha256 a b \<longleftrightarrow>
     (sha256 (utf8_encode a) = sha256 (utf8_encode b) \<longrightarrow> utf8_encode a = utf8_encode b)"

lemma safe_equal_refl [simp]: "safe_equal sha256 a a"
  by (simp add: safe_equal_def timing_safe_equal_def)

lemma safe_equal_sym: "safe_equal sha256 a b = safe_equal sha256 b a"
  by (auto simp: safe_equal_def timing_safe_equal_def)

lemma safe_equal_iff:
  assumes "no_collision sha256 a b" and "list_all scalar a" and "list_all scalar b"
  shows "safe_equal sha256 a b \<longleftrightarrow> a = b"
  using assms utf8_encode_inj [of a b]
  by (auto simp: safe_equal_def timing_safe_equal_def digest_def no_collision_def)

subsection \<open>\<open>parseUserList\<close>\<close>

type_synonym user_map = "(codes, codes) js_map"

definition malformed_entry_message :: string where
  "malformed_entry_message =
     ''Invalid BASIC_AUTH_USERS entry: expected \"username:password\" with non-empty parts''"

definition duplicate_user_message :: "string \<Rightarrow> string" where
  "duplicate_user_message u = ''Duplicate username in BASIC_AUTH_USERS: \"'' @ u @ ''\"''"

fun parse_user_entries :: "string list \<Rightarrow> user_map \<Rightarrow> user_map result" where
  "parse_user_entries [] users = Inr users"
| "parse_user_entries (entry # entries) users =
     (let trimmed = js_trim entry in
      if trimmed = [] then parse_user_entries entries users
      else case index_of (CHR '':'') trimmed of
        None \<Rightarrow> Inl (Error malformed_entry_message)
      | Some separator \<Rightarrow>
          if separator = 0 \<or> separator = length trimmed - 1
          then Inl (Error malformed_entry_message)
          else let username = take separator trimmed in
            if jm_has users (js_codes username)
            then Inl (Error (duplicate_user_message username))
            else parse_user_entries entries
              (jm_set users (js_codes username) (js_codes (drop (Suc separator) trimmed))))"

definition parse_user_list :: "string \<Rightarrow> user_map result" where
  "parse_user_list raw = parse_user_entries (split_on (CHR '','') raw) jm_empty"

subsection \<open>\<open>parseBasicAuthHeader\<close>, \<open>encodeBasicAuth\<close>, \<open>parseBearerToken\<close>\<close>

record basic_credentials =
  cred_username :: codes
  cred_password :: codes

definition parse_basic_auth_header :: "string option \<Rightarrow> basic_credentials option" where
  "parse_basic_auth_header header =
     (case header of None \<Rightarrow> None
      | Some h \<Rightarrow>
        if h = [] then None
        else case match_scheme ''basic'' (js_trim h) of None \<Rightarrow> None
        | Some token \<Rightarrow>
          (let decoded = utf8_decode (base64_decode token) in
           case index_of (of_char (CHR '':'')) decoded of None \<Rightarrow> None
           | Some separator \<Rightarrow>
               Some \<lparr>cred_username = take separator decoded,
                     cred_password = drop (Suc separator) decoded\<rparr>))"

definition encode_basic_auth :: "string \<Rightarrow> string" where
  "encode_basic_auth credentials = ''Basic '' @ base64_encode (utf8_encode (js_codes credentials))"

definition parse_bearer_token :: "string option \<Rightarrow> string option" where
  "parse_bearer_token header =
     (case header of None \<Rightarrow> None
      | Some h \<Rightarrow> if h = [] then None else match_scheme ''bearer'' (js_trim h))"

subsection \<open>What the user list accepts\<close>

text \<open>A user and password that the list can carry, and its printed form.\<close>

definition listable :: "string \<times> string \<Rightarrow> bool" where
  "listable up \<longleftrightarrow> (case up of (u, p) \<Rightarrow>
     u \<noteq> [] \<and> p \<noteq> [] \<and> CHR '':'' \<notin> set u \<and> CHR '','' \<notin> set u \<and> CHR '','' \<notin> set p
     \<and> \<not> is_ws (hd u) \<and> \<not> is_ws (last p))"

definition print_user :: "string \<times> string \<Rightarrow> string" where
  "print_user up = fst up @ CHR '':'' # snd up"

definition print_user_list :: "(string \<times> string) list \<Rightarrow> string" where
  "print_user_list ups = join_with '','' (map print_user ups)"

definition coded :: "(string \<times> string) list \<Rightarrow> user_map" where
  "coded ups = map (\<lambda>(u, p). (js_codes u, js_codes p)) ups"

text \<open>The entry \<open>u:p\<close>, whatever white space is around it, adds the user.\<close>

lemma listable_trim: "listable up \<Longrightarrow> js_trim (print_user up) = print_user up"
  by (rule js_trim_id) (auto simp: listable_def print_user_def trimmed_def split: prod.splits)

lemma parse_listable_entry:
  assumes "listable (u, p)" and "js_codes u \<notin> set (jm_keys users)"
  shows "parse_user_entries (print_user (u, p) # es) users
    = parse_user_entries es (users @ [(js_codes u, js_codes p)])"
proof -
  from assms have i: "index_of (CHR '':'') (print_user (u, p)) = Some (length u)"
    by (simp add: print_user_def listable_def index_of_append)
  from assms(2) have set: "jm_set users k v = users @ [(k, v)]" if "k = js_codes u" for k v
    using that by (induction users k v rule: jm_set.induct) (auto simp: jm_keys_def)
  from assms(1) have "u \<noteq> []" and "p \<noteq> []" by (auto simp: listable_def)
  moreover from assms(2) have "\<not> jm_has users (js_codes u)"
    by (simp add: jm_has_def jm_get_None_iff)
  ultimately show ?thesis
    using listable_trim [OF assms(1)] i set
    by (simp add: Let_def) (simp add: print_user_def)
qed

lemma parse_listable_entries:
  assumes "list_all listable ups" and "distinct (map fst ups)"
    and "set (map (js_codes \<circ> fst) ups) \<inter> set (jm_keys users) = {}"
  shows "parse_user_entries (map print_user ups) users = Inr (users @ coded ups)"
  using assms
proof (induction ups arbitrary: users)
  case Nil
  then show ?case by (simp add: coded_def)
next
  case (Cons up ups)
  obtain u p where up: "up = (u, p)" by (cases up)
  let ?users = "users @ [(js_codes u, js_codes p)]"
  from Cons.prems up have "listable (u, p)" and "js_codes u \<notin> set (jm_keys users)"
    by auto
  then have "parse_user_entries (map print_user (up # ups)) users
      = parse_user_entries (map print_user ups) ?users"
    using up by (simp add: parse_listable_entry del: parse_user_entries.simps)
  also have "\<dots> = Inr (?users @ coded ups)"
    using Cons.prems up by (intro Cons.IH) (force simp: jm_keys_def)+
  finally show ?case using up by (simp add: coded_def)
qed

lemma print_user_no_comma: "listable up \<Longrightarrow> CHR '','' \<notin> set (print_user up)"
  by (auto simp: listable_def print_user_def split: prod.splits)

lemma split_join_with:
  assumes "\<forall>x \<in> set xs. c \<notin> set x" and "xs \<noteq> []"
  shows "split_on c (join_with [c] xs) = xs"
  using assms
proof (induction xs rule: induct_list012)
  case (3 x y ys)
  then show ?case by (simp add: split_on_append)
qed (auto simp: split_on_no_sep)

text \<open>
  Every map the list parser returns is well formed: distinct users, none empty, no colon in a
  user, no empty password.
\<close>

definition valid_users :: "user_map \<Rightarrow> bool" where
  "valid_users m \<longleftrightarrow> jm_wf m \<and>
     (\<forall>(u, p) \<in> set m. u \<noteq> [] \<and> p \<noteq> [] \<and> of_char (CHR '':'') \<notin> set u
        \<and> list_all scalar u \<and> list_all scalar p)"

lemma set_jm_set: "set (jm_set m k v) \<subseteq> insert (k, v) (set m)"
  by (induction m k v rule: jm_set.induct) auto

lemma valid_users_set:
  assumes "valid_users m" and "k \<noteq> []" and "v \<noteq> []" and "58 \<notin> set k"
    and "list_all scalar k" and "list_all scalar v"
  shows "valid_users (jm_set m k v)"
  using assms set_jm_set [of m k v] by (fastforce simp: valid_users_def jm_wf_set)

lemma parse_user_entries_valid:
  "parse_user_entries es users = Inr m \<Longrightarrow> valid_users users \<Longrightarrow> valid_users m"
proof (induction es users rule: parse_user_entries.induct)
  case (1 users)
  then show ?case by simp
next
  case (2 e es users)
  let ?t = "js_trim e"
  show ?case
  proof (cases "?t = []")
    case True
    with 2 show ?thesis by simp
  next
    case False
    with 2(3) obtain i where i: "index_of (CHR '':'') ?t = Some i"
      and h: "i \<noteq> 0" "i \<noteq> length ?t - 1" "\<not> jm_has users (js_codes (take i ?t))"
      and rec: "parse_user_entries es
        (jm_set users (js_codes (take i ?t)) (js_codes (drop (Suc i) ?t))) = Inr m"
      by (auto simp: Let_def split: option.splits if_splits)
    from index_of_less [OF i] index_of_Some [OF i] h
    have parts: "take i ?t \<noteq> []" "drop (Suc i) ?t \<noteq> []" "CHR '':'' \<notin> set (take i ?t)"
      using False by auto
    with "2.prems"(2)
    have "valid_users (jm_set users (js_codes (take i ?t)) (js_codes (drop (Suc i) ?t)))"
      by (intro valid_users_set)
        (simp_all add: js_codes_scalar del: take_eq_Nil drop_eq_Nil)
    from "2.IH"(2) [OF refl False i _ refl _ rec this] h show ?thesis by simp
  qed
qed


subsection \<open>Properties\<close>

lemma match_scheme_trimmed:
  assumes "map js_lower p = scheme" and "p \<noteq> []" and "\<not> is_ws (hd p)"
    and "token \<noteq> []" and "list_all (\<lambda>c. \<not> is_ws c) token"
  shows "match_scheme scheme (js_trim (p @ CHR '' '' # token)) = Some token"
proof -
  from assms have "trimmed (p @ CHR '' '' # token)"
    by (auto simp: trimmed_def list_all_iff)
  then show ?thesis
    using match_scheme_intro [OF assms(1,4,5)] by (simp add: js_trim_id)
qed

lemma scheme_names:
  "map js_lower ''Basic'' = ''basic''" "map js_lower ''Bearer'' = ''bearer''"
  "\<not> is_ws (hd ''Basic'')" "\<not> is_ws (hd ''Bearer'')"
  by code_simp+

lemma parse_encode_basic_auth:
  assumes "CHR '':'' \<notin> set u"
  shows "parse_basic_auth_header (Some (encode_basic_auth (u @ CHR '':'' # p)))
    = Some \<lparr>cred_username = js_codes u, cred_password = js_codes p\<rparr>"
proof -
  let ?bytes = "utf8_encode (js_codes (u @ CHR '':'' # p))"
  have decoded: "utf8_decode (base64_decode (base64_encode ?bytes)) = js_codes (u @ CHR '':'' # p)"
    by (simp add: base64_round_trip utf8_round_trip js_codes_scalar del: js_codes_simps)
  have "?bytes \<noteq> []"
  proof
    assume "?bytes = []"
    with decoded show False by (simp add: base64_decode_def utf8_decode_def)
  qed
  then have "match_scheme ''basic'' (js_trim (''Basic'' @ CHR '' '' # base64_encode ?bytes))
      = Some (base64_encode ?bytes)"
    by (intro match_scheme_trimmed)
      (simp_all only: scheme_names base64_encode_no_ws base64_encode_Nil not_False_eq_True,
        simp_all)
  then have "match_scheme ''basic'' (js_trim (encode_basic_auth (u @ CHR '':'' # p)))
      = Some (base64_encode ?bytes)"
    by (simp add: encode_basic_auth_def)
  moreover have "encode_basic_auth (u @ CHR '':'' # p) \<noteq> []"
    by (simp add: encode_basic_auth_def)
  moreover have "index_of (of_char (CHR '':'')) (js_codes (u @ CHR '':'' # p))
      = Some (length (js_codes u))"
    using assms index_of_append [of "of_char (CHR '':'')" "js_codes u" "js_codes p"] by simp
  ultimately show ?thesis
    using decoded by (simp add: parse_basic_auth_header_def Let_def del: js_codes_simps)
      (simp add: js_codes_def)
qed

text \<open>Round trip of Basic credentials: what \<open>encodeBasicAuth\<close> sends, \<open>parseBasicAuthHeader\<close>
  reads back as the same user and password, for every user without a colon and every password
  (colons, spaces and Latin-1 letters included).\<close>
theorem basic_auth_round_trip:
  assumes "CHR '':'' \<notin> set u"
  shows "parse_basic_auth_header (Some (encode_basic_auth (u @ CHR '':'' # p)))
    = Some \<lparr>cred_username = js_codes u, cred_password = js_codes p\<rparr>"
  using assms by (rule parse_encode_basic_auth)

theorem basic_auth_round_trip_witness:
  "parse_basic_auth_header (Some (encode_basic_auth ''svc:se:cret''))
    = Some \<lparr>cred_username = js_codes ''svc'', cred_password = js_codes ''se:cret''\<rparr>"
  using basic_auth_round_trip [of "''svc''" "''se:cret''"] by simp

lemma parse_print_user_list:
  assumes "list_all listable ups" and "distinct (map fst ups)"
  shows "parse_user_list (print_user_list ups) = Inr (coded ups)"
proof (cases "ups = []")
  case True
  then show ?thesis
    by (simp add: parse_user_list_def print_user_list_def coded_def jm_empty_def)
next
  case False
  with assms have "split_on (CHR '','') (print_user_list ups) = map print_user ups"
    unfolding print_user_list_def
    by (intro split_join_with) (auto simp: print_user_no_comma list_all_iff)
  with parse_listable_entries [OF assms, of jm_empty] show ?thesis
    by (simp add: parse_user_list_def jm_empty_def jm_keys_def)
qed

text \<open>Round trip of \<open>BASIC_AUTH_USERS\<close>: the comma-separated list of distinct users and their
  passwords parses to exactly those users, in order; passwords may hold colons.\<close>
theorem user_list_round_trip:
  assumes "list_all listable ups" and "distinct (map fst ups)"
  shows "parse_user_list (print_user_list ups) = Inr (coded ups)"
  using assms by (rule parse_print_user_list)

theorem user_list_round_trip_witness:
  "parse_user_list ''alice:pw:1,bob:p w'' = Inr (coded [(''alice'', ''pw:1''), (''bob'', ''p w'')])"
proof -
  have "print_user_list [(''alice'', ''pw:1''), (''bob'', ''p w'')] = ''alice:pw:1,bob:p w''"
    by (simp add: print_user_list_def print_user_def)
  with user_list_round_trip [of "[(''alice'', ''pw:1''), (''bob'', ''p w'')]"] show ?thesis
    by (simp add: listable_def is_ws_def)
qed

subsection \<open>When the list is accepted\<close>

definition list_entries :: "string \<Rightarrow> string list" where
  "list_entries raw = filter (\<lambda>e. e \<noteq> []) (map js_trim (split_on (CHR '','') raw))"

definition entry_user :: "string \<Rightarrow> string" where
  "entry_user e = takeWhile (\<lambda>c. c \<noteq> CHR '':'') e"

definition entry_ok :: "string \<Rightarrow> bool" where
  \<comment> \<open>a non-empty user, a colon, a non-empty password\<close>
  "entry_ok e \<longleftrightarrow> entry_user e \<noteq> [] \<and> Suc (length (entry_user e)) < length e"

lemma index_of_takeWhile:
  "index_of c xs = (if c \<in> set xs then Some (length (takeWhile (\<lambda>x. x \<noteq> c) xs)) else None)"
  by (induction xs) auto

lemma take_length_takeWhile: "take (length (takeWhile P xs)) xs = takeWhile P xs"
  by (induction xs) auto

lemma takeWhile_all: "c \<notin> set xs \<Longrightarrow> takeWhile (\<lambda>x. x \<noteq> c) xs = xs"
  by (induction xs) auto

lemma length_takeWhile_less: "c \<in> set xs \<Longrightarrow> length (takeWhile (\<lambda>x. x \<noteq> c) xs) < length xs"
  by (induction xs) auto

lemma parse_user_entries_step:
  assumes "js_trim e \<noteq> []"
  shows "(\<exists>m. parse_user_entries (e # es) users = Inr m) \<longleftrightarrow>
    entry_ok (js_trim e) \<and> js_codes (entry_user (js_trim e)) \<notin> set (jm_keys users) \<and>
    (\<exists>m. parse_user_entries es (jm_set users (js_codes (entry_user (js_trim e)))
        (js_codes (drop (Suc (length (entry_user (js_trim e)))) (js_trim e)))) = Inr m)"
proof (cases "CHR '':'' \<in> set (js_trim e)")
  case False
  then show ?thesis
    using assms by (simp add: Let_def index_of_takeWhile entry_ok_def entry_user_def takeWhile_all)
next
  case True
  from length_takeWhile_less [OF this]
  have "\<not> (Suc (length (entry_user (js_trim e))) < length (js_trim e))
      \<longleftrightarrow> length (entry_user (js_trim e)) = length (js_trim e) - 1"
    by (auto simp: entry_user_def)
  with True assms show ?thesis
    by (auto simp: Let_def index_of_takeWhile entry_ok_def entry_user_def [symmetric]
        take_length_takeWhile [of "\<lambda>x. x \<noteq> CHR '':''", folded entry_user_def]
        jm_has_def jm_get_None_iff)
qed

lemma parse_user_entries_accepts:
  "(\<exists>m. parse_user_entries es users = Inr m) \<longleftrightarrow>
    (let fs = filter (\<lambda>e. e \<noteq> []) (map js_trim es) in
      list_all entry_ok fs \<and> distinct (map entry_user fs)
      \<and> set (map (js_codes \<circ> entry_user) fs) \<inter> set (jm_keys users) = {})"
proof (induction es arbitrary: users)
  case Nil
  then show ?case by simp
next
  case (Cons e es)
  show ?case
  proof (cases "js_trim e = []")
    case True
    with Cons show ?thesis by simp
  next
    case False
    show ?thesis
      unfolding parse_user_entries_step [OF False] Cons.IH
      using False by (auto simp: Let_def jm_keys_set)
  qed
qed

text \<open>\<open>parseUserList\<close> accepts a list exactly when every non-blank entry has a non-empty user
  and a non-empty password around its first colon and no user appears twice; every other list
  throws, so malformed configuration stops the boot.\<close>
theorem user_list_accepted_iff:
  "(\<exists>m. parse_user_list raw = Inr m) \<longleftrightarrow>
    list_all entry_ok (list_entries raw) \<and> distinct (map entry_user (list_entries raw))"
  unfolding parse_user_list_def parse_user_entries_accepts
  by (simp add: list_entries_def Let_def jm_keys_def jm_empty_def)

lemma user_list_valid: "parse_user_list raw = Inr m \<Longrightarrow> valid_users m"
  unfolding parse_user_list_def
  by (erule parse_user_entries_valid) (simp add: valid_users_def jm_wf_empty, simp add: jm_empty_def)

lemma bearer_round_trip:
  assumes "token \<noteq> []" and "list_all (\<lambda>c. \<not> is_ws c) token"
  shows "parse_bearer_token (Some (''Bearer '' @ token)) = Some token"
proof -
  have "match_scheme ''bearer'' (js_trim (''Bearer'' @ CHR '' '' # token)) = Some token"
    using assms by (intro match_scheme_trimmed) (simp_all only: scheme_names, simp_all)
  then show ?thesis by (simp add: parse_bearer_token_def)
qed

lemma bearer_token_shape:
  "parse_bearer_token h = Some token \<Longrightarrow> token \<noteq> [] \<and> list_all (\<lambda>c. \<not> is_ws c) token"
  by (auto simp: parse_bearer_token_def split: option.splits if_splits dest: match_scheme_Some)

end
