(* ===== verification/JsNumber.thy ===== *)
theory JsNumber
  imports JsText
begin

section \<open>\<open>Number(text)\<close>\<close>

text \<open>
  The conversion of a string to a number, as the environment readers and the CIDR parser use it:
  white space around the text is ignored, the empty text is 0, \<open>0x\<close>, \<open>0o\<close> and \<open>0b\<close> literals
  have no sign, decimal literals may have a sign, a fraction and an exponent, and anything else is
  \<open>NaN\<close>. A finite value is the exact decimal \<open>m * 10 ^ e\<close>; beyond the largest double it is
  \<open>Infinity\<close>. Rounding to the nearest double is not modelled: it is the identity on integers
  below \<open>2 ^ 53\<close> and on what the comparisons here can tell apart.
\<close>

datatype js_number = NaN | Infinite bool | Decimal int int

definition max_double_bound :: int where
  \<comment> \<open>from here on, rounding to the nearest double gives infinity\<close>
  "max_double_bound = 2 ^ 1024 - 2 ^ 970"

text \<open>Comparisons of \<open>m * 10 ^ e\<close> with an integer.\<close>

definition decimal_less :: "int \<Rightarrow> int \<Rightarrow> int \<Rightarrow> bool" where
  "decimal_less m e k \<longleftrightarrow> (if 0 \<le> e then m * 10 ^ nat e < k else m < k * 10 ^ nat (- e))"

definition decimal_integer :: "int \<Rightarrow> int \<Rightarrow> bool" where
  "decimal_integer m e \<longleftrightarrow> 0 \<le> e \<or> 10 ^ nat (- e) dvd m"

definition decimal_int :: "int \<Rightarrow> int \<Rightarrow> int" where
  "decimal_int m e = (if 0 \<le> e then m * 10 ^ nat e else m div 10 ^ nat (- e))"

definition finite_or_infinite :: "int \<Rightarrow> int \<Rightarrow> js_number" where
  "finite_or_infinite m e =
     (if decimal_less \<bar>m\<bar> e max_double_bound then Decimal m e else Infinite (m < 0))"

fun is_finite :: "js_number \<Rightarrow> bool" where
  "is_finite (Decimal m e) = True"
| "is_finite _ = False"

fun is_integer :: "js_number \<Rightarrow> bool" where
  "is_integer (Decimal m e) = decimal_integer m e"
| "is_integer _ = False"

fun number_less :: "js_number \<Rightarrow> int \<Rightarrow> bool" where
  \<comment> \<open>\<open>value < k\<close>, false on \<open>NaN\<close>\<close>
  "number_less NaN k = False"
| "number_less (Infinite neg) k = neg"
| "number_less (Decimal m e) k = decimal_less m e k"

fun number_greater :: "js_number \<Rightarrow> int \<Rightarrow> bool" where
  "number_greater NaN k = False"
| "number_greater (Infinite neg) k = (\<not> neg)"
| "number_greater (Decimal m e) k = decimal_less (- m) e (- k)"

subsection \<open>The grammar\<close>

definition radix_digit :: "char \<Rightarrow> nat" where
  "radix_digit c =
     (if is_digit c then cc c - 48
      else if 97 \<le> cc c \<and> cc c \<le> 102 then cc c - 87
      else if 65 \<le> cc c \<and> cc c \<le> 70 then cc c - 55 else 99)"

fun radix_value :: "nat \<Rightarrow> nat \<Rightarrow> string \<Rightarrow> nat option" where
  "radix_value r a [] = Some a"
| "radix_value r a (c # cs) =
     (if radix_digit c < r then radix_value r (r * a + radix_digit c) cs else None)"

definition radix_literal :: "nat \<Rightarrow> string \<Rightarrow> js_number" where
  "radix_literal r ds =
     (if ds = [] then NaN
      else case radix_value r 0 ds of None \<Rightarrow> NaN | Some n \<Rightarrow> finite_or_infinite (int n) 0)"

text \<open>An optional sign and digits, to the end.\<close>

definition exponent_value :: "string \<Rightarrow> int option" where
  "exponent_value s =
     (let (neg, ds) = (case s of [] \<Rightarrow> (False, [])
            | c # r \<Rightarrow> if c = CHR ''-'' then (True, r) else if c = CHR ''+'' then (False, r)
                else (False, s))
      in if ds \<noteq> [] \<and> list_all is_digit ds
         then Some (if neg then - int (nat_of_digits ds) else int (nat_of_digits ds)) else None)"

text \<open>An unsigned decimal literal.\<close>

definition unsigned_decimal :: "string \<Rightarrow> (int \<times> int) option" where
  "unsigned_decimal s =
     (let ip = takeWhile is_digit s; r1 = dropWhile is_digit s;
          (fp, r2) = (case r1 of [] \<Rightarrow> ([], [])
            | c # r \<Rightarrow> if c = CHR ''.'' then (takeWhile is_digit r, dropWhile is_digit r)
                else ([], r1));
          m = int (nat_of_digits (ip @ fp))
      in if ip = [] \<and> fp = [] then None
         else (case r2 of [] \<Rightarrow> Some (m, - int (length fp))
           | c # r \<Rightarrow> if c = CHR ''e'' \<or> c = CHR ''E''
               then map_option (\<lambda>x. (m, x - int (length fp))) (exponent_value r)
               else None))"

definition decimal_literal :: "string \<Rightarrow> js_number" where
  "decimal_literal s =
     (let (neg, body) = (case s of [] \<Rightarrow> (False, [])
            | c # r \<Rightarrow> if c = CHR ''-'' then (True, r) else if c = CHR ''+'' then (False, r)
                else (False, s))
      in if body = ''Infinity'' then Infinite neg
         else case unsigned_decimal body of None \<Rightarrow> NaN
           | Some (m, e) \<Rightarrow> finite_or_infinite (if neg then - m else m) e)"

definition js_number_of :: "string \<Rightarrow> js_number" where
  "js_number_of text =
     (let s = js_trim text; p = take 2 s; ds = drop 2 s
      in if s = [] then Decimal 0 0
         else if p = ''0x'' \<or> p = ''0X'' then radix_literal 16 ds
         else if p = ''0o'' \<or> p = ''0O'' then radix_literal 8 ds
         else if p = ''0b'' \<or> p = ''0B'' then radix_literal 2 ds
         else decimal_literal s)"

text \<open>Sample conversions.\<close>

lemma number_examples:
  "js_number_of ''  42 '' = Decimal 42 0"
  "js_number_of '''' = Decimal 0 0"
  "js_number_of ''-1.5e3'' = Decimal (- 15) 2"
  "js_number_of ''0x1F'' = Decimal 31 0"
  "js_number_of ''12px'' = NaN"
  "js_number_of ''-Infinity'' = Infinite True"
  by code_simp+

lemma nat_below_bound:
  assumes "n < 10 ^ 300" shows "finite_or_infinite (int n) 0 = Decimal (int n) 0"
proof -
  have "(10 :: int) ^ 300 \<le> max_double_bound" unfolding max_double_bound_def by simp
  moreover have "int n < 10 ^ 300" using assms by (metis of_nat_less_iff of_nat_numeral of_nat_power)
  ultimately show ?thesis by (simp add: finite_or_infinite_def decimal_less_def)
qed

lemma digits_number:
  assumes "ds \<noteq> []" and "list_all is_digit ds" and "nat_of_digits ds < 10 ^ 300"
  shows "js_number_of ds = Decimal (int (nat_of_digits ds)) 0"
proof -
  obtain c cs where ds: "ds = c # cs" using assms(1) by (cases ds) auto
  from assms(2) have no_ws: "list_all (\<lambda>c. \<not> is_ws c) ds"
    by (auto simp: list_all_iff is_digit_def is_ws_def)
  have take: "takeWhile is_digit ds = ds" and drop: "dropWhile is_digit ds = []"
    using assms(2) by (auto simp: list_all_iff takeWhile_eq_all_conv)
  have digits: "x \<in> set ds \<Longrightarrow> is_digit x" for x using assms(2) by (auto simp: list_all_iff)
  have pre: "take 2 ds \<noteq> [a, b]" if "\<not> is_digit b" for a b
  proof
    assume "take 2 ds = [a, b]"
    then have "b \<in> set ds" by (metis in_set_takeD list.set_intros(1) list.set_intros(2))
    with digits that show False by blast
  qed
  have nd: "\<not> is_digit (CHR ''x'')" "\<not> is_digit (CHR ''X'')" "\<not> is_digit (CHR ''o'')"
    "\<not> is_digit (CHR ''O'')" "\<not> is_digit (CHR ''b'')" "\<not> is_digit (CHR ''B'')"
    "\<not> is_digit (CHR ''-'')" "\<not> is_digit (CHR ''+'')" "\<not> is_digit (CHR ''I'')"
    by (simp_all add: is_digit_def)
  from digits [of c] ds nd have c: "c \<noteq> CHR ''-''" "c \<noteq> CHR ''+''" "c \<noteq> CHR ''I''" by auto
  have "unsigned_decimal ds = Some (int (nat_of_digits ds), 0)"
    unfolding unsigned_decimal_def take drop Let_def using assms(1) by simp
  with c ds nat_below_bound [OF assms(3)]
  have "decimal_literal ds = Decimal (int (nat_of_digits ds)) 0"
    by (simp add: decimal_literal_def)
  then show ?thesis
    using js_trim_id [OF trimmed_no_ws [OF no_ws]] assms(1) pre [OF nd(1)] pre [OF nd(2)]
      pre [OF nd(3)] pre [OF nd(4)] pre [OF nd(5)] pre [OF nd(6)]
    by (simp add: js_number_of_def Let_def)
qed

end
