(* ===== verification/Config.thy ===== *)
theory Config
  imports JsNumber Constants Prelude
begin

section \<open>Configuration\<close>

text \<open>
  The readers of raw environment variables (\<open>config/env.ts\<close>), the schema that \<open>@fastify/env\<close>
  validates and coerces the environment with (\<open>config/schema.ts\<close>) as data, and the typed
  configuration derived from it (\<open>types/gateway-config.type.ts\<close>). The environment is a partial
  map from names to texts. \<open>@fastify/env\<close> itself is not modelled: what the code relies on is that
  the values it hands over conform to the schema (\<open>conforms\<close>). Numeric settings are whole numbers
  here, except the event-loop utilization, a decimal.
\<close>

type_synonym environment = "string \<rightharpoonup> string"

subsection \<open>Readers of raw variables\<close>

definition show_int :: "int \<Rightarrow> string" where
  "show_int i = (if i < 0 then CHR ''-'' # show_nat (nat (- i)) else show_nat (nat i))"

definition invalid_message :: "string \<Rightarrow> string \<Rightarrow> string \<Rightarrow> string" where
  "invalid_message name expected raw =
     ''Invalid '' @ name @ '': expected '' @ expected @ '', got \"'' @ raw @ ''\"''"

definition env_number :: "environment \<Rightarrow> string \<Rightarrow> int \<Rightarrow> int \<Rightarrow> js_number result" where
  "env_number env name fallback min_value =
     (case env name of
        None \<Rightarrow> Inr (Decimal fallback 0)
      | Some raw \<Rightarrow>
          if raw = [] then Inr (Decimal fallback 0)
          else let value = js_number_of raw in
            if \<not> is_finite value \<or> number_less value min_value
            then Inl (Error (invalid_message name (''a number >= '' @ show_int min_value) raw))
            else Inr value)"

definition comma_list :: "string list \<Rightarrow> string" where
  "comma_list xs = join_with '', '' xs"

definition env_enum :: "environment \<Rightarrow> string \<Rightarrow> string list \<Rightarrow> string \<Rightarrow> string result" where
  "env_enum env name allowed fallback =
     (case env name of
        None \<Rightarrow> Inr fallback
      | Some raw \<Rightarrow>
          if raw = [] then Inr fallback
          else if raw \<in> set allowed then Inr raw
          else Inl (Error (invalid_message name (''one of '' @ comma_list allowed) raw)))"

definition env_boolean :: "environment \<Rightarrow> string \<Rightarrow> bool \<Rightarrow> bool result" where
  "env_boolean env name fallback =
     (case env name of
        None \<Rightarrow> Inr fallback
      | Some raw \<Rightarrow>
          if raw = [] then Inr fallback
          else if raw = ''true'' then Inr True
          else if raw = ''false'' then Inr False
          else Inl (Error (invalid_message name ''\"true\" or \"false\"'' raw)))"

subsection \<open>The schema\<close>

datatype config_value = NumberValue int int | TextValue string | BoolValue bool

datatype value_constraint = AnyNumber | AnyText | AnyBool | OneOf "string list" | HttpUrl

record schema_property =
  prop_name :: string
  prop_type :: value_constraint
  prop_default :: config_value

definition text_prop :: "string \<Rightarrow> string \<Rightarrow> schema_property" where
  "text_prop name v = \<lparr>prop_name = name, prop_type = AnyText, prop_default = TextValue v\<rparr>"

definition number_prop :: "string \<Rightarrow> int \<Rightarrow> schema_property" where
  "number_prop name v = \<lparr>prop_name = name, prop_type = AnyNumber, prop_default = NumberValue v 0\<rparr>"

definition bool_prop :: "string \<Rightarrow> bool \<Rightarrow> schema_property" where
  "bool_prop name v = \<lparr>prop_name = name, prop_type = AnyBool, prop_default = BoolValue v\<rparr>"

definition url_prop :: "string \<Rightarrow> string \<Rightarrow> schema_property" where
  "url_prop name v = \<lparr>prop_name = name, prop_type = HttpUrl, prop_default = TextValue v\<rparr>"

definition enum_prop :: "string \<Rightarrow> string list \<Rightarrow> string \<Rightarrow> schema_property" where
  "enum_prop name vs v = \<lparr>prop_name = name, prop_type = OneOf vs, prop_default = TextValue v\<rparr>"

definition config_schema :: "schema_property list" where
  "config_schema =
    [number_prop ''PORT'' 8080,
     text_prop ''HOST'' ''0.0.0.0'',
     text_prop ''CORS_ORIGINS'' ''*'',
     bool_prop ''CORS_ALLOW_CREDENTIALS'' False,
     text_prop ''GATEWAY_API_KEY'' '''',
     text_prop ''BASIC_AUTH_USERS'' '''',
     text_prop ''JWT_SECRET'' '''',
     text_prop ''JWT_JWKS_URI'' '''',
     text_prop ''JWT_ISSUER'' '''',
     text_prop ''JWT_AUDIENCE'' '''',
     text_prop ''BEARER_INTROSPECTION_URL'' '''',
     text_prop ''BEARER_INTROSPECTION_TOKEN'' '''',
     number_prop ''BEARER_CACHE_TTL_MS'' 0,
     number_prop ''SLOW_REQUEST_MS'' 0,
     text_prop ''METRICS_TOKEN'' '''',
     bool_prop ''ALERTS_ENABLED'' False,
     enum_prop ''ALERT_CHANNEL''
       (map alert_channel_value [ChannelNone, ChannelSlack, ChannelDiscord])
       (alert_channel_value ChannelNone),
     enum_prop ''ALERT_LEVEL'' (map alert_level_value [AlertError, AlertWarn])
       (alert_level_value AlertError),
     text_prop ''SLACK_WEBHOOK_URL'' '''',
     text_prop ''DISCORD_WEBHOOK_URL'' '''',
     number_prop ''ALERT_THROTTLE_MS'' 60000,
     number_prop ''ALERT_RETRIES'' 2,
     text_prop ''IP_ALLOW_LIST'' '''',
     text_prop ''IP_DENY_LIST'' '''',
     number_prop ''PRESSURE_MAX_EVENT_LOOP_DELAY_MS'' 1000,
     \<lparr>prop_name = ''PRESSURE_MAX_EVENT_LOOP_UTILIZATION'', prop_type = AnyNumber,
      prop_default = NumberValue 98 (- 2)\<rparr>,
     number_prop ''PRESSURE_MAX_HEAP_USED_BYTES'' 0,
     number_prop ''PRESSURE_MAX_RSS_BYTES'' 0,
     number_prop ''PRESSURE_SAMPLE_INTERVAL_MS'' 1000,
     number_prop ''PRESSURE_RETRY_AFTER_SECONDS'' 10,
     text_prop ''REDIS_URL'' '''',
     bool_prop ''CACHE_ENABLED'' False,
     number_prop ''CACHE_MAX_TTL_MS'' 60000,
     number_prop ''CACHE_DEFAULT_TTL_MS'' 0,
     number_prop ''CACHE_MAX_BODY_BYTES'' 1048576,
     number_prop ''RATE_LIMIT_MAX'' 100,
     number_prop ''RATE_LIMIT_WINDOW_MS'' 60000,
     number_prop ''RATE_LIMIT_BAN'' 0,
     number_prop ''UPSTREAM_TIMEOUT_MS'' 10000,
     number_prop ''UPSTREAM_CONNECT_TIMEOUT_MS'' 2000,
     number_prop ''UPSTREAM_MAX_CONNECTIONS'' 128,
     url_prop ''USERS_SERVICE_URL'' ''http://localhost:3001'',
     text_prop ''USERS_SERVICE_BASIC_AUTH'' '''',
     url_prop ''ORDERS_SERVICE_URL'' ''http://localhost:3002'',
     text_prop ''ORDERS_SERVICE_BASIC_AUTH'' '''',
     url_prop ''PUBLIC_SERVICE_URL'' ''http://localhost:3003'']"

text \<open>What validation guarantees of a value.\<close>

definition http_url :: "string \<Rightarrow> bool" where
  "http_url s \<longleftrightarrow> take 7 s = ''http://'' \<or> take 8 s = ''https://''"

fun value_ok :: "value_constraint \<Rightarrow> config_value \<Rightarrow> bool" where
  "value_ok AnyNumber (NumberValue m e) = True"
| "value_ok AnyText (TextValue s) = True"
| "value_ok AnyBool (BoolValue b) = True"
| "value_ok (OneOf vs) (TextValue s) = (s \<in> set vs)"
| "value_ok HttpUrl (TextValue s) = http_url s"
| "value_ok _ _ = False"

type_synonym settings = "string \<rightharpoonup> config_value"

definition conforms :: "settings \<Rightarrow> bool" where
  "conforms st \<longleftrightarrow> list_all (\<lambda>p. case st (prop_name p) of None \<Rightarrow> False
     | Some v \<Rightarrow> value_ok (prop_type p) v) config_schema"

definition default_settings :: settings where
  "default_settings = map_of (map (\<lambda>p. (prop_name p, prop_default p)) config_schema)"

subsection \<open>The typed configuration\<close>

record gateway_config =
  PORT :: int
  HOST :: string
  CORS_ORIGINS :: string
  CORS_ALLOW_CREDENTIALS :: bool
  GATEWAY_API_KEY :: string
  BASIC_AUTH_USERS :: string
  JWT_SECRET :: string
  JWT_JWKS_URI :: string
  JWT_ISSUER :: string
  JWT_AUDIENCE :: string
  BEARER_INTROSPECTION_URL :: string
  BEARER_INTROSPECTION_TOKEN :: string
  BEARER_CACHE_TTL_MS :: int
  SLOW_REQUEST_MS :: int
  METRICS_TOKEN :: string
  ALERTS_ENABLED :: bool
  ALERT_CHANNEL :: string
  ALERT_LEVEL :: string
  SLACK_WEBHOOK_URL :: string
  DISCORD_WEBHOOK_URL :: string
  ALERT_THROTTLE_MS :: int
  ALERT_RETRIES :: int
  IP_ALLOW_LIST :: string
  IP_DENY_LIST :: string
  PRESSURE_MAX_EVENT_LOOP_DELAY_MS :: int
  PRESSURE_MAX_EVENT_LOOP_UTILIZATION :: "int \<times> int"
  PRESSURE_MAX_HEAP_USED_BYTES :: int
  PRESSURE_MAX_RSS_BYTES :: int
  PRESSURE_SAMPLE_INTERVAL_MS :: int
  PRESSURE_RETRY_AFTER_SECONDS :: int
  REDIS_URL :: string
  CACHE_ENABLED :: bool
  CACHE_MAX_TTL_MS :: int
  CACHE_DEFAULT_TTL_MS :: int
  CACHE_MAX_BODY_BYTES :: int
  RATE_LIMIT_MAX :: int
  RATE_LIMIT_WINDOW_MS :: int
  RATE_LIMIT_BAN :: int
  UPSTREAM_TIMEOUT_MS :: int
  UPSTREAM_CONNECT_TIMEOUT_MS :: int
  UPSTREAM_MAX_CONNECTIONS :: int
  USERS_SERVICE_URL :: string
  USERS_SERVICE_BASIC_AUTH :: string
  ORDERS_SERVICE_URL :: string
  ORDERS_SERVICE_BASIC_AUTH :: string
  PUBLIC_SERVICE_URL :: string

fun text_of :: "config_value option \<Rightarrow> string" where
  "text_of (Some (TextValue s)) = s"
| "text_of _ = []"

fun number_of :: "config_value option \<Rightarrow> int" where
  "number_of (Some (NumberValue m e)) = decimal_int m e"
| "number_of _ = 0"

fun decimal_of :: "config_value option \<Rightarrow> int \<times> int" where
  "decimal_of (Some (NumberValue m e)) = (m, e)"
| "decimal_of _ = (0, 0)"

fun bool_of :: "config_value option \<Rightarrow> bool" where
  "bool_of (Some (BoolValue b)) = b"
| "bool_of _ = False"

definition typed_config :: "settings \<Rightarrow> gateway_config" where
  "typed_config st =
    \<lparr>PORT = number_of (st ''PORT''),
     HOST = text_of (st ''HOST''),
     CORS_ORIGINS = text_of (st ''CORS_ORIGINS''),
     CORS_ALLOW_CREDENTIALS = bool_of (st ''CORS_ALLOW_CREDENTIALS''),
     GATEWAY_API_KEY = text_of (st ''GATEWAY_API_KEY''),
     BASIC_AUTH_USERS = text_of (st ''BASIC_AUTH_USERS''),
     JWT_SECRET = text_of (st ''JWT_SECRET''),
     JWT_JWKS_URI = text_of (st ''JWT_JWKS_URI''),
     JWT_ISSUER = text_of (st ''JWT_ISSUER''),
     JWT_AUDIENCE = text_of (st ''JWT_AUDIENCE''),
     BEARER_INTROSPECTION_URL = text_of (st ''BEARER_INTROSPECTION_URL''),
     BEARER_INTROSPECTION_TOKEN = text_of (st ''BEARER_INTROSPECTION_TOKEN''),
     BEARER_CACHE_TTL_MS = number_of (st ''BEARER_CACHE_TTL_MS''),
     SLOW_REQUEST_MS = number_of (st ''SLOW_REQUEST_MS''),
     METRICS_TOKEN = text_of (st ''METRICS_TOKEN''),
     ALERTS_ENABLED = bool_of (st ''ALERTS_ENABLED''),
     ALERT_CHANNEL = text_of (st ''ALERT_CHANNEL''),
     ALERT_LEVEL = text_of (st ''ALERT_LEVEL''),
     SLACK_WEBHOOK_URL = text_of (st ''SLACK_WEBHOOK_URL''),
     DISCORD_WEBHOOK_URL = text_of (st ''DISCORD_WEBHOOK_URL''),
     ALERT_THROTTLE_MS = number_of (st ''ALERT_THROTTLE_MS''),
     ALERT_RETRIES = number_of (st ''ALERT_RETRIES''),
     IP_ALLOW_LIST = text_of (st ''IP_ALLOW_LIST''),
     IP_DENY_LIST = text_of (st ''IP_DENY_LIST''),
     PRESSURE_MAX_EVENT_LOOP_DELAY_MS = number_of (st ''PRESSURE_MAX_EVENT_LOOP_DELAY_MS''),
     PRESSURE_MAX_EVENT_LOOP_UTILIZATION = decimal_of (st ''PRESSURE_MAX_EVENT_LOOP_UTILIZATION''),
     PRESSURE_MAX_HEAP_USED_BYTES = number_of (st ''PRESSURE_MAX_HEAP_USED_BYTES''),
     PRESSURE_MAX_RSS_BYTES = number_of (st ''PRESSURE_MAX_RSS_BYTES''),
     PRESSURE_SAMPLE_INTERVAL_MS = number_of (st ''PRESSURE_SAMPLE_INTERVAL_MS''),
     PRESSURE_RETRY_AFTER_SECONDS = number_of (st ''PRESSURE_RETRY_AFTER_SECONDS''),
     REDIS_URL = text_of (st ''REDIS_URL''),
     CACHE_ENABLED = bool_of (st ''CACHE_ENABLED''),
     CACHE_MAX_TTL_MS = number_of (st ''CACHE_MAX_TTL_MS''),
     CACHE_DEFAULT_TTL_MS = number_of (st ''CACHE_DEFAULT_TTL_MS''),
     CACHE_MAX_BODY_BYTES = number_of (st ''CACHE_MAX_BODY_BYTES''),
     RATE_LIMIT_MAX = number_of (st ''RATE_LIMIT_MAX''),
     RATE_LIMIT_WINDOW_MS = number_of (st ''RATE_LIMIT_WINDOW_MS''),
     RATE_LIMIT_BAN = number_of (st ''RATE_LIMIT_BAN''),
     UPSTREAM_TIMEOUT_MS = number_of (st ''UPSTREAM_TIMEOUT_MS''),
     UPSTREAM_CONNECT_TIMEOUT_MS = number_of (st ''UPSTREAM_CONNECT_TIMEOUT_MS''),
     UPSTREAM_MAX_CONNECTIONS = number_of (st ''UPSTREAM_MAX_CONNECTIONS''),
     USERS_SERVICE_URL = text_of (st ''USERS_SERVICE_URL''),
     USERS_SERVICE_BASIC_AUTH = text_of (st ''USERS_SERVICE_BASIC_AUTH''),
     ORDERS_SERVICE_URL = text_of (st ''ORDERS_SERVICE_URL''),
     ORDERS_SERVICE_BASIC_AUTH = text_of (st ''ORDERS_SERVICE_BASIC_AUTH''),
     PUBLIC_SERVICE_URL = text_of (st ''PUBLIC_SERVICE_URL'')\<rparr>"

definition default_config :: gateway_config where
  "default_config = typed_config default_settings"

subsection \<open>Properties\<close>

lemma schema_names_distinct: "distinct (map prop_name config_schema)"
  by code_simp

lemma defaults_ok: "list_all (\<lambda>p. value_ok (prop_type p) (prop_default p)) config_schema"
  by code_simp

lemma default_lookup:
  "p \<in> set config_schema \<Longrightarrow> default_settings (prop_name p) = Some (prop_default p)"
  unfolding default_settings_def
  by (rule map_of_is_SomeI) (auto simp: schema_names_distinct comp_def)

text \<open>The gateway boots on an empty environment: every default of the schema satisfies its own
  type, enumeration or URL pattern, so the settings made of the defaults pass validation.\<close>
theorem defaults_conform: "conforms default_settings"
  unfolding conforms_def
  using defaults_ok by (auto simp: list_all_iff default_lookup)

lemma conforms_value:
  assumes "conforms st" and "p \<in> set config_schema"
  obtains v where "st (prop_name p) = Some v" and "value_ok (prop_type p) v"
  using assms by (fastforce simp: conforms_def list_all_iff split: option.splits)

lemma value_ok_url: "value_ok HttpUrl v \<longleftrightarrow> (\<exists>s. v = TextValue s \<and> http_url s)"
  by (cases v) auto

lemma value_ok_enum: "value_ok (OneOf vs) v \<longleftrightarrow> (\<exists>s. v = TextValue s \<and> s \<in> set vs)"
  by (cases v) auto

lemma conforming_url:
  assumes "conforms st" and "url_prop name d \<in> set config_schema"
  shows "http_url (text_of (st name))"
proof -
  obtain v where "st name = Some v" "value_ok HttpUrl v"
    using conforms_value [OF assms] by (metis url_prop_def schema_property.select_convs(1,2))
  then show ?thesis by (auto simp: value_ok_url)
qed

lemma conforming_enum:
  assumes "conforms st" and "enum_prop name vs d \<in> set config_schema"
  shows "text_of (st name) \<in> set vs"
proof -
  obtain v where "st name = Some v" "value_ok (OneOf vs) v"
    using conforms_value [OF assms] by (metis enum_prop_def schema_property.select_convs(1,2))
  then show ?thesis by (auto simp: value_ok_enum)
qed

lemma schema_members:
  "url_prop ''USERS_SERVICE_URL'' ''http://localhost:3001'' \<in> set config_schema"
  "url_prop ''ORDERS_SERVICE_URL'' ''http://localhost:3002'' \<in> set config_schema"
  "url_prop ''PUBLIC_SERVICE_URL'' ''http://localhost:3003'' \<in> set config_schema"
  "enum_prop ''ALERT_CHANNEL'' (map alert_channel_value [ChannelNone, ChannelSlack, ChannelDiscord])
     (alert_channel_value ChannelNone) \<in> set config_schema"
  "enum_prop ''ALERT_LEVEL'' (map alert_level_value [AlertError, AlertWarn])
     (alert_level_value AlertError) \<in> set config_schema"
  unfolding config_schema_def list.set by (blast, blast, blast, blast, blast)

lemma typed_config_selects:
  "USERS_SERVICE_URL (typed_config st) = text_of (st ''USERS_SERVICE_URL'')"
  "ORDERS_SERVICE_URL (typed_config st) = text_of (st ''ORDERS_SERVICE_URL'')"
  "PUBLIC_SERVICE_URL (typed_config st) = text_of (st ''PUBLIC_SERVICE_URL'')"
  "ALERT_CHANNEL (typed_config st) = text_of (st ''ALERT_CHANNEL'')"
  "ALERT_LEVEL (typed_config st) = text_of (st ''ALERT_LEVEL'')"
  unfolding typed_config_def by simp_all

lemma service_urls_http:
  assumes "conforms st"
  shows "http_url (USERS_SERVICE_URL (typed_config st))"
    "http_url (ORDERS_SERVICE_URL (typed_config st))"
    "http_url (PUBLIC_SERVICE_URL (typed_config st))"
  unfolding typed_config_selects
  by (rule conforming_url [OF assms schema_members(1)] conforming_url [OF assms schema_members(2)]
    conforming_url [OF assms schema_members(3)])+

lemma alert_settings_known:
  assumes "conforms st"
  shows "\<exists>k. ALERT_CHANNEL (typed_config st) = alert_channel_value k"
    "\<exists>l. ALERT_LEVEL (typed_config st) = alert_level_value l"
  using conforming_enum [OF assms schema_members(4)] conforming_enum [OF assms schema_members(5)]
  unfolding typed_config_selects set_map image_iff by blast+

lemma env_number_cases:
  "env_number env name fallback lo = Inr v \<longleftrightarrow>
    (env name \<in> {None, Some []} \<and> v = Decimal fallback 0)
    \<or> (\<exists>raw. env name = Some raw \<and> raw \<noteq> [] \<and> v = js_number_of raw \<and> is_finite v
        \<and> \<not> number_less v lo)"
  by (auto simp: env_number_def Let_def split: option.splits)

lemma env_number_finite:
  "env_number env name fallback lo = Inr v \<Longrightarrow> lo \<le> fallback
    \<Longrightarrow> is_finite v \<and> \<not> number_less v lo"
  by (auto simp: env_number_cases decimal_less_def)

text \<open>\<open>envNumber\<close> fails fast: whatever it returns is a finite number at least \<open>min\<close>; it throws
  exactly on a set, non-empty variable that is not such a number, and on a variable spelling a
  whole number (below 10^300) in digits it returns that number.\<close>
theorem env_number_sound:
  assumes "lo \<le> fallback"
  shows "(\<forall>v. env_number env name fallback lo = Inr v \<longrightarrow> is_finite v \<and> \<not> number_less v lo)
    \<and> ((\<exists>e. env_number env name fallback lo = Inl e) \<longleftrightarrow>
         (\<exists>raw. env name = Some raw \<and> raw \<noteq> [] \<and>
            (\<not> is_finite (js_number_of raw) \<or> number_less (js_number_of raw) lo)))
    \<and> (\<forall>ds. env name = Some ds \<and> ds \<noteq> [] \<and> list_all is_digit ds \<and> nat_of_digits ds < 10 ^ 300
          \<and> lo \<le> int (nat_of_digits ds)
        \<longrightarrow> env_number env name fallback lo = Inr (Decimal (int (nat_of_digits ds)) 0))"
proof (intro conjI allI impI)
  fix v assume "env_number env name fallback lo = Inr v"
  with env_number_finite assms show "is_finite v" "\<not> number_less v lo" by blast+
next
  show "(\<exists>e. env_number env name fallback lo = Inl e) \<longleftrightarrow>
      (\<exists>raw. env name = Some raw \<and> raw \<noteq> [] \<and>
         (\<not> is_finite (js_number_of raw) \<or> number_less (js_number_of raw) lo))"
    by (auto simp: env_number_def Let_def split: option.splits)
next
  fix ds
  assume "env name = Some ds \<and> ds \<noteq> [] \<and> list_all is_digit ds \<and> nat_of_digits ds < 10 ^ 300
    \<and> lo \<le> int (nat_of_digits ds)"
  then show "env_number env name fallback lo = Inr (Decimal (int (nat_of_digits ds)) 0)"
    by (auto simp: env_number_cases digits_number decimal_less_def)
qed

theorem env_number_sound_witness:
  "env_number [''RETRIES'' \<mapsto> ''30''] ''RETRIES'' 5 0 = Inr (Decimal 30 0)
    \<and> (\<exists>e. env_number [''RETRIES'' \<mapsto> ''30s''] ''RETRIES'' 5 0 = Inl e)"
proof
  have d: "nat_of_digits ''30'' = 30" "list_all is_digit ''30''" by code_simp+
  have "''30'' \<noteq> [] \<and> list_all is_digit ''30'' \<and> nat_of_digits ''30'' < 10 ^ 300
    \<and> 0 \<le> int (nat_of_digits ''30'')"
    unfolding d(1) using d(2) by simp
  then have "env_number [''RETRIES'' \<mapsto> ''30''] ''RETRIES'' 5 0
      = Inr (Decimal (int (nat_of_digits ''30'')) 0)"
    using env_number_sound [of 0 5 "[''RETRIES'' \<mapsto> ''30'']" "''RETRIES''"]
    by (simp only: fun_upd_same)
  then show "env_number [''RETRIES'' \<mapsto> ''30''] ''RETRIES'' 5 0 = Inr (Decimal 30 0)"
    unfolding d by simp
  have "js_number_of ''30s'' = NaN" by code_simp
  then show "\<exists>e. env_number [''RETRIES'' \<mapsto> ''30s''] ''RETRIES'' 5 0 = Inl e"
    by (simp add: env_number_def)
qed

lemma env_enum_sound:
  "fallback \<in> set allowed \<Longrightarrow> env_enum env name allowed fallback = Inr v \<Longrightarrow> v \<in> set allowed"
  by (auto simp: env_enum_def split: option.splits if_splits)

lemma env_boolean_errors:
  "(\<exists>e. env_boolean env name fallback = Inl e) \<longleftrightarrow>
     (\<exists>raw. env name = Some raw \<and> raw \<notin> {[], ''true'', ''false''})"
  by (auto simp: env_boolean_def split: option.splits)

lemma default_text:
  "text_prop name v \<in> set config_schema \<Longrightarrow> text_of (default_settings name) = v"
  using default_lookup [of "text_prop name v"] by (simp add: text_prop_def)

lemma default_config_texts [simp]:
  "BASIC_AUTH_USERS default_config = []"
  "JWT_JWKS_URI default_config = []"
  "USERS_SERVICE_BASIC_AUTH default_config = []"
  "ORDERS_SERVICE_BASIC_AUTH default_config = []"
proof -
  have m: "text_prop ''BASIC_AUTH_USERS'' '''' \<in> set config_schema"
    "text_prop ''JWT_JWKS_URI'' '''' \<in> set config_schema"
    "text_prop ''USERS_SERVICE_BASIC_AUTH'' '''' \<in> set config_schema"
    "text_prop ''ORDERS_SERVICE_BASIC_AUTH'' '''' \<in> set config_schema"
    unfolding config_schema_def list.set by (blast, blast, blast, blast)
  show "BASIC_AUTH_USERS default_config = []" "JWT_JWKS_URI default_config = []"
    "USERS_SERVICE_BASIC_AUTH default_config = []" "ORDERS_SERVICE_BASIC_AUTH default_config = []"
    unfolding default_config_def typed_config_def gateway_config.select_convs
    by (fact default_text [OF m(1)] default_text [OF m(2)] default_text [OF m(3)]
      default_text [OF m(4)])+
qed

end
