(* ===== verification/Observability.thy ===== *)
theory Observability
  imports Credentials Config
begin

section \<open>Metrics, health, logging\<close>

text \<open>
  \<open>plugins/metrics.ts\<close>, \<open>routes/metrics.ts\<close>, \<open>routes/health.ts\<close>, \<open>plugins/logging.ts\<close> and
  \<open>config/logger.ts\<close>. The Prometheus registry is the list of its labelled observations; its text
  rendering is a parameter. A log destination that the process writes itself is an
  \<open>in_process\<close> stream; pino's own options are a record.
\<close>

subsection \<open>Request metrics\<close>

record metric_labels =
  label_method :: string
  label_route :: string
  label_status :: string

record registry =
  requests_total :: "metric_labels \<Rightarrow> nat"
  durations :: "(metric_labels \<times> int) list"

text \<open>The two series the plugin registers; bucket bounds in milliseconds.\<close>

record metric_spec =
  metric_name :: string
  metric_help :: string
  label_names :: "string list"
  bucket_bounds_ms :: "int list"

definition metrics_plugin :: "metric_spec list" where
  "metrics_plugin =
     [\<lparr>metric_name = ''http_requests_total'',
       metric_help = ''Total HTTP requests handled by the gateway'',
       label_names = [''method'', ''route'', ''status''], bucket_bounds_ms = []\<rparr>,
      \<lparr>metric_name = ''http_request_duration_seconds'',
       metric_help = ''HTTP request duration in seconds'',
       label_names = [''method'', ''route'', ''status''],
       bucket_bounds_ms = [5, 25, 100, 250, 500, 1000, 2500, 5000, 10000]\<rparr>]"

lemma metrics_plugin_buckets:
  "list_all (\<lambda>spec. sorted_wrt (<) (bucket_bounds_ms spec)) metrics_plugin"
  by (simp add: metrics_plugin_def)

definition request_labels :: "request \<Rightarrow> reply \<Rightarrow> metric_labels" where
  "request_labels req reply =
     \<lparr>label_method = (if req_method req \<in> set known_http_methods then req_method req
        else other_method_label),
      label_route = (case route_url (req_route req) of Some url \<Rightarrow> url | None \<Rightarrow> ''unmatched''),
      label_status = show_nat (status_code reply)\<rparr>"

text \<open>The duration is kept in milliseconds; the code divides by 1000.\<close>

definition metrics_hook :: "int \<Rightarrow> request \<Rightarrow> reply \<Rightarrow> registry \<Rightarrow> registry" where
  "metrics_hook elapsed req reply reg =
     (let labels = request_labels req reply
      in reg\<lparr>requests_total := (requests_total reg)(labels := Suc (requests_total reg labels)),
             durations := durations reg @ [(labels, elapsed)]\<rparr>)"

record observation =
  obs_elapsed :: int
  obs_request :: request
  obs_reply :: reply

definition observe_all :: "observation list \<Rightarrow> registry \<Rightarrow> registry" where
  "observe_all os reg =
     fold (\<lambda>ob. metrics_hook (obs_elapsed ob) (obs_request ob) (obs_reply ob)) os reg"

definition obs_labels :: "observation \<Rightarrow> metric_labels" where
  "obs_labels ob = request_labels (obs_request ob) (obs_reply ob)"

lemma observe_total:
  "requests_total (observe_all os reg) l = requests_total reg l + length (filter (\<lambda>ob. obs_labels ob = l) os)"
  by (induction os arbitrary: reg)
    (auto simp: observe_all_def metrics_hook_def obs_labels_def Let_def)

definition label_space :: "string set \<Rightarrow> nat set \<Rightarrow> metric_labels set" where
  "label_space routes statuses =
     (\<lambda>(m, r, s). \<lparr>label_method = m, label_route = r, label_status = show_nat s\<rparr>) `
       (insert other_method_label (set known_http_methods) \<times> insert ''unmatched'' routes \<times> statuses)"

lemma labels_in_space:
  assumes "\<And>url. route_url (req_route req) = Some url \<Longrightarrow> url \<in> routes"
    and "status_code reply \<in> statuses"
  shows "request_labels req reply \<in> label_space routes statuses"
  using assms by (auto simp: label_space_def request_labels_def image_iff split: option.split)

lemma label_space_card:
  assumes "finite routes" and "finite statuses"
  shows "card (label_space routes statuses) \<le> 10 * (card routes + 1) * card statuses"
proof -
  let ?methods = "insert other_method_label (set known_http_methods)"
  have "card ?methods \<le> 10"
    by (simp add: known_http_methods_def other_method_label_def)
  moreover have "card (insert ''unmatched'' routes) \<le> card routes + 1"
    by (metis Suc_eq_plus1 assms(1) card_insert_if le_SucI order_refl)
  ultimately have "card ?methods * (card (insert ''unmatched'' routes) * card statuses)
      \<le> 10 * ((card routes + 1) * card statuses)"
    by (intro mult_le_mono) auto
  moreover have "card (label_space routes statuses)
      \<le> card (?methods \<times> insert ''unmatched'' routes \<times> statuses)"
    unfolding label_space_def by (rule card_image_le) (use assms in auto)
  ultimately show ?thesis
    unfolding card_cartesian_product by (simp only: mult.assoc)
qed

text \<open>The metric series are bounded and exact: over any traffic, each series counts precisely the
  responses with its labels, and the labels seen are at most ten methods times the routes (and
  \<open>unmatched\<close>) times the statuses, whatever methods and URLs clients invent.\<close>
theorem metrics_bounded:
  assumes "finite routes" and "finite statuses"
    and "\<And>ob url. ob \<in> set os \<Longrightarrow> route_url (req_route (obs_request ob)) = Some url \<Longrightarrow> url \<in> routes"
    and "\<And>ob. ob \<in> set os \<Longrightarrow> status_code (obs_reply ob) \<in> statuses"
  defines "reg \<equiv> observe_all os \<lparr>requests_total = (\<lambda>_. 0), durations = []\<rparr>"
  shows "card {l. 0 < requests_total reg l} \<le> 10 * (card routes + 1) * card statuses
    \<and> requests_total reg l = length (filter (\<lambda>ob. obs_labels ob = l) os)"
proof
  have "{l. 0 < requests_total reg l} \<subseteq> label_space routes statuses"
    using assms(3,4) by (auto simp: reg_def observe_total filter_empty_conv obs_labels_def
        intro!: labels_in_space)
  moreover have "finite (label_space routes statuses)"
    using assms(1,2) by (simp add: label_space_def)
  ultimately have "card {l. 0 < requests_total reg l} \<le> card (label_space routes statuses)"
    by (intro card_mono) auto
  also have "\<dots> \<le> 10 * (card routes + 1) * card statuses"
    by (rule label_space_card [OF assms(1,2)])
  finally show "card {l. 0 < requests_total reg l} \<le> 10 * (card routes + 1) * card statuses" .
  show "requests_total reg l = length (filter (\<lambda>ob. obs_labels ob = l) os)"
    by (simp add: reg_def observe_total)
qed

subsection \<open>The scrape endpoint\<close>

definition metrics_route ::
    "hash \<Rightarrow> (registry \<Rightarrow> string) \<Rightarrow> string \<Rightarrow> string \<Rightarrow> registry \<Rightarrow> request \<Rightarrow> reply \<Rightarrow> reply" where
  "metrics_route sha256 render content_type token reg req reply =
     (let authorized = (token = [] \<or>
        (case parse_bearer_token (string_header (req_header req HdrAuthorization)) of
           None \<Rightarrow> False
         | Some provided \<Rightarrow> safe_equal sha256 (js_codes provided) (js_codes token)))
      in if \<not> authorized then
           reply_send (ErrorPayload (error_body_of (req_id req) (error_message MsgUnauthorized)))
             (reply_code (http_status StUnauthorized) reply)
         else reply_send (TextPayload (render reg)) (reply_header HdrContentType content_type reply))"

definition metrics_boot :: "gateway_config \<Rightarrow> logger \<Rightarrow> logger" where
  "metrics_boot config app_log =
     (if METRICS_TOKEN config = [] then
        log_at LogWarn [] ''METRICS_TOKEN is not set; /metrics is unauthenticated'' app_log
      else app_log)"

definition metrics_exemptions :: route_options where
  "metrics_exemptions = \<lparr>route_url = Some ''/metrics'', route_shed = Some False,
     route_ip_filter = None, route_rate_limit = Some False\<rparr>"

text \<open>With a token configured, the registry is shown exactly to requests whose Bearer token is that
  token; everyone else gets the uniform 401.\<close>
theorem metrics_need_token:
  assumes "token \<noteq> []" and "sent reply = None"
    and "\<And>s. parse_bearer_token (string_header (req_header req HdrAuthorization)) = Some s
      \<Longrightarrow> no_collision sha256 (js_codes s) (js_codes token)"
  shows "if parse_bearer_token (string_header (req_header req HdrAuthorization)) = Some token
    then sent (metrics_route sha256 render ct token reg req reply) = Some (TextPayload (render reg))
    else rejected_with 401 ''Unauthorized'' req (metrics_route sha256 render ct token reg req reply)"
proof (cases "parse_bearer_token (string_header (req_header req HdrAuthorization))")
  case None
  then show ?thesis using assms(1,2) by (simp add: metrics_route_def rejected_with_def)
next
  case (Some s)
  have "safe_equal sha256 (js_codes s) (js_codes token) \<longleftrightarrow> s = token"
    using safe_equal_iff [OF assms(3) [OF Some]] by (simp add: js_codes_scalar)
  with Some show ?thesis using assms(1,2)
    by (auto simp: metrics_route_def rejected_with_def)
qed

subsection \<open>Probes\<close>

record instance_state =
  shutting_down :: bool
  under_pressure :: bool

definition probe_options :: "string \<Rightarrow> route_options" where
  "probe_options url = \<lparr>route_url = Some url, route_shed = Some False, route_ip_filter = Some False,
     route_rate_limit = Some False\<rparr>"

definition healthz :: "reply \<Rightarrow> reply" where
  "healthz reply = reply_send (StatusPayload ''ok'') reply"

definition readyz :: "instance_state \<Rightarrow> reply \<Rightarrow> reply" where
  "readyz st reply =
     (if shutting_down st then
        reply_send (StatusPayload ''draining'') (reply_code (http_status StServiceUnavailable) reply)
      else if under_pressure st then
        reply_send (StatusPayload ''under-pressure'')
          (reply_code (http_status StServiceUnavailable) reply)
      else reply_send (StatusPayload ''ready'') reply)"

lemma readyz_status:
  "status_code (readyz st fresh_reply) =
    (if shutting_down st \<or> under_pressure st then 503 else 200)"
  by (simp add: readyz_def fresh_reply_def reply_code_def reply_send_def)

subsection \<open>Log destinations\<close>

definition redact_paths :: "string list" where
  "redact_paths = [''req.headers.'' @ header_name HdrAuthorization,
     ''req.headers[\"'' @ header_name HdrApiKey @ ''\"]'', ''req.headers.'' @ header_name HdrCookie]"

definition valid_destinations :: "string list" where
  "valid_destinations = map log_destination_value [LogConsole, LogFile]"

definition invalid_channel_message :: "string \<Rightarrow> string" where
  "invalid_channel_message channel =
     ''Invalid LOG_DESTINATION channel \"'' @ channel
       @ ''\"; expected \"console\", \"file\", or a comma-separated combination''"

definition destination_names :: "environment \<Rightarrow> string list" where
  "destination_names env =
     (let raw = (case env ''LOG_DESTINATION'' of Some s \<Rightarrow> s | None \<Rightarrow> log_destination_value LogConsole);
          channels = filter (\<lambda>s. s \<noteq> [])
            (map (\<lambda>s. map js_lower (js_trim s)) (split_on (CHR '','') raw))
      in if channels = [] then [log_destination_value LogConsole] else channels)"

text \<open>The first unknown channel, in order, is the one the error names.\<close>

definition parse_destinations :: "environment \<Rightarrow> string set result" where
  "parse_destinations env =
     (case filter (\<lambda>c. c \<notin> set valid_destinations) (destination_names env) of
        [] \<Rightarrow> Inr (set (destination_names env))
      | channel # _ \<Rightarrow> Inl (Error (invalid_channel_message channel)))"

record rotation_options =
  rot_file :: string
  rot_frequency :: string
  rot_size :: string
  rot_count :: js_number
  rot_mkdir :: bool
  rot_date_format :: string

definition env_or :: "environment \<Rightarrow> string \<Rightarrow> string \<Rightarrow> string" where
  "env_or env name fallback = (case env name of Some s \<Rightarrow> s | None \<Rightarrow> fallback)"

definition file_rotation_options :: "environment \<Rightarrow> rotation_options result" where
  "file_rotation_options env =
     bind_result (env_number env ''LOG_RETENTION_FILES'' 14 1) (\<lambda>count. Inr
       \<lparr>rot_file = env_or env ''LOG_FILE'' ''logs/gateway.log'',
        rot_frequency = env_or env ''LOG_ROTATION_FREQUENCY'' ''daily'',
        rot_size = env_or env ''LOG_ROTATION_MAX_SIZE'' ''10m'',
        rot_count = count, rot_mkdir = True, rot_date_format = ''yyyy-MM-dd''\<rparr>)"

datatype log_stream = StdoutSync | StdoutBuffered js_number | RollingFile rotation_options

text \<open>Where the log goes: pino's own stdout, streams written by this process (which the shutdown
  flushes), or a worker transport.\<close>

datatype log_target = DefaultStdout | InProcess "log_stream list" | WorkerFile rotation_options

record logger_config =
  lc_level :: string
  lc_redact :: "string list"
  lc_target :: log_target

definition stdout_destination :: "js_number \<Rightarrow> log_stream" where
  "stdout_destination buffer_bytes =
     (if number_greater buffer_bytes 0 then StdoutBuffered buffer_bytes else StdoutSync)"

definition log_target_for :: "environment \<Rightarrow> string set \<Rightarrow> js_number \<Rightarrow> log_target result" where
  "log_target_for env destinations buffer_bytes =
     (let console = log_destination_value LogConsole \<in> destinations;
          to_file = log_destination_value LogFile \<in> destinations
      in if console \<and> to_file then
           bind_result (file_rotation_options env) (\<lambda>rot.
             Inr (InProcess [stdout_destination buffer_bytes, RollingFile rot]))
         else if to_file then
           bind_result (file_rotation_options env) (\<lambda>rot. Inr (WorkerFile rot))
         else Inr (if number_greater buffer_bytes 0
           then InProcess [stdout_destination buffer_bytes] else DefaultStdout))"

definition build_logger_options :: "environment \<Rightarrow> logger_config result" where
  "build_logger_options env =
     bind_result (parse_destinations env) (\<lambda>destinations.
     bind_result (env_number env ''LOG_BUFFER_BYTES'' 0 0) (\<lambda>buffer_bytes.
     bind_result (log_target_for env destinations buffer_bytes) (\<lambda>target.
       Inr \<lparr>lc_level = env_or env ''LOG_LEVEL'' ''info'', lc_redact = redact_paths,
            lc_target = target\<rparr>)))"

text \<open>The streams a build tracks, in the order it creates them: the rolling file first.\<close>

fun active_destinations :: "log_target \<Rightarrow> log_stream list" where
  "active_destinations (InProcess ss) = rev ss"
| "active_destinations _ = []"

fun stream_channels :: "log_target \<Rightarrow> string set" where
  "stream_channels DefaultStdout = {''console''}"
| "stream_channels (WorkerFile _) = {''file''}"
| "stream_channels (InProcess ss) =
     (\<lambda>s. case s of RollingFile _ \<Rightarrow> ''file'' | _ \<Rightarrow> ''console'') ` set ss"

lemma parse_destinations_ok:
  assumes "parse_destinations env = Inr ds"
  shows "ds = set (destination_names env)" and "ds \<noteq> {}" and "ds \<subseteq> {''console'', ''file''}"
proof -
  from assms show ds: "ds = set (destination_names env)"
    by (auto simp: parse_destinations_def split: list.splits)
  have "destination_names env \<noteq> []" by (simp add: destination_names_def Let_def)
  with ds show "ds \<noteq> {}" by simp
  from assms show "ds \<subseteq> {''console'', ''file''}"
    unfolding ds by (auto simp: parse_destinations_def filter_empty_conv valid_destinations_def
        split: list.splits)
qed

lemma subset_of_pair: "s \<subseteq> {a, b} \<Longrightarrow> s = {} \<or> s = {a} \<or> s = {b} \<or> s = {a, b}"
  by blast

lemma target_channels:
  assumes "log_target_for env ds b = Inr target" and "ds \<noteq> {}" and "ds \<subseteq> {''console'', ''file''}"
  shows "stream_channels target = ds"
proof -
  have out: "(case stdout_destination b of RollingFile _ \<Rightarrow> ''file'' | _ \<Rightarrow> ''console'') = ''console''"
    by (simp add: stdout_destination_def)
  consider "ds = {''console''}" | "ds = {''file''}" | "ds = {''console'', ''file''}"
    using subset_of_pair [OF assms(3)] assms(2) by blast
  then show ?thesis
  proof cases
    case 1
    then have "''console'' \<in> ds" "''file'' \<notin> ds" by simp_all
    then have "target = (if number_greater b 0 then InProcess [stdout_destination b] else DefaultStdout)"
      using assms(1) by (simp add: log_target_for_def)
    then show ?thesis unfolding 1 by (simp add: out)
  next
    case 2
    then have "''console'' \<notin> ds" "''file'' \<in> ds" by simp_all
    then obtain rot where "target = WorkerFile rot"
      using assms(1) by (auto simp: log_target_for_def)
    then show ?thesis unfolding 2 by simp
  next
    case 3
    then have "''console'' \<in> ds" "''file'' \<in> ds" by simp_all
    then obtain rot where "target = InProcess [stdout_destination b, RollingFile rot]"
      using assms(1) by (auto simp: log_target_for_def)
    then show ?thesis unfolding 3 by (simp add: out)
  qed
qed

text \<open>A typo never redirects the log: the logger either fails to build or writes to exactly the
  channels \<open>LOG_DESTINATION\<close> names, one or two of console and file, with authorization, API key and
  cookie redacted on every one of them.\<close>
theorem log_goes_where_configured:
  assumes "build_logger_options env = Inr config"
  shows "stream_channels (lc_target config) = set (destination_names env)
    \<and> set (destination_names env) \<subseteq> {''console'', ''file''} \<and> destination_names env \<noteq> []
    \<and> lc_redact config = [''req.headers.authorization'', ''req.headers[\"x-api-key\"]'', ''req.headers.cookie'']"
proof -
  from assms obtain ds b target where ds: "parse_destinations env = Inr ds"
    and target: "log_target_for env ds b = Inr target"
    and config: "lc_target config = target" "lc_redact config = redact_paths"
    by (auto simp: build_logger_options_def)
  note p = parse_destinations_ok [OF ds]
  have "redact_paths
      = [''req.headers.authorization'', ''req.headers[\"x-api-key\"]'', ''req.headers.cookie'']"
    by (simp add: redact_paths_def header_name.simps)
  then show ?thesis
    using p target_channels [OF target p(2,3)] by (simp add: config)
qed

theorem log_goes_where_configured_witness:
  "\<exists>config. build_logger_options [''LOG_DESTINATION'' \<mapsto> ''Console, file''] = Inr config
    \<and> stream_channels (lc_target config) = {''console'', ''file''}"
proof -
  let ?env = "[''LOG_DESTINATION'' \<mapsto> ''Console, file'']"
  have n: "destination_names ?env = [''console'', ''file'']" by code_simp
  have "filter (\<lambda>c. c \<notin> set valid_destinations) [''console'', ''file''] = []"
    by (simp add: valid_destinations_def)
  then have "parse_destinations ?env = Inr (set (destination_names ?env))"
    unfolding parse_destinations_def n by simp
  then have d: "parse_destinations ?env = Inr {''console'', ''file''}" unfolding n by simp
  have e: "env_number ?env ''LOG_BUFFER_BYTES'' 0 0 = Inr (Decimal 0 0)"
    "env_number ?env ''LOG_RETENTION_FILES'' 14 1 = Inr (Decimal 14 0)"
    by (simp_all add: env_number_def)
  have "\<exists>config. build_logger_options ?env = Inr config"
    unfolding build_logger_options_def d log_target_for_def file_rotation_options_def
    by (simp add: e)
  then obtain config where c: "build_logger_options ?env = Inr config" by blast
  from log_goes_where_configured [OF c] c show ?thesis unfolding n by auto
qed

subsection \<open>The logging plugin\<close>

record logging_hooks =
  log_completion :: bool
  log_slow_ms :: "int option"

definition logging_plugin :: "environment \<Rightarrow> gateway_config \<Rightarrow> logging_hooks result" where
  "logging_plugin env config =
     bind_result (env_enum env ''LOG_REQUEST_STYLE''
         (map log_request_style_value [StyleFastify, StyleSingle, StyleOff])
         (log_request_style_value StyleFastify)) (\<lambda>style.
       Inr \<lparr>log_completion = (style = log_request_style_value StyleSingle),
            log_slow_ms = (if 0 < SLOW_REQUEST_MS config then Some (SLOW_REQUEST_MS config) else None)\<rparr>)"

text \<open>Time is in whole milliseconds, so that rounding it to a tenth changes nothing.\<close>

definition request_completed_fields :: "int \<Rightarrow> request \<Rightarrow> reply \<Rightarrow> (string \<times> log_value) list" where
  "request_completed_fields elapsed req reply =
     [(''method'', LogText (req_method req)), (''url'', LogText (req_url req)),
      (''route'', case route_url (req_route req) of None \<Rightarrow> LogUndefined | Some url \<Rightarrow> LogText url),
      (''statusCode'', LogInt (int (status_code reply))), (''elapsedMs'', LogInt elapsed), (''ip'', LogText (req_ip req))]"

definition slow_request_fields :: "int \<Rightarrow> request \<Rightarrow> reply \<Rightarrow> (string \<times> log_value) list" where
  "slow_request_fields elapsed req reply =
     [(''method'', LogText (req_method req)),
      (''route'', case route_url (req_route req) of None \<Rightarrow> LogUndefined | Some url \<Rightarrow> LogText url),
      (''statusCode'', LogInt (int (status_code reply))), (''elapsedMs'', LogInt elapsed)]"

definition logging_on_response :: "logging_hooks \<Rightarrow> int \<Rightarrow> request \<Rightarrow> reply \<Rightarrow> request" where
  "logging_on_response hooks elapsed req reply =
     (let req = (if log_completion hooks
        then log_req LogInfo (request_completed_fields elapsed req reply) ''request completed'' req else req)
      in case log_slow_ms hooks of None \<Rightarrow> req
        | Some slow_ms \<Rightarrow>
            if slow_ms \<le> elapsed then log_req LogWarn (slow_request_fields elapsed req reply) ''slow request'' req
            else req)"

lemma logging_plugin_ok_iff:
  "(\<exists>h. logging_plugin env config = Inr h) \<longleftrightarrow>
     (case env ''LOG_REQUEST_STYLE'' of None \<Rightarrow> True
      | Some raw \<Rightarrow> raw \<in> {[], ''fastify'', ''single'', ''off''})"
  by (auto simp: logging_plugin_def env_enum_def split: option.split)

subsection \<open>Concrete traffic\<close>

theorem metrics_bounded_witness:
  "requests_total (observe_all [\<lparr>obs_elapsed = 5, obs_request = sample_request ''BREW'' [],
        obs_reply = fresh_reply\<rparr>] \<lparr>requests_total = (\<lambda>_. 0), durations = []\<rparr>)
      \<lparr>label_method = ''OTHER'', label_route = ''/api/public/*'', label_status = ''200''\<rparr> = 1"
proof -
  let ?ob = "\<lparr>obs_elapsed = 5, obs_request = sample_request ''BREW'' [], obs_reply = fresh_reply\<rparr>"
  let ?l = "\<lparr>label_method = ''OTHER'', label_route = ''/api/public/*'', label_status = ''200''\<rparr>"
  have "show_nat 200 = ''200''" by code_simp
  then have "obs_labels ?ob = ?l"
    by (simp add: obs_labels_def request_labels_def sample_request_def known_http_methods_def
        other_method_label_def fresh_reply_def)
  moreover have "requests_total (observe_all [?ob] \<lparr>requests_total = (\<lambda>_. 0), durations = []\<rparr>) ?l
      = length (filter (\<lambda>ob. obs_labels ob = ?l) [?ob])"
    using metrics_bounded [of "{''/api/public/*''}" "{200}" "[?ob]" ?l]
    by (simp add: sample_request_def fresh_reply_def)
  ultimately show ?thesis by simp
qed

theorem metrics_need_token_witness:
  "sent (metrics_route (\<lambda>b. b) (\<lambda>_. ''# metrics'') ''text/plain'' ''t0ken''
      \<lparr>requests_total = (\<lambda>_. 0), durations = []\<rparr>
      (sample_request ''GET'' [(HdrAuthorization, ''Bearer t0ken'')]) fresh_reply)
    = Some (TextPayload ''# metrics'')"
proof -
  let ?req = "sample_request ''GET'' [(HdrAuthorization, ''Bearer t0ken'')]"
  have b: "parse_bearer_token (Some ''Bearer t0ken'') = Some ''t0ken''" by code_simp
  have n: "no_collision (\<lambda>b. b) x y" for x y by (simp add: no_collision_def)
  have "parse_bearer_token (string_header (req_header ?req HdrAuthorization)) = Some ''t0ken''"
    by (simp add: b)
  with metrics_need_token [of "''t0ken''" fresh_reply ?req "\<lambda>b. b" "\<lambda>_. ''# metrics''" "''text/plain''"
      "\<lparr>requests_total = (\<lambda>_. 0), durations = []\<rparr>"] n
  show ?thesis by (simp del: sample_request_header)
qed

end
