(* ===== verification/Server.thy ===== *)
theory Server
  imports Observability "HOL-Library.Sublist"
begin

section \<open>The process: boot, signals, shutdown\<close>

text \<open>
  \<open>server.ts\<close>, \<open>otel.ts\<close> and the flushing of the log destinations in \<open>config/logger.ts\<close>.

  The process is a state machine. What happens outside the handlers arrives as an event: a signal,
  the settling of \<open>app.close()\<close> and the \<open>onClose\<close> hooks it runs, the settling of the OpenTelemetry
  shutdown or of \<open>app.listen()\<close>, a log line
  of a request, the passing of time. \<open>react\<close> is what the code does on an event; \<open>None\<close> means that
  the event cannot happen in that state. A timer fires at its time, not later: the event loop is
  not blocked. \<open>process.once\<close> removes its listener when it fires, and a signal without a listener
  kills the process (Node's default). The exit of a process whose event loop runs dry
  while a close is pending is not modelled.
\<close>

subsection \<open>Log destinations\<close>

text \<open>\<open>stream.flushSync?.()\<close>: a stream may have no such method, and a destroyed one throws.\<close>

datatype flush_sync = NoFlushSync | FlushSync | FlushThrows

record destination =
  buffered :: bool
  flush_sync :: flush_sync
  pending :: "string list"
  written :: "string list"

definition flush_stream :: "destination \<Rightarrow> destination result" where
  "flush_stream d = (case flush_sync d of
     NoFlushSync \<Rightarrow> Inr d
   | FlushSync \<Rightarrow> Inr (d\<lparr>written := written d @ pending d, pending := []\<rparr>)
   | FlushThrows \<Rightarrow> Inl (Error ''stream destroyed''))"

text \<open>Best effort: a stream that throws is skipped.\<close>

definition flush_log_destinations :: "destination list \<Rightarrow> destination list" where
  "flush_log_destinations = map (\<lambda>d. case flush_stream d of Inl _ \<Rightarrow> d | Inr d' \<Rightarrow> d')"

definition write_line :: "string \<Rightarrow> destination \<Rightarrow> destination" where
  "write_line line d =
     (if buffered d then d\<lparr>pending := pending d @ [line]\<rparr> else d\<lparr>written := written d @ [line]\<rparr>)"

definition stream_destination :: "log_stream \<Rightarrow> destination" where
  "stream_destination s =
     \<lparr>buffered = (s \<noteq> StdoutSync), flush_sync = FlushSync, pending = [], written = []\<rparr>"

subsection \<open>The state\<close>

datatype signal = SIGINT | SIGTERM

text \<open>The handler of a signal: still armed, waiting for \<open>app.close()\<close>, or for the OpenTelemetry
  SDK; with the time its deadline timer fires.\<close>

datatype handler = Armed | Closing nat | StoppingOtel nat

datatype exit_reason = ExitCode nat | KilledBy signal

record server_setup =
  shutdown_timeout :: js_number
  otel_started :: bool
  log_enabled :: "log_level \<Rightarrow> bool"

record server =
  now :: nat
  app_state :: instance_state
  listening :: bool
  handlers :: "signal \<Rightarrow> handler"
  destinations :: "destination list"
  ended :: "exit_reason option"

datatype event = Signal signal | CloseSettled signal bool | OtelSettled signal bool
  | OnClose | ListenSettled bool | RequestLog string | Tick nat

text \<open>\<open>setTimeout\<close> runs a delay outside \<open>1 .. 2^31 - 1\<close> after one millisecond.\<close>

definition max_timer_delay :: int where
  "max_timer_delay = 2 ^ 31 - 1"

definition timer_delay :: "js_number \<Rightarrow> nat" where
  "timer_delay v = (case v of
     Decimal m e \<Rightarrow> if number_less v 1 \<or> number_greater v max_timer_delay then 1
       else nat (decimal_int m e)
   | _ \<Rightarrow> 1)"

definition app_log :: "server_setup \<Rightarrow> log_level \<Rightarrow> string \<Rightarrow> server \<Rightarrow> server" where
  "app_log cfg lv line s =
     (if log_enabled cfg lv then s\<lparr>destinations := map (write_line line) (destinations s)\<rparr> else s)"

definition process_exit :: "nat \<Rightarrow> server \<Rightarrow> server" where
  "process_exit code s = s\<lparr>ended := Some (ExitCode code)\<rparr>"

definition flush_logs :: "server \<Rightarrow> server" where
  "flush_logs s = s\<lparr>destinations := flush_log_destinations (destinations s)\<rparr>"

definition set_handler :: "signal \<Rightarrow> handler \<Rightarrow> server \<Rightarrow> server" where
  "set_handler sig h s = s\<lparr>handlers := (handlers s)(sig := h)\<rparr>"

subsection \<open>The handlers\<close>

definition begin_shutdown :: "server_setup \<Rightarrow> signal \<Rightarrow> server \<Rightarrow> server" where
  "begin_shutdown cfg sig s =
     (let s = app_log cfg LogInfo ''shutting down'' s;
          s = s\<lparr>app_state := (app_state s)\<lparr>shutting_down := True\<rparr>\<rparr>
      in set_handler sig (Closing (now s + timer_delay (shutdown_timeout cfg))) s)"

definition shutdown_deadline :: "server_setup \<Rightarrow> server \<Rightarrow> server" where
  "shutdown_deadline cfg s =
     process_exit 1 (flush_logs (app_log cfg LogError ''shutdown deadline exceeded, exiting'' s))"

definition shutdown_done :: "server \<Rightarrow> server" where
  "shutdown_done s = process_exit 0 (flush_logs s)"

definition shutdown_failed :: "server_setup \<Rightarrow> server \<Rightarrow> server" where
  "shutdown_failed cfg s =
     process_exit 1 (flush_logs (app_log cfg LogError ''error during shutdown'' s))"

definition close_settled :: "server_setup \<Rightarrow> signal \<Rightarrow> nat \<Rightarrow> bool \<Rightarrow> server \<Rightarrow> server" where
  "close_settled cfg sig deadline ok s =
     (if \<not> ok then shutdown_failed cfg s
      else if otel_started cfg then set_handler sig (StoppingOtel deadline) s
      else shutdown_done s)"

text \<open>The \<open>onClose\<close> hook of the logging plugin, which runs while \<open>app.close()\<close> is pending.\<close>

definition logging_on_close :: "server \<Rightarrow> server" where
  "logging_on_close s = flush_logs s"

definition otel_settled :: "server_setup \<Rightarrow> bool \<Rightarrow> server \<Rightarrow> server" where
  "otel_settled cfg ok s = (if ok then shutdown_done s else shutdown_failed cfg s)"

definition listen_settled :: "server_setup \<Rightarrow> bool \<Rightarrow> server \<Rightarrow> server" where
  "listen_settled cfg ok s =
     (if ok then s\<lparr>listening := True\<rparr>
      else process_exit 1 (flush_logs (app_log cfg LogError ''listen failed'' s)))"

subsection \<open>Events\<close>

fun deadline_of :: "handler \<Rightarrow> nat option" where
  "deadline_of Armed = None"
| "deadline_of (Closing d) = Some d"
| "deadline_of (StoppingOtel d) = Some d"

definition deadlines :: "server \<Rightarrow> nat list" where
  "deadlines s = List.map_filter (\<lambda>sig. deadline_of (handlers s sig)) [SIGINT, SIGTERM]"

text \<open>Time passes up to the first deadline timer that fires.\<close>

definition pass_time :: "server_setup \<Rightarrow> nat \<Rightarrow> server \<Rightarrow> server" where
  "pass_time cfg d s =
     (case filter (\<lambda>t. t \<le> now s + d) (deadlines s) of
        [] \<Rightarrow> s\<lparr>now := now s + d\<rparr>
      | t # ts \<Rightarrow> shutdown_deadline cfg (s\<lparr>now := foldr min ts t\<rparr>))"

fun react :: "server_setup \<Rightarrow> event \<Rightarrow> server \<Rightarrow> server option" where
  "react cfg (Tick d) s = Some (if ended s = None then pass_time cfg d s else s)"
| "react cfg (Signal sig) s =
     (if ended s \<noteq> None then None
      else Some (if handlers s sig = Armed then begin_shutdown cfg sig s
                 else s\<lparr>ended := Some (KilledBy sig)\<rparr>))"
| "react cfg (CloseSettled sig ok) s =
     (if ended s \<noteq> None then None
      else case handlers s sig of Closing deadline \<Rightarrow> Some (close_settled cfg sig deadline ok s)
        | _ \<Rightarrow> None)"
| "react cfg (OtelSettled sig ok) s =
     (if ended s \<noteq> None then None
      else case handlers s sig of StoppingOtel deadline \<Rightarrow> Some (otel_settled cfg ok s)
        | _ \<Rightarrow> None)"
| "react cfg OnClose s =
     (if ended s \<noteq> None \<or> (\<forall>sig \<in> {SIGINT, SIGTERM}. case handlers s sig of Closing _ \<Rightarrow> False | _ \<Rightarrow> True)
      then None else Some (logging_on_close s))"
| "react cfg (ListenSettled ok) s =
     (if ended s \<noteq> None \<or> listening s then None else Some (listen_settled cfg ok s))"
| "react cfg (RequestLog line) s =
     (if ended s \<noteq> None then None
      else Some (s\<lparr>destinations := map (write_line line) (destinations s)\<rparr>))"

text \<open>A run of the process: the events that happened, in order.\<close>

inductive runs :: "server_setup \<Rightarrow> server \<Rightarrow> event list \<Rightarrow> server \<Rightarrow> bool" for cfg where
  runs_start: "runs cfg s [] s"
| runs_event: "runs cfg s es s' \<Longrightarrow> react cfg e s' = Some s'' \<Longrightarrow> runs cfg s (es @ [e]) s''"

subsection \<open>Boot\<close>

record otel_setup =
  otel_service_name :: string
  otel_instrumentations :: "string list"

definition otel_setup_of :: "environment \<Rightarrow> otel_setup" where
  "otel_setup_of env =
     \<lparr>otel_service_name = env_or env ''OTEL_SERVICE_NAME'' ''fastify-gateway'',
      otel_instrumentations = [''http'', ''undici'', ''fastify'']\<rparr>"

text \<open>The SDK is a parameter: what starting it on a configuration gives.\<close>

definition start_otel :: "(otel_setup \<Rightarrow> unit result) \<Rightarrow> environment \<Rightarrow> unit result" where
  "start_otel sdk env = sdk (otel_setup_of env)"

definition booted :: "destination list \<Rightarrow> server" where
  "booted ds = \<lparr>now = 0, app_state = \<lparr>shutting_down = False, under_pressure = False\<rparr>,
     listening = False, handlers = (\<lambda>_. Armed), destinations = ds, ended = None\<rparr>"

text \<open>\<open>build\<close> is \<open>buildApp()\<close> and \<open>app.ready()\<close>, with the log destinations of the application. An
  error before the signal handlers exist ends the process with Node's report of it.\<close>

definition server_boot ::
    "(otel_setup \<Rightarrow> unit result) \<Rightarrow> (environment \<Rightarrow> ('app \<times> log_target) result)
       \<Rightarrow> (log_level \<Rightarrow> bool) \<Rightarrow> environment \<Rightarrow> ('app \<times> server_setup \<times> server) result" where
  "server_boot sdk build enabled env =
     bind_result (env_number env ''SHUTDOWN_TIMEOUT_MS'' 10000 1) (\<lambda>timeout.
     bind_result (env_boolean env ''OTEL_ENABLED'' False) (\<lambda>otel.
     bind_result (if otel then start_otel sdk env else Inr ()) (\<lambda>_.
     bind_result (build env) (\<lambda>(app, target).
       Inr (app, \<lparr>shutdown_timeout = timeout, otel_started = otel, log_enabled = enabled\<rparr>,
            booted (map stream_destination (active_destinations target)))))))"

subsection \<open>What each operation touches\<close>

lemma flush_destination:
  assumes "d \<in> set (flush_log_destinations ds)"
  obtains d' where "d' \<in> set ds" and "flush_sync d = flush_sync d'"
    and "written d @ pending d = written d' @ pending d'"
    and "flush_sync d = FlushSync \<Longrightarrow> pending d = []"
  using assms that
  by (fastforce simp: flush_log_destinations_def flush_stream_def split: flush_sync.splits)

lemma set_write_line:
  "set (written (write_line l d)) \<union> set (pending (write_line l d))
     = insert l (set (written d) \<union> set (pending d))"
  by (auto simp: write_line_def)

lemma log_simps [simp]:
  "now (app_log cfg lv l s) = now s"
  "app_state (app_log cfg lv l s) = app_state s"
  "listening (app_log cfg lv l s) = listening s"
  "handlers (app_log cfg lv l s) = handlers s"
  "ended (app_log cfg lv l s) = ended s"
  by (simp_all add: app_log_def)

lemma flush_simps [simp]:
  "now (flush_logs s) = now s" "app_state (flush_logs s) = app_state s"
  "listening (flush_logs s) = listening s" "handlers (flush_logs s) = handlers s"
  "ended (flush_logs s) = ended s"
  by (simp_all add: flush_logs_def)

lemma exit_simps [simp]:
  "now (process_exit n s) = now s" "app_state (process_exit n s) = app_state s"
  "listening (process_exit n s) = listening s" "handlers (process_exit n s) = handlers s"
  "ended (process_exit n s) = Some (ExitCode n)" "destinations (process_exit n s) = destinations s"
  by (simp_all add: process_exit_def)

lemma handler_simps [simp]:
  "now (set_handler sig h s) = now s" "app_state (set_handler sig h s) = app_state s"
  "listening (set_handler sig h s) = listening s" "ended (set_handler sig h s) = ended s"
  "handlers (set_handler sig h s) = (handlers s)(sig := h)"
  "destinations (set_handler sig h s) = destinations s"
  by (simp_all add: set_handler_def)

lemma begin_shutdown_simps [simp]:
  "now (begin_shutdown cfg sig s) = now s"
  "shutting_down (app_state (begin_shutdown cfg sig s)) = True"
  "ended (begin_shutdown cfg sig s) = ended s"
  "handlers (begin_shutdown cfg sig s)
     = (handlers s)(sig := Closing (now s + timer_delay (shutdown_timeout cfg)))"
  by (simp_all add: begin_shutdown_def Let_def)

lemmas exit_ops = shutdown_deadline_def shutdown_done_def shutdown_failed_def logging_on_close_def
lemmas settle_ops = close_settled_def otel_settled_def listen_settled_def

lemma timer_delay_pos: "0 < timer_delay v"
proof (cases v)
  case (Decimal m e)
  show ?thesis
  proof (cases "number_less v 1 \<or> number_greater v max_timer_delay")
    case False
    then have "1 \<le> decimal_int m e"
      by (auto simp: Decimal decimal_less_def decimal_int_def pos_imp_zdiv_pos_iff int_one_le_iff_zero_less
          split: if_splits)
    then show ?thesis using False by (simp add: timer_delay_def Decimal)
  qed (simp add: timer_delay_def Decimal)
qed (simp_all add: timer_delay_def)

subsection \<open>Steps\<close>

inductive_cases runs_snocE: "runs cfg s (es @ [e]) s'"
inductive_cases runs_NilE: "runs cfg s [] s'"

lemma react_ended: "react cfg e s = Some s' \<Longrightarrow> ended s \<noteq> None \<Longrightarrow> (\<exists>d. e = Tick d) \<and> s' = s"
  by (cases e) (auto split: if_splits)

text \<open>A step of a live process: one case per event, the settling events split by their outcome.\<close>

lemma react_live:
  assumes "react cfg e s = Some s'" and "ended s = None"
  obtains (tick) d where "e = Tick d" and "s' = pass_time cfg d s"
  | (first) sig where "e = Signal sig" and "handlers s sig = Armed" and "s' = begin_shutdown cfg sig s"
  | (again) sig where "e = Signal sig" and "handlers s sig \<noteq> Armed"
      and "s' = s\<lparr>ended := Some (KilledBy sig)\<rparr>"
  | (failed) sig where "handlers s sig \<noteq> Armed" and "s' = shutdown_failed cfg s"
      and "e = CloseSettled sig False \<or> e = OtelSettled sig False"
  | (stopping) sig d where "e = CloseSettled sig True" and "handlers s sig = Closing d"
      and "otel_started cfg" and "s' = set_handler sig (StoppingOtel d) s"
  | (closed) sig d where "e = CloseSettled sig True" and "handlers s sig = Closing d"
      and "\<not> otel_started cfg" and "s' = shutdown_done s"
  | (stopped) sig d where "e = OtelSettled sig True" and "handlers s sig = StoppingOtel d"
      and "s' = shutdown_done s"
  | (closing) "e = OnClose" and "s' = logging_on_close s"
  | (listening) "e = ListenSettled True" and "s' = s\<lparr>listening := True\<rparr>"
  | (refused) "e = ListenSettled False"
      and "s' = process_exit 1 (flush_logs (app_log cfg LogError ''listen failed'' s))"
  | (logged) line where "e = RequestLog line"
      and "s' = s\<lparr>destinations := map (write_line line) (destinations s)\<rparr>"
proof (cases e)
  case (Signal sig)
  show ?thesis
  proof (cases "handlers s sig = Armed")
    case True show ?thesis by (rule first [OF Signal True]) (use assms Signal True in simp)
  next
    case False show ?thesis by (rule again [OF Signal False]) (use assms Signal False in simp)
  qed
next
  case (CloseSettled sig ok)
  with assms obtain d where d: "handlers s sig = Closing d" and s': "s' = close_settled cfg sig d ok s"
    by (auto split: handler.splits)
  show ?thesis
  proof (cases ok)
    case False
    show ?thesis by (rule failed [of sig]) (use False CloseSettled d s' in \<open>simp_all add: close_settled_def\<close>)
  next
    case True
    show ?thesis
    proof (cases "otel_started cfg")
      case True
      show ?thesis by (rule stopping [OF _ d True]) (use \<open>ok\<close> True CloseSettled s' in \<open>simp_all add: close_settled_def\<close>)
    next
      case False
      show ?thesis by (rule closed [OF _ d False]) (use \<open>ok\<close> False CloseSettled s' in \<open>simp_all add: close_settled_def\<close>)
    qed
  qed
next
  case (OtelSettled sig ok)
  with assms obtain d where d: "handlers s sig = StoppingOtel d" and s': "s' = otel_settled cfg ok s"
    by (auto split: handler.splits)
  show ?thesis
  proof (cases ok)
    case True
    show ?thesis by (rule stopped [OF _ d]) (use True OtelSettled s' in \<open>simp_all add: otel_settled_def\<close>)
  next
    case False
    show ?thesis by (rule failed [of sig]) (use False OtelSettled d s' in \<open>simp_all add: otel_settled_def\<close>)
  qed
next
  case OnClose
  show ?thesis by (rule closing [OF OnClose]) (use assms OnClose in \<open>simp split: if_splits\<close>)
next
  case (ListenSettled ok)
  with assms have s': "s' = listen_settled cfg ok s" by (auto split: if_splits)
  show ?thesis
  proof (cases ok)
    case True
    show ?thesis by (rule listening) (use True ListenSettled s' in \<open>simp_all add: listen_settled_def\<close>)
  next
    case False
    show ?thesis by (rule refused) (use False ListenSettled s' in \<open>simp_all add: listen_settled_def\<close>)
  qed
next
  case (RequestLog line)
  show ?thesis by (rule logged [OF RequestLog]) (use assms RequestLog in simp)
next
  case (Tick d)
  show ?thesis by (rule tick [OF Tick]) (use assms Tick in simp)
qed

text \<open>Time passes without any deadline, or the first one fires and the process exits with 1.\<close>

lemma pass_time_cases:
  obtains (quiet) "\<forall>t \<in> set (deadlines s). now s + d < t" and "pass_time cfg d s = s\<lparr>now := now s + d\<rparr>"
  | (fires) t where "\<forall>u \<in> set (deadlines s). t \<le> u" and "t \<in> set (deadlines s)" and "t \<le> now s + d"
      and "pass_time cfg d s = shutdown_deadline cfg (s\<lparr>now := t\<rparr>)"
proof (cases "filter (\<lambda>t. t \<le> now s + d) (deadlines s)")
  case Nil
  then show ?thesis using quiet by (force simp: pass_time_def filter_empty_conv)
next
  case (Cons t ts)
  have m: "foldr min ts t = Min (set (t # ts))"
    by (induction ts) (auto simp: min.commute min.left_commute insert_commute)
  have due: "set (t # ts) = {u \<in> set (deadlines s). u \<le> now s + d}"
    using Cons by (metis set_filter)
  have "foldr min ts t \<in> {u \<in> set (deadlines s). u \<le> now s + d}"
    unfolding m due [symmetric] by (rule Min_in) auto
  moreover have "foldr min ts t \<le> u" if "u \<in> set (deadlines s)" for u
  proof (cases "u \<le> now s + d")
    case True then show ?thesis unfolding m using that due by (intro Min_le) auto
  qed (use calculation in auto)
  ultimately show ?thesis using fires [of "foldr min ts t"] Cons by (auto simp: pass_time_def)
qed

lemma deadline_mem: "deadline_of (handlers s sig) = Some d \<Longrightarrow> d \<in> set (deadlines s)"
  by (cases sig) (auto simp: deadlines_def List.map_filter_def)

lemma deadlines_mem: "d \<in> set (deadlines s) \<Longrightarrow> \<exists>sig. deadline_of (handlers s sig) = Some d"
  by (auto simp: deadlines_def List.map_filter_def split: if_splits)

subsection \<open>Who may exit with 0\<close>

definition completed :: "server_setup \<Rightarrow> signal \<Rightarrow> event list" where
  "completed cfg sig = [Signal sig, CloseSettled sig True]
     @ (if otel_started cfg then [OtelSettled sig True] else [])"

definition graceful_inv :: "server_setup \<Rightarrow> event list \<Rightarrow> server \<Rightarrow> bool" where
  "graceful_inv cfg es s \<longleftrightarrow>
     (\<forall>sig d. handlers s sig = Closing d \<longrightarrow> subseq [Signal sig] es)
     \<and> (\<forall>sig d. handlers s sig = StoppingOtel d \<longrightarrow>
          otel_started cfg \<and> subseq [Signal sig, CloseSettled sig True] es)
     \<and> (ended s = Some (ExitCode 0) \<longrightarrow> (\<exists>sig. subseq (completed cfg sig) es))"

lemma subseq_snoc: "subseq xs es \<Longrightarrow> subseq (xs @ [e]) (es @ [e])"
  by (rule list_emb_append_mono) auto

lemma subseq_snoc_skip: "subseq xs es \<Longrightarrow> subseq xs (es @ [e])"
  by (rule list_emb_prefix)

lemma pass_time_graceful:
  "handlers (pass_time cfg d s) = handlers s"
  "ended s = None \<Longrightarrow> ended (pass_time cfg d s) \<noteq> Some (ExitCode 0)"
proof -
  show "handlers (pass_time cfg d s) = handlers s"
    by (cases rule: pass_time_cases [of s d cfg]) (simp_all add: exit_ops)
  show "ended (pass_time cfg d s) \<noteq> Some (ExitCode 0)" if "ended s = None"
    using that by (cases rule: pass_time_cases [of s d cfg]) (simp_all add: exit_ops)
qed

lemma graceful_step:
  assumes inv: "graceful_inv cfg es s" and step: "react cfg e s = Some s'"
  shows "graceful_inv cfg (es @ [e]) s'"
proof (cases "ended s")
  case (Some r)
  with react_ended [OF step] inv show ?thesis by (auto simp: graceful_inv_def intro: subseq_snoc_skip)
next
  case None
  note skip = subseq_snoc_skip [where es = es and e = e]
  from step None show ?thesis
  proof (cases rule: react_live)
    case (stopping sig d)
    then have "subseq [Signal sig] es" using inv by (simp add: graceful_inv_def)
    from subseq_snoc [OF this, of e] stopping inv None show ?thesis
      by (auto simp: graceful_inv_def intro: skip)
  next
    case (closed sig d)
    then have "subseq [Signal sig] es" using inv by (simp add: graceful_inv_def)
    from subseq_snoc [OF this, of e] closed have "subseq (completed cfg sig) (es @ [e])"
      by (simp add: completed_def)
    with closed inv show ?thesis by (auto simp: graceful_inv_def exit_ops intro: skip)
  next
    case (stopped sig d)
    then have "otel_started cfg" "subseq [Signal sig, CloseSettled sig True] es"
      using inv by (auto simp: graceful_inv_def)
    from subseq_snoc [OF this(2), of e] this(1) stopped have "subseq (completed cfg sig) (es @ [e])"
      by (simp add: completed_def)
    with stopped inv show ?thesis by (auto simp: graceful_inv_def exit_ops intro: skip)
  qed (use inv None pass_time_graceful in
      \<open>auto simp: graceful_inv_def exit_ops intro: skip\<close>)
qed

lemma runs_graceful: "runs cfg (booted ds) es s \<Longrightarrow> graceful_inv cfg es s"
proof (induction "booted ds" es s rule: runs.induct)
  case runs_start
  show ?case by (simp add: graceful_inv_def booted_def)
next
  case (runs_event es s' e s'')
  then show ?case by (blast intro: graceful_step)
qed

text \<open>C20. Exit code 0 means a graceful shutdown: in every run of the process that ends with
  \<open>process.exit(0)\<close>, some signal was handled, after it \<open>app.close()\<close> of that handler succeeded, and
  after that, when OpenTelemetry runs, its shutdown succeeded too.\<close>
theorem exit_zero_graceful:
  assumes "runs cfg (booted ds) es s" and "ended s = Some (ExitCode 0)"
  shows "\<exists>sig. subseq ([Signal sig, CloseSettled sig True]
    @ (if otel_started cfg then [OtelSettled sig True] else [])) es"
  using runs_graceful [OF assms(1)] assms(2) by (simp add: graceful_inv_def completed_def)

subsection \<open>Draining\<close>

lemma pass_time_state [simp]: "app_state (pass_time cfg d s) = app_state s"
  by (cases rule: pass_time_cases [of s d cfg]) (simp_all add: exit_ops)

lemma armed_serving:
  assumes "runs cfg (booted ds) es s"
  shows "((\<exists>sig. handlers s sig \<noteq> Armed) \<longleftrightarrow> shutting_down (app_state s))
    \<and> ((\<exists>sig. Signal sig \<in> set es) \<longleftrightarrow> shutting_down (app_state s))"
  using assms
proof (induction "booted ds" es s rule: runs.induct)
  case runs_start
  show ?case by (simp add: booted_def)
next
  case (runs_event es s' e s'')
  show ?case
  proof (cases "ended s'")
    case (Some r)
    with react_ended [OF runs_event(3)] runs_event(2) show ?thesis by auto
  next
    case None
    from runs_event(3) None runs_event(2) show ?thesis
      by (cases rule: react_live) (auto simp: exit_ops pass_time_graceful(1))
  qed
qed

text \<open>C38. The instance drains from the first signal on: in every run, \<open>shuttingDown\<close> is set exactly
  when a signal has been handled, nothing takes it back, and from then on the readiness probe
  answers 503, whatever the load; before, it depends on the load alone.\<close>
theorem draining_from_first_signal:
  assumes "runs cfg (booted ds) es s"
  shows "status_code (readyz (app_state s) fresh_reply) =
      (if (\<exists>sig. Signal sig \<in> set es) \<or> under_pressure (app_state s) then 503 else 200)"
  using armed_serving [OF assms] by (simp add: readyz_status)

subsection \<open>The deadline\<close>

definition elapsed :: "event list \<Rightarrow> nat" where
  "elapsed es = sum_list (map (\<lambda>e. case e of Tick d \<Rightarrow> d | _ \<Rightarrow> 0) es)"

lemma elapsed_simps [simp]:
  "elapsed [] = 0" "elapsed (es @ es') = elapsed es + elapsed es'"
  "elapsed (e # es) = (case e of Tick d \<Rightarrow> d | _ \<Rightarrow> 0) + elapsed es"
  by (simp_all add: elapsed_def)

definition clock_inv :: "server_setup \<Rightarrow> event list \<Rightarrow> server \<Rightarrow> bool" where
  "clock_inv cfg es s \<longleftrightarrow>
     (ended s = None \<longrightarrow> now s = elapsed es) \<and> now s \<le> elapsed es
     \<and> (\<forall>es1 sig es2. es = es1 @ Signal sig # es2 \<longrightarrow>
          now s \<le> elapsed es1 + timer_delay (shutdown_timeout cfg)
          \<and> (ended s = None \<longrightarrow> (\<exists>d. deadline_of (handlers s sig) = Some d \<and> now s < d
               \<and> d \<le> elapsed es1 + timer_delay (shutdown_timeout cfg))))"

lemma snoc_decomp:
  assumes "es @ [e] = es1 @ x # es2"
  obtains "e = x" "es1 = es" "es2 = []" | es2' where "es2 = es2' @ [e]" "es = es1 @ x # es2'"
  using assms by (cases es2 rule: rev_cases) auto

lemma clock_tick:
  assumes inv: "clock_inv cfg es s" and "ended s = None"
  shows "clock_inv cfg (es @ [Tick d]) (pass_time cfg d s)"
proof (cases rule: pass_time_cases [of s d cfg])
  case quiet
  have "clock_inv cfg (es @ [Tick d]) (s\<lparr>now := now s + d\<rparr>)"
    unfolding clock_inv_def
  proof (intro conjI allI impI)
    fix es1 sig es2
    assume "es @ [Tick d] = es1 @ Signal sig # es2"
    then obtain es2' where "es = es1 @ Signal sig # es2'" by (rule snoc_decomp) auto
    with inv assms(2) obtain t where t: "deadline_of (handlers s sig) = Some t"
      "t \<le> elapsed es1 + timer_delay (shutdown_timeout cfg)"
      unfolding clock_inv_def by blast
    from t quiet(1) deadline_mem [OF t(1)] have "now s + d < t" by blast
    with t show "now (s\<lparr>now := now s + d\<rparr>) \<le> elapsed es1 + timer_delay (shutdown_timeout cfg)"
      "\<exists>t. deadline_of (handlers (s\<lparr>now := now s + d\<rparr>) sig) = Some t \<and> now (s\<lparr>now := now s + d\<rparr>) < t
        \<and> t \<le> elapsed es1 + timer_delay (shutdown_timeout cfg)" by auto
  qed (use inv assms(2) in \<open>auto simp: clock_inv_def\<close>)
  with quiet(2) show ?thesis by simp
next
  case (fires t)
  let ?s = "shutdown_deadline cfg (s\<lparr>now := t\<rparr>)"
  have [simp]: "now ?s = t" "ended ?s \<noteq> None" by (simp_all add: exit_ops)
  have "clock_inv cfg (es @ [Tick d]) ?s"
    unfolding clock_inv_def
  proof (intro conjI allI impI)
    fix es1 sig es2
    assume "es @ [Tick d] = es1 @ Signal sig # es2"
    then obtain es2' where "es = es1 @ Signal sig # es2'" by (rule snoc_decomp) auto
    with inv assms(2) obtain u where u: "deadline_of (handlers s sig) = Some u"
      "u \<le> elapsed es1 + timer_delay (shutdown_timeout cfg)"
      unfolding clock_inv_def by blast
    from fires(1) deadline_mem [OF u(1)] u(2)
    show "now ?s \<le> elapsed es1 + timer_delay (shutdown_timeout cfg)" by auto
  qed (use inv assms(2) fires in \<open>auto simp: clock_inv_def\<close>)
  with fires(4) show ?thesis by simp
qed

text \<open>Any other event leaves the clock and the deadlines that were set.\<close>

lemma clock_keep:
  assumes inv: "clock_inv cfg es s" and live: "ended s = None" and "\<forall>sig. e \<noteq> Signal sig"
    and "elapsed [e] = 0" and "now s' = now s"
    and "\<forall>sig. deadline_of (handlers s' sig) = deadline_of (handlers s sig)"
  shows "clock_inv cfg (es @ [e]) s'"
  unfolding clock_inv_def
proof (intro conjI allI impI)
  fix es1 sig es2
  assume "es @ [e] = es1 @ Signal sig # es2"
  then obtain es2' where "es = es1 @ Signal sig # es2'"
    by (rule snoc_decomp) (use assms(3) in auto)
  with inv live have "now s \<le> elapsed es1 + timer_delay (shutdown_timeout cfg)
    \<and> (\<exists>d. deadline_of (handlers s sig) = Some d \<and> now s < d
      \<and> d \<le> elapsed es1 + timer_delay (shutdown_timeout cfg))"
    unfolding clock_inv_def by blast
  with assms(5,6) show "now s' \<le> elapsed es1 + timer_delay (shutdown_timeout cfg)"
    "\<exists>d. deadline_of (handlers s' sig) = Some d \<and> now s' < d
      \<and> d \<le> elapsed es1 + timer_delay (shutdown_timeout cfg)" by simp_all
qed (use assms in \<open>auto simp: clock_inv_def\<close>)

text \<open>An event that ends the process at its own time.\<close>

lemma clock_end:
  assumes inv: "clock_inv cfg es s" and live: "ended s = None" and "elapsed [e] = 0"
    and "now s' = now s" and "ended s' \<noteq> None"
  shows "clock_inv cfg (es @ [e]) s'"
  unfolding clock_inv_def
proof (intro conjI allI impI)
  fix es1 sig es2
  assume "es @ [e] = es1 @ Signal sig # es2"
  then show "now s' \<le> elapsed es1 + timer_delay (shutdown_timeout cfg)"
  proof (rule snoc_decomp)
    assume "es1 = es"
    with inv assms(4) show ?thesis by (simp add: clock_inv_def)
  next
    fix es2' assume "es = es1 @ Signal sig # es2'"
    with inv assms(4) show ?thesis unfolding clock_inv_def by fastforce
  qed
qed (use assms in \<open>auto simp: clock_inv_def\<close>)

lemma clock_signal:
  assumes inv: "clock_inv cfg es s" and live: "ended s = None" and "handlers s sig = Armed"
  shows "clock_inv cfg (es @ [Signal sig]) (begin_shutdown cfg sig s)"
  unfolding clock_inv_def
proof (intro conjI allI impI)
  let ?s = "begin_shutdown cfg sig s"
  fix es1 sig' es2
  assume "es @ [Signal sig] = es1 @ Signal sig' # es2"
  then have "now s \<le> elapsed es1 + timer_delay (shutdown_timeout cfg)
    \<and> (\<exists>d. deadline_of (handlers ?s sig') = Some d \<and> now s < d
      \<and> d \<le> elapsed es1 + timer_delay (shutdown_timeout cfg))"
  proof (rule snoc_decomp)
    assume "Signal sig = Signal sig'" "es1 = es"
    then show ?thesis using inv live timer_delay_pos [of "shutdown_timeout cfg"]
      by (simp add: clock_inv_def)
  next
    fix es2' assume e: "es = es1 @ Signal sig' # es2'"
    with inv live have "now s \<le> elapsed es1 + timer_delay (shutdown_timeout cfg)
      \<and> (\<exists>d. deadline_of (handlers s sig') = Some d \<and> now s < d
        \<and> d \<le> elapsed es1 + timer_delay (shutdown_timeout cfg))"
      unfolding clock_inv_def by blast
    moreover from this assms(3) have "sig' \<noteq> sig" by auto
    ultimately show ?thesis by simp
  qed
  then show "now ?s \<le> elapsed es1 + timer_delay (shutdown_timeout cfg)"
    "\<exists>d. deadline_of (handlers ?s sig') = Some d \<and> now ?s < d
      \<and> d \<le> elapsed es1 + timer_delay (shutdown_timeout cfg)" by simp_all
qed (use assms in \<open>auto simp: clock_inv_def\<close>)

lemma clock_ended:
  assumes "clock_inv cfg es s" and "ended s \<noteq> None"
  shows "clock_inv cfg (es @ [Tick d]) s"
  unfolding clock_inv_def
proof (intro conjI allI impI)
  fix es1 sig es2
  assume "es @ [Tick d] = es1 @ Signal sig # es2"
  then obtain es2' where "es = es1 @ Signal sig # es2'" by (rule snoc_decomp) auto
  with assms show "now s \<le> elapsed es1 + timer_delay (shutdown_timeout cfg)"
    unfolding clock_inv_def by fastforce
qed (use assms in \<open>auto simp: clock_inv_def\<close>)

lemma clock_step:
  assumes inv: "clock_inv cfg es s" and step: "react cfg e s = Some s'"
  shows "clock_inv cfg (es @ [e]) s'"
proof (cases "ended s")
  case (Some r)
  with react_ended [OF step] clock_ended [OF inv] show ?thesis by auto
next
  case None
  from step None show ?thesis
  proof (cases rule: react_live)
    case (tick d) then show ?thesis using clock_tick [OF inv None] by simp
  next
    case (first sig) then show ?thesis using clock_signal [OF inv None] by simp
  next
    case (stopping sig d)
    show ?thesis by (rule clock_keep [OF inv None]) (use stopping in \<open>auto\<close>)
  next
    case closing
    show ?thesis by (rule clock_keep [OF inv None]) (use closing in \<open>auto simp: exit_ops\<close>)
  next
    case listening
    show ?thesis by (rule clock_keep [OF inv None]) (use listening in \<open>auto\<close>)
  next
    case (logged line)
    show ?thesis by (rule clock_keep [OF inv None]) (use logged in \<open>auto\<close>)
  qed (rule clock_end [OF inv None]; auto simp: exit_ops)+
qed

lemma runs_clock: "runs cfg (booted ds) es s \<Longrightarrow> clock_inv cfg es s"
proof (induction "booted ds" es s rule: runs.induct)
  case runs_start
  show ?case by (simp add: clock_inv_def booted_def)
next
  case (runs_event es s' e s'')
  then show ?case by (blast intro: clock_step)
qed

text \<open>C3. Shutdown always terminates: whatever hangs (the close, the OpenTelemetry export, the log), and
  whatever else happens, a process that has received a signal has ended once the shutdown timeout
  has passed since, and it ends no later than that timeout. Time can always pass, so such runs exist
  from every state.\<close>
theorem shutdown_terminates:
  assumes "runs cfg (booted ds) (es1 @ Signal sig # es2) s"
    and "timer_delay (shutdown_timeout cfg) \<le> elapsed es2"
  shows "ended s \<noteq> None \<and> now s \<le> elapsed es1 + timer_delay (shutdown_timeout cfg)"
proof -
  have c: "now s \<le> elapsed es1 + timer_delay (shutdown_timeout cfg)"
    "ended s = None \<Longrightarrow> now s = elapsed (es1 @ Signal sig # es2)"
    "ended s = None \<Longrightarrow> \<exists>d. now s < d \<and> d \<le> elapsed es1 + timer_delay (shutdown_timeout cfg)"
    using runs_clock [OF assms(1)] unfolding clock_inv_def by blast+
  show ?thesis
  proof (cases "ended s")
    case None
    with c assms(2) show ?thesis by fastforce
  qed (use c(1) in simp)
qed

lemma time_passes: "runs cfg s0 es s \<Longrightarrow> \<exists>s'. runs cfg s0 (es @ [Tick d]) s'"
  by (rule exI, erule runs_event) simp

subsection \<open>No log line is lost\<close>

definition lines_of :: "destination \<Rightarrow> string set" where
  "lines_of d = set (written d) \<union> set (pending d)"

definition keeps_lines :: "server \<Rightarrow> server \<Rightarrow> bool" where
  "keeps_lines s s' \<longleftrightarrow>
     (\<forall>d \<in> set (destinations s'). \<exists>d' \<in> set (destinations s). lines_of d' \<subseteq> lines_of d)"

definition all_flushed :: "server \<Rightarrow> bool" where
  "all_flushed s \<longleftrightarrow> (\<forall>d \<in> set (destinations s). flush_sync d = FlushSync \<longrightarrow> pending d = [])"

lemma keeps_lines_same: "destinations s' = destinations s \<Longrightarrow> keeps_lines s s'"
  by (auto simp: keeps_lines_def)

lemma keeps_lines_trans: "keeps_lines s s' \<Longrightarrow> keeps_lines s' s'' \<Longrightarrow> keeps_lines s s''"
  unfolding keeps_lines_def by (meson order_trans)

lemma keeps_lines_write:
  "keeps_lines s (s\<lparr>destinations := map (write_line l) (destinations s)\<rparr>)"
  by (auto simp: keeps_lines_def lines_of_def write_line_def)

lemma keeps_lines_log: "keeps_lines s (app_log cfg lv l s)"
  using keeps_lines_write by (auto simp: app_log_def intro: keeps_lines_same)

lemma keeps_lines_flush: "keeps_lines s (flush_logs s)"
  unfolding keeps_lines_def flush_logs_def
proof
  fix d
  assume "d \<in> set (destinations (s\<lparr>destinations := flush_log_destinations (destinations s)\<rparr>))"
  then have "d \<in> set (flush_log_destinations (destinations s))" by simp
  then obtain d' where "d' \<in> set (destinations s)"
    and "written d @ pending d = written d' @ pending d'" by (rule flush_destination)
  moreover from this(2) have "lines_of d = lines_of d'"
    unfolding lines_of_def by (metis set_append)
  ultimately show "\<exists>d' \<in> set (destinations s). lines_of d' \<subseteq> lines_of d" by auto
qed

lemma all_flushed_flush: "all_flushed (flush_logs s)"
  by (auto simp: all_flushed_def flush_logs_def elim!: flush_destination)

lemma keeps_lines_exits:
  "keeps_lines s (process_exit n (flush_logs s))"
  "keeps_lines s (process_exit n (flush_logs (app_log cfg lv l s)))"
  "all_flushed (process_exit n (flush_logs s))"
proof -
  have e: "keeps_lines s (process_exit n s)" for s by (rule keeps_lines_same) simp
  show "keeps_lines s (process_exit n (flush_logs s))"
    by (rule keeps_lines_trans [OF keeps_lines_flush e])
  show "keeps_lines s (process_exit n (flush_logs (app_log cfg lv l s)))"
    by (rule keeps_lines_trans [OF keeps_lines_log keeps_lines_trans [OF keeps_lines_flush e]])
  show "all_flushed (process_exit n (flush_logs s))"
    using all_flushed_flush [of s] by (simp add: all_flushed_def)
qed

lemma destinations_simps [simp]:
  "destinations (s\<lparr>now := n\<rparr>) = destinations s" "destinations (s\<lparr>listening := b\<rparr>) = destinations s"
  "destinations (s\<lparr>ended := r\<rparr>) = destinations s"
  "destinations (set_handler sig h s) = destinations s"
  by simp_all

lemma live_step_lines:
  assumes "react cfg e s = Some s'" and "ended s = None"
  shows "keeps_lines s s' \<and> ((\<exists>n. ended s' = Some (ExitCode n)) \<longrightarrow> all_flushed s')"
  using assms
proof (cases rule: react_live)
  case (tick d)
  show ?thesis
  proof (cases rule: pass_time_cases [of s d cfg])
    case quiet then show ?thesis using tick assms(2) by (simp add: keeps_lines_same)
  next
    case (fires t)
    have "keeps_lines s (s\<lparr>now := t\<rparr>)" by (rule keeps_lines_same) simp
    then show ?thesis unfolding tick(2) fires(4) shutdown_deadline_def
      using keeps_lines_exits keeps_lines_trans by blast
  qed
next
  case (first sig)
  then have "destinations s' = destinations (app_log cfg LogInfo ''shutting down'' s)"
    by (simp add: begin_shutdown_def Let_def)
  then have "keeps_lines (app_log cfg LogInfo ''shutting down'' s) s'" by (rule keeps_lines_same)
  then show ?thesis using keeps_lines_trans [OF keeps_lines_log] assms(2) first by simp
next
  case (logged line) then show ?thesis using keeps_lines_write assms(2) by simp
qed (use assms(2) keeps_lines_exits keeps_lines_same keeps_lines_flush in \<open>auto simp: exit_ops\<close>)

lemma runs_lines:
  assumes "runs cfg (booted ds) es s"
  shows "(\<forall>line. RequestLog line \<in> set es \<longrightarrow> (\<forall>d \<in> set (destinations s). line \<in> lines_of d))
    \<and> ((\<exists>n. ended s = Some (ExitCode n)) \<longrightarrow> all_flushed s)"
  using assms
proof (induction "booted ds" es s rule: runs.induct)
  case runs_start
  show ?case by (simp add: booted_def)
next
  case (runs_event es s' e s'')
  show ?case
  proof (cases "ended s'")
    case (Some r)
    with react_ended [OF runs_event(3)] runs_event(2) show ?thesis by auto
  next
    case None
    from live_step_lines [OF runs_event(3) None]
    have keep: "keeps_lines s' s''" and flushed: "(\<exists>n. ended s'' = Some (ExitCode n)) \<longrightarrow> all_flushed s''"
      by blast+
    have old: "\<forall>d \<in> set (destinations s''). line \<in> lines_of d" if "RequestLog line \<in> set es" for line
      using keep runs_event(2) that unfolding keeps_lines_def by blast
    have new: "\<forall>d \<in> set (destinations s''). line \<in> lines_of d" if "e = RequestLog line" for line
      using runs_event(3) None that by (auto simp: lines_of_def write_line_def)
    from old new flushed show ?thesis by auto
  qed
qed

text \<open>C21. No exit loses a log line: when the process ends through \<open>process.exit\<close>, on any of its four
  paths (done, failed, deadline, refused port), every destination that can be flushed has nothing
  pending, and every line a request logged before is in what it wrote, even when another
  destination's flush throws.\<close>
theorem exits_flush_logs:
  assumes "runs cfg (booted ds) es s" and "ended s = Some (ExitCode n)"
    and "d \<in> set (destinations s)" and "flush_sync d = FlushSync"
  shows "pending d = [] \<and> (\<forall>line. RequestLog line \<in> set es \<longrightarrow> line \<in> set (written d))"
proof -
  from runs_lines [OF assms(1)] assms(2)
  have "all_flushed s" "\<forall>line. RequestLog line \<in> set es \<longrightarrow> line \<in> lines_of d"
    using assms(3) by blast+
  with assms(3,4) show ?thesis by (auto simp: all_flushed_def lines_of_def)
qed

subsection \<open>The life of an instance\<close>

text \<open>The abstract machine: what an orchestrator relies on.\<close>

datatype life = Serving | Draining | Finished exit_reason

inductive life_step :: "life \<Rightarrow> life \<Rightarrow> bool" where
  drain: "life_step Serving Draining"
| no_port: "life_step Serving (Finished (ExitCode 1))"
| clean: "life_step Draining (Finished (ExitCode 0))"
| forced: "life_step Draining (Finished (ExitCode 1))"
| killed: "life_step Draining (Finished (KilledBy sig))"

inductive_simps life_step_simps: "life_step Serving l" "life_step Draining l" "life_step (Finished r) l"

definition life_of :: "server \<Rightarrow> life" where
  "life_of s = (case ended s of Some r \<Rightarrow> Finished r
     | None \<Rightarrow> if shutting_down (app_state s) then Draining else Serving)"

lemma life_simulation:
  assumes "runs cfg (booted ds) es s" and "react cfg e s = Some s'"
  shows "life_of s' = life_of s \<or> life_step (life_of s) (life_of s')"
proof (cases "ended s")
  case (Some r)
  with react_ended [OF assms(2)] show ?thesis by auto
next
  case None
  have drain: "handlers s sig \<noteq> Armed \<Longrightarrow> shutting_down (app_state s)" for sig
    using armed_serving [OF assms(1)] by blast
  from assms(2) None show ?thesis
  proof (cases rule: react_live)
    case (tick d)
    show ?thesis
    proof (cases rule: pass_time_cases [of s d cfg])
      case (fires t)
      from deadlines_mem [OF fires(2)] obtain sig where "handlers s sig \<noteq> Armed" by force
      with drain None fires tick show ?thesis
        by (simp add: life_of_def exit_ops life_step_simps)
    qed (use tick None in \<open>simp add: life_of_def\<close>)
  next
    case (closed sig d)
    with drain [of sig] None show ?thesis by (simp add: life_of_def exit_ops life_step_simps)
  next
    case (stopped sig d)
    with drain [of sig] None show ?thesis by (simp add: life_of_def exit_ops life_step_simps)
  qed (use None drain in \<open>auto simp: life_of_def exit_ops life_step_simps\<close>)
qed

lemma runs_append:
  assumes "runs cfg s0 es1 s1" and "runs cfg s1 es2 s2" shows "runs cfg s0 (es1 @ es2) s2"
  using assms(2,1)
proof (induction s1 es2 s2 rule: runs.induct)
  case (runs_event s es s' e s'')
  from runs.runs_event [OF runs_event(3) [OF runs_event(4)] runs_event(2)] show ?case by simp
qed simp

text \<open>C8. The process refines the life an orchestrator expects of an instance: it serves, then drains,
  then ends; it never returns from draining, the first signal never kills it, a clean exit comes
  only out of draining, and the end is final. From every state a run reaches, every continuation
  of the run maps to steps of the abstract machine.\<close>
theorem server_refines_life:
  assumes "runs cfg s1 es2 s" and "runs cfg (booted ds) es1 s1"
  shows "life_step\<^sup>*\<^sup>* (life_of s1) (life_of s)"
  using assms
proof (induction s1 es2 s rule: runs.induct)
  case (runs_event s1 es s' e s'')
  have "runs cfg (booted ds) (es1 @ es) s'" by (rule runs_append [OF runs_event(4) runs_event(1)])
  from life_simulation [OF this runs_event(2)] runs_event(3) [OF runs_event(4)] show ?case
    by (metis rtranclp.rtrancl_into_rtrancl)
qed simp

subsection \<open>Boot\<close>

text \<open>What stops the boot before the application is built: a malformed timeout or flag.\<close>

lemma boot_timeout:
  assumes "server_boot sdk build enabled env = Inr (app, cfg, s)"
  shows "env_number env ''SHUTDOWN_TIMEOUT_MS'' 10000 1 = Inr (shutdown_timeout cfg)"
    and "env_boolean env ''OTEL_ENABLED'' False = Inr (otel_started cfg)"
    and "\<exists>ds. s = booted ds"
    and "\<exists>target. build env = Inr (app, target)"
  using assms by (auto simp: server_boot_def)

text \<open>A timeout beyond \<open>2^31 - 1\<close> milliseconds passes validation, and the forced exit follows the first
  signal after one millisecond.\<close>

lemma huge_timeout_exits_at_once:
  "env_number [''SHUTDOWN_TIMEOUT_MS'' \<mapsto> ''2147483648''] ''SHUTDOWN_TIMEOUT_MS'' 10000 1
     = Inr (Decimal 2147483648 0)"
  "timer_delay (Decimal 2147483648 0) = 1"
  "timer_delay (Decimal 2147483647 0) = 2147483647"
proof -
  have n: "nat_of_digits ''2147483648'' = 2147483648" by (simp add: nat_of_digits_def)
  have "(2147483648 :: nat) < 10 ^ 300" by simp
  then have "js_number_of ''2147483648'' = Decimal 2147483648 0"
    using digits_number [of "''2147483648''"] by (simp add: n is_digit_def)
  then show "env_number [''SHUTDOWN_TIMEOUT_MS'' \<mapsto> ''2147483648''] ''SHUTDOWN_TIMEOUT_MS'' 10000 1
     = Inr (Decimal 2147483648 0)"
    by (simp add: env_number_def decimal_less_def)
qed (simp_all add: timer_delay_def max_timer_delay_def decimal_less_def decimal_int_def)

subsection \<open>Prompt shutdowns\<close>

fun run_events :: "server_setup \<Rightarrow> event list \<Rightarrow> server \<Rightarrow> server option" where
  "run_events cfg [] s = Some s"
| "run_events cfg (e # es) s = (case react cfg e s of None \<Rightarrow> None | Some s' \<Rightarrow> run_events cfg es s')"

lemma run_events_runs: "run_events cfg es s = Some s' \<Longrightarrow> runs cfg s es s'"
proof (induction es arbitrary: s)
  case Nil
  then show ?case by (simp add: runs_start)
next
  case (Cons e es)
  then obtain s1 where "react cfg e s = Some s1" and "runs cfg s1 es s'"
    by (auto split: option.splits)
  from runs_append [OF runs.runs_event [OF runs_start this(1)] this(2)] show ?case by simp
qed

lemma first_signal_run:
  assumes "ended s = None" and "\<forall>sig. handlers s sig = Armed"
    and "a + b < timer_delay (shutdown_timeout cfg)"
  shows "\<exists>s'. run_events cfg ([Signal sig, Tick a, CloseSettled sig True]
      @ (if otel_started cfg then [Tick b, OtelSettled sig True] else [])) s = Some s'
    \<and> ended s' = Some (ExitCode 0)"
proof -
  let ?d = "now s + timer_delay (shutdown_timeout cfg)"
  define s1 where "s1 = begin_shutdown cfg sig s"
  have s1: "ended s1 = None" "handlers s1 = (\<lambda>_. Armed)(sig := Closing ?d)" "now s1 = now s"
    using assms(1,2) by (auto simp: s1_def)
  have d1: "deadlines s1 = [?d]" by (cases sig) (simp_all add: deadlines_def s1 List.map_filter_def)
  have t1: "pass_time cfg a s1 = s1\<lparr>now := now s + a\<rparr>"
    using assms(3) by (simp add: pass_time_def d1 s1)
  show ?thesis
  proof (cases "otel_started cfg")
    case False
    with s1 t1 show ?thesis
      using assms(1,2) by (simp add: s1_def [symmetric] close_settled_def exit_ops)
  next
    case True
    define s2 where "s2 = set_handler sig (StoppingOtel ?d) (s1\<lparr>now := now s + a\<rparr>)"
    have s2: "ended s2 = None" "handlers s2 = (\<lambda>_. Armed)(sig := StoppingOtel ?d)" "now s2 = now s + a"
      using s1 by (auto simp: s2_def)
    have d2: "deadlines s2 = [?d]" by (cases sig) (simp_all add: deadlines_def s2 List.map_filter_def)
    have "pass_time cfg b s2 = s2\<lparr>now := now s + a + b\<rparr>"
      using assms(3) by (simp add: pass_time_def d2 s2)
    with True s1 s2 t1 show ?thesis
      using assms(1,2)
      by (simp add: s1_def [symmetric] s2_def [symmetric] close_settled_def otel_settled_def exit_ops)
  qed
qed

text \<open>C37. A shutdown that is not stuck is clean: from any serving state a run reaches, the first signal,
  a close that succeeds within the timeout and, when OpenTelemetry runs, an SDK that stops within
  what is left of it, end the process with code 0; the deadline never cuts a prompt shutdown off.\<close>
theorem prompt_shutdown_is_clean:
  assumes "runs cfg (booted ds) es s" and "life_of s = Serving"
    and "a + b < timer_delay (shutdown_timeout cfg)"
  shows "\<exists>s'. runs cfg (booted ds) (es @ [Signal sig, Tick a, CloseSettled sig True]
      @ (if otel_started cfg then [Tick b, OtelSettled sig True] else [])) s'
    \<and> ended s' = Some (ExitCode 0)"
proof -
  from assms(2) have s: "ended s = None" "\<not> shutting_down (app_state s)"
    by (auto simp: life_of_def split: option.splits if_splits)
  with armed_serving [OF assms(1)] have "\<forall>sig. handlers s sig = Armed" by blast
  from first_signal_run [OF s(1) this assms(3), of sig] show ?thesis
    using runs_append [OF assms(1) run_events_runs] by blast
qed

subsection \<open>Concrete runs\<close>

definition sample_cfg :: server_setup where
  "sample_cfg = \<lparr>shutdown_timeout = Decimal 10000 0, otel_started = True, log_enabled = (\<lambda>_. True)\<rparr>"

definition sample_dests :: "destination list" where
  "sample_dests = [\<lparr>buffered = True, flush_sync = FlushThrows, pending = [], written = []\<rparr>,
     stream_destination (StdoutBuffered (Decimal 4096 0))]"

lemmas run_simps = sample_cfg_def booted_def begin_shutdown_def app_log_def set_handler_def
  timer_delay_def max_timer_delay_def decimal_less_def decimal_int_def pass_time_def deadlines_def
  List.map_filter_def close_settled_def otel_settled_def exit_ops flush_logs_def process_exit_def
  Let_def

definition graceful_events :: "event list" where
  "graceful_events = [ListenSettled True, RequestLog ''GET /api/public/items'', Signal SIGTERM,
     Tick 40, CloseSettled SIGTERM True, OtelSettled SIGTERM True]"

definition hanging_events :: "event list" where
  "hanging_events = [ListenSettled True, Tick 7, Signal SIGINT, Tick 6000, Tick 6000]"

lemma graceful_run:
  "\<exists>s. runs sample_cfg (booted sample_dests) graceful_events s \<and> ended s = Some (ExitCode 0)
    \<and> (\<exists>d \<in> set (destinations s). flush_sync d = FlushSync)"
proof -
  have "\<exists>s. run_events sample_cfg graceful_events (booted sample_dests) = Some s
    \<and> ended s = Some (ExitCode 0) \<and> (\<exists>d \<in> set (destinations s). flush_sync d = FlushSync)"
    by (simp add: graceful_events_def run_simps listen_settled_def sample_dests_def
        stream_destination_def write_line_def flush_log_destinations_def flush_stream_def)
  then show ?thesis using run_events_runs by blast
qed

lemma hanging_run:
  "\<exists>s. runs sample_cfg (booted ds) hanging_events s \<and> ended s = Some (ExitCode 1) \<and> now s = 10007"
proof -
  have "\<exists>s. run_events sample_cfg hanging_events (booted ds) = Some s
    \<and> ended s = Some (ExitCode 1) \<and> now s = 10007"
    by (simp add: hanging_events_def run_simps listen_settled_def)
  then show ?thesis using run_events_runs by blast
qed

theorem exit_zero_graceful_witness:
  "\<exists>sig. subseq [Signal sig, CloseSettled sig True, OtelSettled sig True] graceful_events"
proof -
  obtain s where s: "runs sample_cfg (booted sample_dests) graceful_events s" "ended s = Some (ExitCode 0)"
    using graceful_run by blast
  from exit_zero_graceful [OF s] show ?thesis by (simp add: sample_cfg_def)
qed

theorem exits_flush_logs_witness:
  "\<exists>s d. runs sample_cfg (booted sample_dests) graceful_events s \<and> d \<in> set (destinations s)
    \<and> pending d = [] \<and> ''GET /api/public/items'' \<in> set (written d)"
proof -
  obtain s d where s: "runs sample_cfg (booted sample_dests) graceful_events s"
    "ended s = Some (ExitCode 0)" "d \<in> set (destinations s)" "flush_sync d = FlushSync"
    using graceful_run by blast
  from exits_flush_logs [OF s] s(1,3) show ?thesis by (auto simp: graceful_events_def)
qed

theorem draining_from_first_signal_witness:
  "\<exists>s. runs sample_cfg (booted []) hanging_events s \<and> status_code (readyz (app_state s) fresh_reply) = 503"
proof -
  obtain s where s: "runs sample_cfg (booted []) hanging_events s" using hanging_run by blast
  from draining_from_first_signal [OF this] s show ?thesis by (auto simp: hanging_events_def)
qed

theorem shutdown_terminates_witness:
  "\<exists>s. runs sample_cfg (booted []) hanging_events s \<and> ended s \<noteq> None \<and> now s \<le> 10007"
proof -
  obtain s where s: "runs sample_cfg (booted []) hanging_events s" using hanging_run by blast
  have t: "timer_delay (shutdown_timeout sample_cfg) = 10000" by (simp add: run_simps)
  from shutdown_terminates [of sample_cfg "[]" "[ListenSettled True, Tick 7]" SIGINT "[Tick 6000, Tick 6000]" s] s
  show ?thesis by (auto simp: hanging_events_def t)
qed

theorem server_refines_life_witness:
  "\<exists>s. runs sample_cfg (booted []) hanging_events s \<and> life_step\<^sup>*\<^sup>* Serving (life_of s)
    \<and> life_of s = Finished (ExitCode 1)"
proof -
  obtain s where s: "runs sample_cfg (booted []) hanging_events s" "ended s = Some (ExitCode 1)"
    using hanging_run by blast
  have "life_of (booted []) = Serving" by (simp add: life_of_def booted_def)
  with server_refines_life [OF s(1) runs_start] s show ?thesis by (auto simp: life_of_def)
qed

theorem prompt_shutdown_is_clean_witness:
  "\<exists>s. runs sample_cfg (booted []) [Signal SIGTERM, Tick 9000, CloseSettled SIGTERM True,
      Tick 900, OtelSettled SIGTERM True] s \<and> ended s = Some (ExitCode 0)"
proof -
  have t: "timer_delay (shutdown_timeout sample_cfg) = 10000" by (simp add: run_simps)
  have o: "otel_started sample_cfg" by (simp add: sample_cfg_def)
  have "life_of (booted []) = Serving" by (simp add: life_of_def booted_def)
  from prompt_shutdown_is_clean [OF runs_start this, of 9000 900 sample_cfg SIGTERM]
  show ?thesis by (simp add: t o)
qed

end
