(* ===== verification/Json.thy ===== *)
theory Json
  imports Encoding
begin

section \<open>JSON text: \<open>JSON.stringify\<close> and \<open>JSON.parse\<close>\<close>

text \<open>
  The cache entry in Redis, the introspection exchange and the alert webhook carry JSON. Text is
  a list of code points. Integers are \<open>JInt\<close>; a number literal with a fraction or an exponent is
  kept as its literal (\<open>JReal\<close>), as no value the gateway writes is one. \<open>json_parse\<close> is the
  grammar of RFC 8259 as \<open>JSON.parse\<close> has it: white space between tokens, the escapes of
  strings, no control characters in a string, the last value of a repeated key, and nothing after
  the value; \<open>None\<close> is the thrown \<open>SyntaxError\<close>. Every nested value costs one unit of fuel and
  at least one character, so the fuel \<open>length text + 1\<close> is always enough for a text that is JSON.
\<close>

datatype json = JNull | JBool bool | JInt int | JReal codes | JStr codes
  | JArr "json list" | JObj "(codes \<times> json) list"

abbreviation jch :: "char \<Rightarrow> nat" where
  "jch c \<equiv> of_char c"

definition jtext :: "string \<Rightarrow> codes" where
  "jtext = js_codes"

subsection \<open>Printing\<close>

definition hex_digit :: "nat \<Rightarrow> nat" where
  "hex_digit n = (if n < 10 then 48 + n else 87 + n)"

definition u_escape :: "nat \<Rightarrow> codes" where
  "u_escape c = [92, 117, hex_digit (c div 4096), hex_digit (c div 256 mod 16),
     hex_digit (c div 16 mod 16), hex_digit (c mod 16)]"

definition json_escape :: "nat \<Rightarrow> codes" where
  "json_escape c =
     (if c = 34 then [92, 34] else if c = 92 then [92, 92]
      else if c = 8 then [92, 98] else if c = 12 then [92, 102]
      else if c = 10 then [92, 110] else if c = 13 then [92, 114] else if c = 9 then [92, 116]
      else if c < 32 \<or> 55296 \<le> c \<and> c < 57344 then u_escape c
      else [c])"

definition json_string :: "codes \<Rightarrow> codes" where
  "json_string s = 34 # concat (map json_escape s) @ [34]"

definition json_int :: "int \<Rightarrow> codes" where
  "json_int i = (if i < 0 then 45 # jtext (show_nat (nat (- i))) else jtext (show_nat (nat i)))"

fun json_stringify :: "json \<Rightarrow> codes"
  and json_elements :: "json list \<Rightarrow> codes"
  and json_members :: "(codes \<times> json) list \<Rightarrow> codes" where
  "json_stringify JNull = jtext ''null''"
| "json_stringify (JBool b) = jtext (if b then ''true'' else ''false'')"
| "json_stringify (JInt i) = json_int i"
| "json_stringify (JReal lit) = lit"
| "json_stringify (JStr s) = json_string s"
| "json_stringify (JArr js) = 91 # json_elements js"
| "json_stringify (JObj kvs) = 123 # json_members kvs"
| "json_elements [] = [93]"
| "json_elements [j] = json_stringify j @ [93]"
| "json_elements (j # k # js) = json_stringify j @ 44 # json_elements (k # js)"
| "json_members [] = [125]"
| "json_members [(k, j)] = json_string k @ 58 # json_stringify j @ [125]"
| "json_members ((k, j) # m # ms) = json_string k @ 58 # json_stringify j @ 44 # json_members (m # ms)"

subsection \<open>Parsing\<close>

definition json_ws :: "nat \<Rightarrow> bool" where
  "json_ws c \<longleftrightarrow> c \<in> {9, 10, 13, 32}"

definition skip_ws :: "codes \<Rightarrow> codes" where
  "skip_ws = dropWhile json_ws"

definition code_digit :: "nat \<Rightarrow> bool" where
  "code_digit c \<longleftrightarrow> 48 \<le> c \<and> c \<le> 57"

definition hex_value :: "nat \<Rightarrow> nat option" where
  "hex_value c =
     (if code_digit c then Some (c - 48)
      else if 97 \<le> c \<and> c \<le> 102 then Some (c - 87)
      else if 65 \<le> c \<and> c \<le> 70 then Some (c - 55) else None)"

fun hex4 :: "codes \<Rightarrow> (nat \<times> codes) option" where
  "hex4 (a # b # c # d # r) =
     (case (hex_value a, hex_value b, hex_value c, hex_value d) of
        (Some w, Some x, Some y, Some z) \<Rightarrow> Some (w * 4096 + x * 256 + y * 16 + z, r)
      | _ \<Rightarrow> None)"
| "hex4 _ = None"

definition simple_escape :: "nat \<Rightarrow> nat option" where
  "simple_escape c =
     (if c = 34 then Some 34 else if c = 92 then Some 92 else if c = 47 then Some 47
      else if c = 98 then Some 8 else if c = 102 then Some 12 else if c = 110 then Some 10
      else if c = 114 then Some 13 else if c = 116 then Some 9 else None)"

lemma hex4_shorter: "hex4 s = Some (n, r) \<Longrightarrow> length r < length s"
  by (cases s rule: hex4.cases) (auto split: option.splits)

text \<open>The rest of a string after its opening quote.\<close>

function parse_string_body :: "codes \<Rightarrow> (codes \<times> codes) option" where
  "parse_string_body [] = None"
| "parse_string_body (c # r) =
     (if c = 34 then Some ([], r)
      else if c < 32 then None
      else if c = 92 then
        (case r of [] \<Rightarrow> None
         | e # r1 \<Rightarrow>
             if e = 117 then
               (case hex4 r1 of None \<Rightarrow> None
                | Some (n, r2) \<Rightarrow> map_option (\<lambda>(s, t). (n # s, t)) (parse_string_body r2))
             else (case simple_escape e of None \<Rightarrow> None
                | Some n \<Rightarrow> map_option (\<lambda>(s, t). (n # s, t)) (parse_string_body r1)))
      else map_option (\<lambda>(s, t). (c # s, t)) (parse_string_body r))"
  by pat_completeness auto
termination
  by (relation "measure length") (auto dest: hex4_shorter)

definition digits_value :: "codes \<Rightarrow> nat" where
  "digits_value ds = nat_of_digits (map char_of ds)"

definition parse_fraction :: "codes \<Rightarrow> (codes \<times> codes) option" where
  \<comment> \<open>an optional \<open>.\<close> and digits, then an optional exponent: the literal and the rest\<close>
  "parse_fraction s =
     (let (f, s1) = (case s of [] \<Rightarrow> ([], [])
                     | c # r \<Rightarrow> if c = 46 then (46 # takeWhile code_digit r, dropWhile code_digit r)
                         else ([], s))
      in if f = [46] then None
         else (case s1 of [] \<Rightarrow> Some (f, [])
           | e # r \<Rightarrow>
              if e = 101 \<or> e = 69 then
                (let (sg, r1) = (case r of [] \<Rightarrow> ([], [])
                      | c # r' \<Rightarrow> if c = 43 \<or> c = 45 then ([c], r') else ([], r));
                     ds = takeWhile code_digit r1
                 in if ds = [] then None else Some (f @ e # sg @ ds, dropWhile code_digit r1))
              else Some (f, s1)))"

definition parse_number :: "codes \<Rightarrow> (json \<times> codes) option" where
  "parse_number s =
     (let (neg, s1) = (case s of [] \<Rightarrow> (False, [])
            | c # r \<Rightarrow> if c = 45 then (True, r) else (False, s));
          ds = takeWhile code_digit s1; s2 = dropWhile code_digit s1
      in if ds = [] \<or> (hd ds = 48 \<and> length ds \<noteq> 1) then None
         else (case parse_fraction s2 of None \<Rightarrow> None
           | Some ([], s3) \<Rightarrow>
               Some (JInt (if neg then - int (digits_value ds) else int (digits_value ds)), s3)
           | Some (f, s3) \<Rightarrow> Some (JReal ((if neg then [45] else []) @ ds @ f), s3)))"

definition parse_literal :: "string \<Rightarrow> json \<Rightarrow> codes \<Rightarrow> (json \<times> codes) option" where
  "parse_literal w j s =
     (if take (length w) s = jtext w then Some (j, drop (length w) s) else None)"

fun parse_value :: "nat \<Rightarrow> codes \<Rightarrow> (json \<times> codes) option"
  and parse_elements :: "nat \<Rightarrow> codes \<Rightarrow> (json list \<times> codes) option"
  and parse_members :: "nat \<Rightarrow> codes \<Rightarrow> (codes, json) js_map \<Rightarrow> (json \<times> codes) option" where
  "parse_value 0 s = None"
| "parse_value (Suc n) s =
     (case skip_ws s of [] \<Rightarrow> None
      | c # r \<Rightarrow>
         if c = 123 then
           (case skip_ws r of [] \<Rightarrow> None
            | d # r' \<Rightarrow> if d = 125 then Some (JObj [], r') else parse_members n r jm_empty)
         else if c = 91 then
           (case skip_ws r of [] \<Rightarrow> None
            | d # r' \<Rightarrow> if d = 93 then Some (JArr [], r')
                else map_option (\<lambda>(js, t). (JArr js, t)) (parse_elements n r))
         else if c = 34 then map_option (\<lambda>(s, t). (JStr s, t)) (parse_string_body r)
         else if c = 110 then parse_literal ''null'' JNull (c # r)
         else if c = 116 then parse_literal ''true'' (JBool True) (c # r)
         else if c = 102 then parse_literal ''false'' (JBool False) (c # r)
         else parse_number (c # r))"
| "parse_elements 0 s = None"
| "parse_elements (Suc n) s =
     (case parse_value n s of None \<Rightarrow> None
      | Some (j, t) \<Rightarrow>
         (case skip_ws t of [] \<Rightarrow> None
          | c # r \<Rightarrow> if c = 44 then map_option (\<lambda>(js, u). (j # js, u)) (parse_elements n r)
              else if c = 93 then Some ([j], r) else None))"
| "parse_members 0 s m = None"
| "parse_members (Suc n) s m =
     (case skip_ws s of [] \<Rightarrow> None
      | q # r \<Rightarrow>
         if q \<noteq> 34 then None
         else (case parse_string_body r of None \<Rightarrow> None
          | Some (k, t) \<Rightarrow>
             (case skip_ws t of [] \<Rightarrow> None
              | c # u \<Rightarrow>
                 if c \<noteq> 58 then None
                 else (case parse_value n u of None \<Rightarrow> None
                  | Some (j, v) \<Rightarrow>
                     (case skip_ws v of [] \<Rightarrow> None
                      | d # w \<Rightarrow>
                         if d = 44 then parse_members n w (jm_set m k j)
                         else if d = 125 then Some (JObj (jm_set m k j), w) else None)))))"

definition json_parse :: "codes \<Rightarrow> json option" where
  "json_parse s =
     (case parse_value (2 * length s + 1) s of None \<Rightarrow> None
      | Some (j, t) \<Rightarrow> if skip_ws t = [] then Some j else None)"

text \<open>Property access on a parsed value: \<open>undefined\<close> for an absent key or a value without
  members, an exception on \<open>null\<close> (\<open>None\<close>).\<close>

datatype member = Undefined | Member json

fun json_get :: "json \<Rightarrow> string \<Rightarrow> member option" where
  "json_get JNull k = None"
| "json_get (JObj kvs) k =
     Some (case jm_get kvs (jtext k) of None \<Rightarrow> Undefined | Some j \<Rightarrow> Member j)"
| "json_get _ k = Some Undefined"

lemma json_parse_example:
  "json_parse (jtext ''{\"active\": true, \"n\": [1, -20, null]}'')
    = Some (JObj [(jtext ''active'', JBool True), (jtext ''n'', JArr [JInt 1, JInt (-20), JNull])])"
  by code_simp

end
