(* ===== verification/JsonRoundTrip.thy ===== *)
theory JsonRoundTrip
  imports Json
begin

section \<open>\<open>JSON.parse\<close> reads back \<open>JSON.stringify\<close>\<close>

text \<open>
  The round trip of the two functions of Json for every value without fractional numbers whose
  objects have no repeated key: the values the gateway writes to Redis and sends to the
  introspection endpoint are of this kind. \<open>need\<close> is the fuel the parser consumes on a value, at
  most the length of its text, so the fuel of \<open>json_parse\<close> (twice the length and one) suffices.
\<close>

fun json_ok :: "json \<Rightarrow> bool"
  and elements_ok :: "json list \<Rightarrow> bool"
  and members_ok :: "(codes \<times> json) list \<Rightarrow> bool" where
  "json_ok (JReal l) = False"
| "json_ok (JArr js) = elements_ok js"
| "json_ok (JObj kvs) = members_ok kvs"
| "json_ok _ = True"
| "elements_ok [] = True"
| "elements_ok (j # js) = (json_ok j \<and> elements_ok js)"
| "members_ok [] = True"
| "members_ok ((k, j) # ms) = (json_ok j \<and> k \<notin> fst ` set ms \<and> members_ok ms)"

fun need :: "json \<Rightarrow> nat"
  and need_elements :: "json list \<Rightarrow> nat"
  and need_members :: "(codes \<times> json) list \<Rightarrow> nat" where
  "need (JArr js) = Suc (need_elements js)"
| "need (JObj kvs) = Suc (need_members kvs)"
| "need _ = 1"
| "need_elements [] = 0"
| "need_elements (j # js) = Suc (max (need j) (need_elements js))"
| "need_members [] = 0"
| "need_members ((k, j) # ms) = Suc (max (need j) (need_members ms))"

subsection \<open>Strings\<close>

lemma hex_value_digit: "n < 16 \<Longrightarrow> hex_value (hex_digit n) = Some n"
  by (auto simp: hex_value_def hex_digit_def code_digit_def)

lemma hex_digits_value:
  "(c :: nat) div 4096 * 4096 + c div 256 mod 16 * 256 + c div 16 mod 16 * 16 + c mod 16 = c"
proof -
  have "c div 4096 = c div 256 div 16" "c div 256 = c div 16 div 16"
    by (simp_all flip: div_mult2_eq)
  moreover have "c div 16 * 16 + c mod 16 = c" by simp
  moreover have "c div 16 div 16 * 16 + c div 16 mod 16 = c div 16" by simp
  moreover have "c div 256 div 16 * 16 + c div 256 mod 16 = c div 256" by simp
  ultimately show ?thesis by linarith
qed

lemma hex4_escape:
  assumes "c < 65536"
  shows "hex4 (hex_digit (c div 4096) # hex_digit (c div 256 mod 16) # hex_digit (c div 16 mod 16)
    # hex_digit (c mod 16) # r) = Some (c, r)"
proof -
  have "c div 4096 < 16" using assms by (simp add: div_less_iff_less_mult)
  then show ?thesis using hex_digits_value [of c] by (simp add: hex_value_digit)
qed

lemma parse_escape:
  "parse_string_body (json_escape c @ r) = map_option (\<lambda>(s, t). (c # s, t)) (parse_string_body r)"
proof (cases "c < 32 \<or> 55296 \<le> c \<and> c < 57344")
  case True
  then have "c < 65536" by auto
  then show ?thesis
    using True hex4_escape [of c r]
    by (auto simp: json_escape_def u_escape_def simple_escape_def)
qed (auto simp: json_escape_def simple_escape_def)

lemma parse_string:
  "parse_string_body (concat (map json_escape s) @ 34 # t) = Some (s, t)"
  by (induction s) (simp_all add: parse_escape)

subsection \<open>Numbers\<close>

definition closes :: "codes \<Rightarrow> bool" where
  "closes t \<longleftrightarrow> t = [] \<or> hd t \<in> {44, 93, 125}"

lemma show_nat_leading: "hd (show_nat n) = CHR ''0'' \<Longrightarrow> n = 0"
proof (induction n rule: show_nat.induct)
  case (1 n)
  show ?case
  proof (cases "n < 10")
    case True
    with 1(2) have "cc (char_of (48 + n)) = 48" by (simp add: show_nat.simps [of n])
    with True show ?thesis by (simp only: digit_char)
  next
    case False
    moreover have "show_nat (n div 10) \<noteq> []" using show_nat_digits by blast
    ultimately have "hd (show_nat (n div 10)) = CHR ''0''"
      using 1(2) by (subst (asm) show_nat.simps) (simp add: hd_append)
    with 1(1) False have "n div 10 = 0" by blast
    with False show ?thesis by (simp add: div_eq_0_iff)
  qed
qed

lemma show_nat_zero: "show_nat 0 = ''0''"
  by code_simp

lemma jtext_digits:
  "c \<in> set (jtext (show_nat n)) \<Longrightarrow> code_digit c" "jtext (show_nat n) \<noteq> []"
  using show_nat_digits [of n]
  by (auto simp: jtext_def js_codes_def list_all_iff is_digit_def code_digit_def)

lemma digits_value_show: "digits_value (jtext (show_nat n)) = n"
  by (simp add: digits_value_def jtext_def js_codes_def comp_def)

lemma digits_split:
  assumes "closes t"
  shows "takeWhile code_digit (jtext (show_nat n) @ t) = jtext (show_nat n)"
    "dropWhile code_digit (jtext (show_nat n) @ t) = t"
proof -
  have "t = [] \<or> \<not> code_digit (hd t)" using assms by (auto simp: closes_def code_digit_def)
  then have "takeWhile code_digit t = []" "dropWhile code_digit t = t"
    by (cases t; auto)+
  then show "takeWhile code_digit (jtext (show_nat n) @ t) = jtext (show_nat n)"
    "dropWhile code_digit (jtext (show_nat n) @ t) = t"
    using jtext_digits(1) [of _ n] by (auto simp: takeWhile_append dropWhile_append)
qed

lemma no_leading_zero:
  "\<not> (hd (jtext (show_nat n)) = 48 \<and> length (jtext (show_nat n)) \<noteq> 1)"
proof
  assume h: "hd (jtext (show_nat n)) = 48 \<and> length (jtext (show_nat n)) \<noteq> 1"
  have "show_nat n \<noteq> []" using show_nat_digits by blast
  with h have "cc (hd (show_nat n)) = cc (CHR ''0'')" by (simp add: jtext_def js_codes_def hd_map)
  then have "hd (show_nat n) = CHR ''0''" by (simp only: of_char_eq_iff)
  from show_nat_leading [OF this] h show False
    by (simp add: show_nat_zero jtext_def js_codes_def)
qed

lemma parse_fraction_closes: "closes t \<Longrightarrow> parse_fraction t = Some ([], t)"
  by (cases t) (auto simp: parse_fraction_def closes_def)

lemma jtext_digits_head:
  obtains d ds where "jtext (show_nat n) = d # ds" and "code_digit d"
  using jtext_digits(1) [of _ n] jtext_digits(2) [of n] by (cases "jtext (show_nat n)") auto

lemma parse_int:
  assumes "closes t" shows "parse_number (json_int i @ t) = Some (JInt i, t)"
proof -
  obtain d ds where d: "jtext (show_nat (nat i)) = d # ds" "code_digit d"
    by (rule jtext_digits_head)
  have ne: "jtext (show_nat n) \<noteq> []" for n by (rule jtext_digits(2))
  have lead: "\<not> (jtext (show_nat n) = [] \<or> hd (jtext (show_nat n)) = 48 \<and> length (jtext (show_nat n)) \<noteq> 1)"
    for n using no_leading_zero [of n] ne by blast
  show ?thesis
  proof (cases "i < 0")
    case True
    then show ?thesis
      using lead [of "nat (- i)"] parse_fraction_closes [OF assms]
      by (simp add: parse_number_def json_int_def digits_split [OF assms] digits_value_show Let_def)
  next
    case False
    have "(case jtext (show_nat (nat i)) @ t of [] \<Rightarrow> (False, [])
        | c # r \<Rightarrow> if c = 45 then (True, r) else (False, jtext (show_nat (nat i)) @ t))
        = (False, jtext (show_nat (nat i)) @ t)"
      using d by (auto simp: code_digit_def)
    with False show ?thesis
      using lead [of "nat i"] parse_fraction_closes [OF assms]
      by (simp add: parse_number_def json_int_def digits_split [OF assms] digits_value_show Let_def)
  qed
qed

subsection \<open>Values\<close>

lemma skip_ws_Cons: "\<not> json_ws c \<Longrightarrow> skip_ws (c # s) = c # s"
  by (simp add: skip_ws_def)

lemma json_int_head:
  obtains c r where "json_int i = c # r" and "c = 45 \<or> code_digit c"
proof (cases "i < 0")
  case True
  then show thesis by (auto simp: json_int_def intro: that)
next
  case False
  obtain d ds where "jtext (show_nat (nat i)) = d # ds" "code_digit d" by (rule jtext_digits_head)
  with False show thesis by (auto simp: json_int_def intro: that)
qed

lemma ws_chars: "\<not> json_ws 34" "\<not> json_ws 44" "\<not> json_ws 58" "\<not> json_ws 91" "\<not> json_ws 93"
  "\<not> json_ws 123" "\<not> json_ws 125" "\<not> json_ws 110" "\<not> json_ws 116" "\<not> json_ws 102" "\<not> json_ws 45"
  by (simp_all add: json_ws_def)

lemma parse_value_int:
  assumes "closes t" shows "parse_value (Suc n) (json_int i @ t) = Some (JInt i, t)"
proof -
  obtain c r where c: "json_int i = c # r" "c = 45 \<or> code_digit c" by (rule json_int_head)
  then have "\<not> json_ws c" "c \<notin> {123, 91, 34, 110, 116, 102}"
    by (auto simp: json_ws_def code_digit_def)
  with c(1) have "parse_value (Suc n) (json_int i @ t) = parse_number (json_int i @ t)"
    by (simp add: skip_ws_Cons)
  with parse_int [OF assms] show ?thesis by simp
qed

lemma jm_set_new: "k \<notin> fst ` set m \<Longrightarrow> jm_set m k v = m @ [(k, v)]"
  by (induction m k v rule: jm_set.induct) auto

lemma json_literals: "jtext ''null'' = [110, 117, 108, 108]" "jtext ''true'' = [116, 114, 117, 101]"
  "jtext ''false'' = [102, 97, 108, 115, 101]"
  by (simp_all add: jtext_def js_codes_def)

lemma closes_simps [simp]: "closes (44 # t)" "closes (93 # t)" "closes (125 # t)" "closes []"
  by (simp_all add: closes_def)

lemma members_text: "members_ok ms \<Longrightarrow> ms \<noteq> [] \<Longrightarrow> \<exists>r. json_members ms = 34 # r"
  by (cases ms rule: json_members.cases) (auto simp: json_string_def)

lemma stringify_head:
  "json_ok j \<Longrightarrow> \<exists>c r. json_stringify j = c # r \<and> \<not> json_ws c \<and> c \<noteq> 93 \<and> c \<noteq> 125"
proof (cases j)
  case (JInt i)
  obtain c r where "json_int i = c # r" "c = 45 \<or> code_digit c" by (rule json_int_head)
  with JInt show ?thesis by (auto simp: json_ws_def code_digit_def)
qed (auto simp: json_literals json_string_def ws_chars)

lemma elements_head:
  "elements_ok js \<Longrightarrow> js \<noteq> [] \<Longrightarrow> \<exists>c r. json_elements js = c # r \<and> \<not> json_ws c \<and> c \<noteq> 93"
  using stringify_head by (cases js rule: json_elements.cases) fastforce+

lemma parse_stringify:
  "json_ok j \<Longrightarrow> closes t \<Longrightarrow> need j \<le> n \<Longrightarrow> parse_value n (json_stringify j @ t) = Some (j, t)"
  "elements_ok js \<Longrightarrow> js \<noteq> [] \<Longrightarrow> need_elements js \<le> n
    \<Longrightarrow> parse_elements n (json_elements js @ t) = Some (js, t)"
  "members_ok kvs \<Longrightarrow> kvs \<noteq> [] \<Longrightarrow> fst ` set m \<inter> fst ` set kvs = {} \<Longrightarrow> need_members kvs \<le> n
    \<Longrightarrow> parse_members n (json_members kvs @ t) m = Some (JObj (m @ kvs), t)"
proof (induction j and js and kvs arbitrary: n t and n t and n t m
    rule: json_stringify_json_elements_json_members.induct)
  case (3 i)
  then obtain n' where "n = Suc n'" by (cases n) auto
  with 3 show ?case by (simp only: json_stringify.simps parse_value_int)
next
  case (6 js)
  then obtain n' where n: "n = Suc n'" by (cases n) auto
  show ?case
  proof (cases "js = []")
    case True
    then show ?thesis by (simp add: n skip_ws_Cons ws_chars)
  next
    case False
    with 6 elements_head [of js] obtain c r where
      "json_elements js = c # r" "\<not> json_ws c" "c \<noteq> 93" by auto
    with 6 False show ?thesis by (auto simp: n skip_ws_Cons ws_chars)
  qed
next
  case (7 kvs)
  then obtain n' where n: "n = Suc n'" by (cases n) auto
  show ?case
  proof (cases "kvs = []")
    case True
    then show ?thesis by (simp add: n skip_ws_Cons ws_chars)
  next
    case False
    with 7 members_text [of kvs] obtain r where "json_members kvs = 34 # r" by auto
    with 7 False show ?thesis by (auto simp: n skip_ws_Cons ws_chars jm_empty_def)
  qed
next
  case (9 j)
  then obtain n' where n: "n = Suc n'" by (cases n) auto
  with 9 show ?case by (simp add: skip_ws_Cons ws_chars)
next
  case (10 j k js)
  then obtain n' where n: "n = Suc n'" by (cases n) auto
  with 10 show ?case by (simp add: skip_ws_Cons ws_chars)
next
  case (12 k j)
  then obtain n' where n: "n = Suc n'" by (cases n) auto
  with 12 show ?case
    by (simp add: skip_ws_Cons ws_chars json_string_def parse_string jm_set_new)
next
  case (13 k j m ms)
  then obtain n' where n: "n = Suc n'" by (cases n) auto
  with 13 show ?case
    by (auto simp: skip_ws_Cons ws_chars json_string_def parse_string jm_set_new)
qed (auto simp: Suc_le_eq gr0_conv_Suc skip_ws_Cons ws_chars json_literals parse_literal_def
  json_string_def parse_string)

subsection \<open>Enough fuel\<close>

lemma need_bound:
  "json_ok j \<Longrightarrow> need j \<le> length (json_stringify j)"
  "elements_ok js \<Longrightarrow> need_elements js \<le> length (json_elements js)"
  "members_ok kvs \<Longrightarrow> need_members kvs \<le> length (json_members kvs)"
proof (induction j and js and kvs rule: json_stringify_json_elements_json_members.induct)
  case (3 i)
  obtain c r where "json_int i = c # r" by (rule json_int_head)
  then show ?case by simp
qed (auto simp: json_literals json_string_def)

lemma parse_stringify_value:
  assumes "json_ok j" shows "json_parse (json_stringify j) = Some j"
proof -
  have "need j \<le> 2 * length (json_stringify j) + 1" using need_bound(1) [OF assms] by simp
  from parse_stringify(1) [OF assms closes_simps(4) this] show ?thesis
    by (simp add: json_parse_def skip_ws_def)
qed

lemma stringify_inj:
  "json_ok a \<Longrightarrow> json_ok b \<Longrightarrow> json_stringify a = json_stringify b \<longleftrightarrow> a = b"
  by (metis option.inject parse_stringify_value)

end
