(* ===== verification/Cache.thy ===== *)
theory Cache
  imports Credentials JsonRoundTrip Config
begin

section \<open>The response cache\<close>

text \<open>
  \<open>plugins/cache.ts\<close>: the cache key, the lookup with its bounded wait, and the two hooks that a
  cacheable service adds to its route. The Redis client is represented by what one lookup sees: the
  client's status and the outcome of the race between \<open>get\<close> and the timer (\<open>cache_env\<close>); what the
  store hook asks of it is a \<open>store_command\<close>. Entries travel as JSON text. A stream payload is the
  list of its chunks and whether it fails before its end. Entries of a shape the gateway never
  writes make the serve hook throw.
\<close>

subsection \<open>Keys and entries\<close>

definition stored_headers :: "header_key list" where
  "stored_headers = [HdrContentType, HdrContentEncoding, HdrContentLanguage, HdrCacheControl,
     HdrEtag, HdrLastModified, HdrVary]"

definition safe_vary :: "string set" where
  "safe_vary = {header_name HdrAccept, header_name HdrAcceptEncoding, ''origin''}"

record cached_response =
  cr_status :: int
  cr_headers :: "(string \<times> string) list"
  cr_body :: string

definition cache_key_text :: "request \<Rightarrow> string" where
  "cache_key_text req =
     req_url req @ ''\<newline>'' @ header_text (req_header req HdrAccept)
       @ ''\<newline>'' @ header_text (req_header req HdrAcceptEncoding)"

definition cache_key_of :: "hash \<Rightarrow> string \<Rightarrow> request \<Rightarrow> string" where
  "cache_key_of sha256 service req =
     ''cache:'' @ service @ '':'' @ bytes_hex (digest sha256 (js_codes (cache_key_text req)))"

definition vary_is_keyed :: "reply \<Rightarrow> bool" where
  "vary_is_keyed reply =
     (case header_of (reply_headers reply) HdrVary of
        None \<Rightarrow> True
      | Some vary \<Rightarrow>
          list_all (\<lambda>v. v = [] \<or> v \<in> safe_vary)
            (map (\<lambda>v. map js_lower (js_trim v)) (split_on (CHR '','') (hval_text vary))))"

definition entry_json :: "cached_response \<Rightarrow> json" where
  "entry_json e = JObj
     [(jtext ''status'', JInt (cr_status e)),
      (jtext ''headers'', JObj (map (\<lambda>(n, v). (js_codes n, JStr (js_codes v))) (cr_headers e))),
      (jtext ''body'', JStr (js_codes (cr_body e)))]"

definition latin1 :: "codes \<Rightarrow> string option" where
  "latin1 cs = (if list_all (\<lambda>c. c < 256) cs then Some (map char_of cs) else None)"

fun header_member :: "codes \<times> json \<Rightarrow> (string \<times> string) option" where
  "header_member (n, JStr v) =
     (case (latin1 n, latin1 v) of (Some n, Some v) \<Rightarrow> Some (n, v) | _ \<Rightarrow> None)"
| "header_member _ = None"

fun all_some :: "'a option list \<Rightarrow> 'a list option" where
  "all_some [] = Some []"
| "all_some (x # xs) = (case (x, all_some xs) of (Some a, Some as) \<Rightarrow> Some (a # as) | _ \<Rightarrow> None)"

definition entry_of_json :: "json \<Rightarrow> cached_response option" where
  "entry_of_json j =
     (case j of
        JObj kvs \<Rightarrow>
          (case (jm_get kvs (jtext ''status''), jm_get kvs (jtext ''headers''), jm_get kvs (jtext ''body'')) of
             (Some (JInt st), Some (JObj hs), Some (JStr b)) \<Rightarrow>
               (case (all_some (map header_member hs), latin1 b) of
                  (Some hs, Some b) \<Rightarrow>
                    if 100 \<le> st \<and> st \<le> 599
                    then Some \<lparr>cr_status = st, cr_headers = hs, cr_body = b\<rparr> else None
                | _ \<Rightarrow> None)
           | _ \<Rightarrow> None)
      | _ \<Rightarrow> None)"

subsection \<open>Lookup\<close>

datatype redis_answer = RedisRejected | RedisTimedOut | RedisValue "codes option"

record cache_env =
  redis_status :: string
  redis_get :: "string \<Rightarrow> redis_answer"

definition lookup_entry :: "cache_env \<Rightarrow> string \<Rightarrow> logger \<Rightarrow> json option \<times> logger" where
  "lookup_entry env key app_log =
     (if redis_status env = ''end'' \<or> redis_status env = ''close'' then (None, app_log)
      else case redis_get env key of
        RedisRejected \<Rightarrow> (None, log_at LogWarn [(''err'', LogThrown)] ''cache lookup failed'' app_log)
      | RedisTimedOut \<Rightarrow> (None, app_log)
      | RedisValue None \<Rightarrow> (None, app_log)
      | RedisValue (Some raw) \<Rightarrow>
          if raw = [] then (None, app_log)
          else (case json_parse raw of
             None \<Rightarrow> (None, log_at LogWarn [(''err'', LogThrown)] ''cache lookup failed'' app_log)
           | Some j \<Rightarrow> (Some j, app_log)))"

fun json_falsy :: "json \<Rightarrow> bool" where
  "json_falsy JNull = True"
| "json_falsy (JBool b) = (\<not> b)"
| "json_falsy (JInt i) = (i = 0)"
| "json_falsy (JStr s) = (s = [])"
| "json_falsy _ = False"

subsection \<open>Lifetime\<close>

definition forbids_storing :: "string \<Rightarrow> bool" where
  "forbids_storing control \<longleftrightarrow>
     has_word ''no-store'' control \<or> has_word ''no-cache'' control \<or> has_word ''private'' control"

definition age_directive :: "string \<Rightarrow> string option" where
  "age_directive control =
     (case number_after ''s-maxage='' control of Some ds \<Rightarrow> Some ds
      | None \<Rightarrow> number_after ''max-age='' control)"

definition resolve_ttl_ms :: "gateway_config \<Rightarrow> reply \<Rightarrow> int" where
  "resolve_ttl_ms config reply =
     (let control = header_text (header_of (reply_headers reply) HdrCacheControl)
      in if forbids_storing control then 0
         else min (case age_directive control of
             Some ds \<Rightarrow> int (nat_of_digits ds) * 1000
           | None \<Rightarrow> CACHE_DEFAULT_TTL_MS config) (CACHE_MAX_TTL_MS config))"

subsection \<open>The hooks\<close>

definition replay_headers :: "(string \<times> string) list \<Rightarrow> reply \<Rightarrow> reply" where
  "replay_headers hs reply =
     fold (\<lambda>(n, v) r. r\<lparr>reply_headers := (reply_headers r)(n \<mapsto> HStr v)\<rparr>) hs reply"

definition replay_hit :: "cached_response \<Rightarrow> reply \<Rightarrow> reply" where
  "replay_hit hit reply =
     reply_send (BufferPayload (base64_decode (cr_body hit)))
       (reply_code (nat (cr_status hit))
         (reply_header HdrCache ''HIT'' (replay_headers (cr_headers hit) reply)))"

definition serve_hook ::
    "hash \<Rightarrow> cache_env \<Rightarrow> string \<Rightarrow> logger \<Rightarrow> request \<Rightarrow> reply \<Rightarrow> (logger \<times> request \<times> reply) result" where
  "serve_hook sha256 env service app_log req reply =
     (if req_method req \<noteq> ''GET'' then Inr (app_log, req, reply)
      else if header_truthy (req_header req HdrAuthorization) \<or> header_truthy (req_header req HdrCookie)
      then Inr (app_log, req, reply)
      else
        let control = header_text (req_header req HdrCacheControl)
        in if has_word ''no-store'' control then Inr (app_log, req, reply)
           else
             let req = req\<lparr>cache_key := cache_key_of sha256 service req\<rparr>
             in if has_word ''no-cache'' control then Inr (app_log, req, reply)
                else case lookup_entry env (cache_key req) app_log of
                    (None, app_log) \<Rightarrow> Inr (app_log, req, reply)
                  | (Some j, app_log) \<Rightarrow>
                      if json_falsy j then Inr (app_log, req, reply)
                      else (case entry_of_json j of
                          None \<Rightarrow> Inl (Error ''malformed cache entry'')
                        | Some hit \<Rightarrow> Inr (app_log, req\<lparr>cache_key := []\<rparr>, replay_hit hit reply)))"

record store_command =
  set_key :: string
  set_value :: codes
  set_px :: int

definition chunk_bytes :: "stream_chunk \<Rightarrow> bytes" where
  "chunk_bytes chunk = (case chunk of BufferChunk b \<Rightarrow> b | StringChunk s \<Rightarrow> utf8_encode (js_codes s))"

record tee =
  tee_size :: int
  tee_overflow :: bool
  tee_chunks :: "bytes list"

definition tee_data :: "int \<Rightarrow> stream_chunk \<Rightarrow> tee \<Rightarrow> tee" where
  "tee_data limit chunk t =
     (if tee_overflow t then t
      else let buf = chunk_bytes chunk; size = tee_size t + int (length buf)
        in if limit < size then t\<lparr>tee_size := size, tee_overflow := True, tee_chunks := []\<rparr>
           else t\<lparr>tee_size := size, tee_chunks := tee_chunks t @ [buf]\<rparr>)"

definition tee_start :: tee where
  "tee_start = \<lparr>tee_size = 0, tee_overflow = False, tee_chunks = []\<rparr>"

definition kept_header :: "reply \<Rightarrow> header_key \<Rightarrow> (string \<times> string) option" where
  "kept_header reply k =
     map_option (Pair (header_name k)) (string_header (header_of (reply_headers reply) k))"

definition kept_headers :: "reply \<Rightarrow> (string \<times> string) list" where
  "kept_headers reply = List.map_filter (kept_header reply) stored_headers"

definition store_entry :: "request \<Rightarrow> reply \<Rightarrow> int \<Rightarrow> bytes \<Rightarrow> store_command" where
  "store_entry req reply ttl body =
     \<lparr>set_key = cache_key req,
      set_value = json_stringify (entry_json \<lparr>cr_status = int (status_code reply),
        cr_headers = kept_headers reply, cr_body = base64_encode body\<rparr>),
      set_px = ttl\<rparr>"

definition store_hook ::
    "gateway_config \<Rightarrow> request \<Rightarrow> reply \<Rightarrow> payload \<Rightarrow> reply \<times> payload \<times> store_command option" where
  "store_hook config req reply payload =
     (if cache_key req = [] then (reply, payload, None)
      else
        let reply = reply_header HdrCache ''MISS'' reply
        in if status_code reply \<noteq> http_status StOk then (reply, payload, None)
           else if \<not> vary_is_keyed reply then (reply, payload, None)
           else let ttl = resolve_ttl_ms config reply; limit = CACHE_MAX_BODY_BYTES config
             in if ttl \<le> 0 then (reply, payload, None)
                else (case payload of
                    TextPayload s \<Rightarrow>
                      let body = utf8_encode (js_codes s)
                      in (reply, payload,
                          if int (length body) \<le> limit then Some (store_entry req reply ttl body) else None)
                  | BufferPayload body \<Rightarrow>
                      (reply, payload,
                          if int (length body) \<le> limit then Some (store_entry req reply ttl body) else None)
                  | StreamPayload source \<Rightarrow>
                      let t = fold (tee_data limit) (chunks source) tee_start
                      in (reply, payload,
                          if \<not> stream_fails source \<and> \<not> tee_overflow t
                          then Some (store_entry req reply ttl (concat (tee_chunks t))) else None)
                  | _ \<Rightarrow> (reply, payload, None)))"

definition cache_plugin :: "gateway_config \<Rightarrow> bool result" where
  "cache_plugin config =
     (if \<not> CACHE_ENABLED config then Inr False
      else if REDIS_URL config = [] then
        Inl (Error ''CACHE_ENABLED=true requires REDIS_URL; response caching uses the shared Redis store'')
      else Inr True)"

subsection \<open>Keys\<close>

lemma last_colon_split:
  assumes "x @ CHR '':'' # u = y @ CHR '':'' # v" and "CHR '':'' \<notin> set u" and "CHR '':'' \<notin> set v"
  shows "x = y \<and> u = v"
  using assms
proof (induction x arbitrary: y)
  case Nil
  then show ?case by (cases y) auto
next
  case (Cons a x)
  then show ?case by (cases y) auto
qed

lemma newline_split:
  assumes "a @ CHR ''\<newline>'' # u = b @ CHR ''\<newline>'' # v"
    and "CHR ''\<newline>'' \<notin> set a" and "CHR ''\<newline>'' \<notin> set b"
  shows "a = b \<and> u = v"
  using assms
proof (induction a arbitrary: b)
  case Nil
  then show ?case by (cases b) auto
next
  case (Cons x a)
  then show ?case by (cases b) auto
qed

lemma hex_no_colon: "CHR '':'' \<notin> set (bytes_hex bs)"
  using bytes_hex_lower [of bs] by (auto simp: list_all_iff is_hex_lower_def is_digit_def)

lemma cache_key_eq:
  assumes "no_collision sha256 (js_codes (cache_key_text a)) (js_codes (cache_key_text b))"
  shows "cache_key_of sha256 s a = cache_key_of sha256 s' b \<longleftrightarrow> s = s' \<and> cache_key_text a = cache_key_text b"
proof
  assume "cache_key_of sha256 s a = cache_key_of sha256 s' b"
  then have "s @ CHR '':'' # bytes_hex (digest sha256 (js_codes (cache_key_text a)))
      = s' @ CHR '':'' # bytes_hex (digest sha256 (js_codes (cache_key_text b)))"
    by (simp add: cache_key_of_def)
  from last_colon_split [OF this hex_no_colon hex_no_colon]
  have "s = s'" "digest sha256 (js_codes (cache_key_text a)) = digest sha256 (js_codes (cache_key_text b))"
    by simp_all
  with assms show "s = s' \<and> cache_key_text a = cache_key_text b"
    by (auto simp: no_collision_def digest_def utf8_encode_inj js_codes_scalar)
qed (simp add: cache_key_of_def)

text \<open>C36. Two requests share a cache entry only when they agree on the service, the full URL and both
  varying headers: the key is injective, up to a SHA-256 collision, on requests whose URL and
  \<open>accept\<close> hold no line feed (no HTTP request has one).\<close>
theorem cache_key_injective:
  assumes "no_collision sha256 (js_codes (cache_key_text a)) (js_codes (cache_key_text b))"
    and "CHR ''\<newline>'' \<notin> set (req_url a) \<union> set (req_url b)"
    and "CHR ''\<newline>'' \<notin> set (header_text (req_header a HdrAccept))
      \<union> set (header_text (req_header b HdrAccept))"
  shows "cache_key_of sha256 service a = cache_key_of sha256 service' b \<longleftrightarrow>
    service = service' \<and> req_url a = req_url b
    \<and> header_text (req_header a HdrAccept) = header_text (req_header b HdrAccept)
    \<and> header_text (req_header a HdrAcceptEncoding) = header_text (req_header b HdrAcceptEncoding)"
proof -
  have "cache_key_text a = cache_key_text b \<longleftrightarrow> req_url a = req_url b
    \<and> header_text (req_header a HdrAccept) = header_text (req_header b HdrAccept)
    \<and> header_text (req_header a HdrAcceptEncoding) = header_text (req_header b HdrAcceptEncoding)"
    using assms(2,3) by (auto simp: cache_key_text_def dest!: newline_split)
  then show ?thesis using cache_key_eq [OF assms(1)] by blast
qed

theorem cache_key_injective_witness:
  "cache_key_of (\<lambda>b. b) ''public'' (sample_request ''GET'' [(HdrAccept, ''text/html'')])
    \<noteq> cache_key_of (\<lambda>b. b) ''public'' (sample_request ''GET'' [(HdrAccept, ''text/plain'')])"
  using cache_key_injective [of "\<lambda>b. b" "sample_request ''GET'' [(HdrAccept, ''text/html'')]"
      "sample_request ''GET'' [(HdrAccept, ''text/plain'')]" "''public''" "''public''"]
  by (simp add: no_collision_def header_text_def sample_request_def [of "''GET''"] req_header_def)

subsection \<open>Entries survive their JSON form\<close>

lemma latin1_codes [simp]: "latin1 (js_codes s) = Some s"
  by (simp add: latin1_def js_codes_def list_all_iff comp_def)

lemma all_some_map [simp]: "all_some (map (\<lambda>x. Some (f x)) xs) = Some (map f xs)"
  by (induction xs) auto

lemma header_members:
  "all_some (map header_member (map (\<lambda>(n, v). (js_codes n, JStr (js_codes v))) hs)) = Some hs"
proof -
  have "map header_member (map (\<lambda>(n, v). (js_codes n, JStr (js_codes v))) hs) = map (\<lambda>x. Some (id x)) hs"
    by (auto simp: comp_def)
  then show ?thesis by (simp only: all_some_map) simp
qed

lemma member_names: "jtext ''status'' \<noteq> jtext ''headers''" "jtext ''status'' \<noteq> jtext ''body''"
  "jtext ''headers'' \<noteq> jtext ''body''"
  by (simp_all add: jtext_def js_codes_def)

lemma entry_of_entry_json:
  "100 \<le> cr_status e \<Longrightarrow> cr_status e \<le> 599 \<Longrightarrow> entry_of_json (entry_json e) = Some e"
  using header_members [of "cr_headers e"] member_names
  by (simp add: entry_of_json_def entry_json_def)

lemma headers_ok:
  "distinct (map fst hs) \<Longrightarrow> members_ok (map (\<lambda>(n, v). (js_codes n, JStr (js_codes v))) hs)"
  by (induction hs) (force simp: image_iff)+

lemma entry_json_ok: "distinct (map fst (cr_headers e)) \<Longrightarrow> json_ok (entry_json e)"
  using member_names headers_ok by (simp add: entry_json_def)

lemma entry_round_trip:
  assumes "distinct (map fst (cr_headers e))" and "100 \<le> cr_status e" and "cr_status e \<le> 599"
  shows "\<exists>j. json_parse (json_stringify (entry_json e)) = Some j \<and> \<not> json_falsy j
    \<and> entry_of_json j = Some e"
  using parse_stringify_value [OF entry_json_ok [OF assms(1)]] entry_of_entry_json [OF assms(2,3)]
  by (simp add: entry_json_def)

lemma kept_header_name: "kept_header reply k = Some (n, v) \<Longrightarrow> n = header_name k"
  by (auto simp: kept_header_def)

lemma kept_names:
  "fst ` set (List.map_filter (kept_header reply) ks) \<subseteq> header_name ` set ks"
  by (induction ks) (auto simp: map_filter_simps split: option.splits dest: kept_header_name)

lemma kept_distinct: "distinct (map fst (kept_headers reply))"
proof -
  have "distinct (map fst (List.map_filter (kept_header reply) ks))" if "distinct ks" for ks
    using that
  proof (induction ks)
    case (Cons k ks)
    have "header_name k \<notin> fst ` set (List.map_filter (kept_header reply) ks)"
      using kept_names [of reply ks] Cons.prems by auto
    with Cons show ?case
      by (cases "kept_header reply k")
        (auto simp: map_filter_simps dest!: kept_header_name intro: rev_image_eqI)
  qed (simp add: map_filter_simps)
  moreover have "distinct stored_headers" by (simp add: stored_headers_def)
  ultimately show ?thesis unfolding kept_headers_def by blast
qed

lemma string_header_text: "string_header h = Some v \<longleftrightarrow> h = Some (HStr v)"
  by (cases h rule: string_header.cases) auto

lemma kept_headers_map:
  "map_of (kept_headers reply) n =
    (if n \<in> header_name ` set stored_headers then string_header (reply_headers reply n) else None)"
proof -
  have "map_of (List.map_filter (kept_header reply) ks) n =
      (if n \<in> header_name ` set ks then string_header (reply_headers reply n) else None)" for ks
    by (induction ks) (auto simp: map_filter_simps kept_header_def header_of_def split: option.splits)
  then show ?thesis by (simp only: kept_headers_def)
qed

subsection \<open>Lifetimes\<close>

text \<open>A response lives in the shared cache no longer than the cap and, when the upstream names an
  age, no longer than that age; \<open>no-store\<close>, \<open>no-cache\<close> and \<open>private\<close> forbid storing whatever else
  the header says, and without any age only the configured default lets it in.\<close>
theorem ttl_conservative:
  "resolve_ttl_ms config reply \<le> max 0 (CACHE_MAX_TTL_MS config)
    \<and> (0 < resolve_ttl_ms config reply \<longrightarrow>
        (let control = header_text (header_of (reply_headers reply) HdrCacheControl)
         in \<not> forbids_storing control
            \<and> resolve_ttl_ms config reply \<le> CACHE_MAX_TTL_MS config
            \<and> (case age_directive control of
                 Some ds \<Rightarrow> resolve_ttl_ms config reply \<le> 1000 * int (nat_of_digits ds)
               | None \<Rightarrow> resolve_ttl_ms config reply \<le> CACHE_DEFAULT_TTL_MS config)))"
  by (auto simp: resolve_ttl_ms_def Let_def split: option.split)

theorem ttl_conservative_witness:
  "0 < resolve_ttl_ms (default_config\<lparr>CACHE_MAX_TTL_MS := 60000\<rparr>)
         (reply_header HdrCacheControl ''public, max-age=30'' fresh_reply)
    \<and> resolve_ttl_ms (default_config\<lparr>CACHE_MAX_TTL_MS := 60000\<rparr>)
         (reply_header HdrCacheControl ''public, max-age=30'' fresh_reply) \<le> 30000"
proof -
  let ?c = "default_config\<lparr>CACHE_MAX_TTL_MS := 60000\<rparr>"
  let ?r = "reply_header HdrCacheControl ''public, max-age=30'' fresh_reply"
  have age: "age_directive ''public, max-age=30'' = Some ''30''" "nat_of_digits ''30'' = 30"
    "\<not> forbids_storing ''public, max-age=30''"
    by code_simp+
  have control: "header_text (header_of (reply_headers ?r) HdrCacheControl) = ''public, max-age=30''"
    by (simp add: header_text_def)
  have pos: "0 < resolve_ttl_ms ?c ?r"
    unfolding resolve_ttl_ms_def Let_def control using age by simp
  then show ?thesis using ttl_conservative [of ?c ?r] unfolding control Let_def age(1) option.case
    by (simp add: age(2))
qed

subsection \<open>Storing\<close>

definition payload_bytes :: "payload \<Rightarrow> bytes option" where
  "payload_bytes p =
     (case p of TextPayload s \<Rightarrow> Some (utf8_encode (js_codes s))
      | BufferPayload b \<Rightarrow> Some b
      | StreamPayload s \<Rightarrow> if stream_fails s then None else Some (concat (map chunk_bytes (chunks s)))
      | _ \<Rightarrow> None)"

lemma tee_overflowed:
  "tee_overflow t \<Longrightarrow> fold (tee_data limit) cs t = t"
  by (induction cs) (simp_all add: tee_data_def)

lemma tee_fold:
  assumes "\<not> tee_overflow t" and "0 \<le> tee_size t" and "tee_size t \<le> limit \<or> cs \<noteq> []"
  defines "amount \<equiv> tee_size t + int (length (concat (map chunk_bytes cs)))"
  shows "(tee_overflow (fold (tee_data limit) cs t) \<longleftrightarrow> limit < amount)
    \<and> (amount \<le> limit \<longrightarrow> tee_chunks (fold (tee_data limit) cs t) = tee_chunks t @ map chunk_bytes cs)"
  using assms(1-3) unfolding amount_def
proof (induction cs arbitrary: t)
  case (Cons c cs)
  show ?case
  proof (cases "limit < tee_size t + int (length (chunk_bytes c))")
    case True
    then have "tee_overflow (tee_data limit c t)"
      using Cons.prems(1) by (simp add: tee_data_def Let_def)
    with tee_overflowed [OF this] True show ?thesis by auto
  next
    case False
    with Cons.prems have "\<not> tee_overflow (tee_data limit c t)" "0 \<le> tee_size (tee_data limit c t)"
      "tee_size (tee_data limit c t) = tee_size t + int (length (chunk_bytes c))"
      "tee_chunks (tee_data limit c t) = tee_chunks t @ [chunk_bytes c]"
      by (simp_all add: tee_data_def Let_def)
    with Cons.IH [of "tee_data limit c t"] False show ?thesis by (simp add: add.assoc)
  qed
qed auto

lemma tee_stream:
  assumes "0 \<le> limit"
  shows "tee_overflow (fold (tee_data limit) cs tee_start)
      \<longleftrightarrow> limit < int (length (concat (map chunk_bytes cs)))"
    and "int (length (concat (map chunk_bytes cs))) \<le> limit \<Longrightarrow>
      concat (tee_chunks (fold (tee_data limit) cs tee_start)) = concat (map chunk_bytes cs)"
  using tee_fold [of tee_start limit cs] assms by (simp_all add: tee_start_def)

lemma vary_MISS [simp]: "vary_is_keyed (reply_header HdrCache v reply) = vary_is_keyed reply"
  and ttl_MISS [simp]: "resolve_ttl_ms config (reply_header HdrCache v reply) = resolve_ttl_ms config reply"
  by (simp_all add: vary_is_keyed_def resolve_ttl_ms_def)

lemma kept_MISS [simp]: "kept_headers (reply_header HdrCache v reply) = kept_headers reply"
proof -
  have "k \<noteq> HdrCache \<Longrightarrow> kept_header (reply_header HdrCache v reply) k = kept_header reply k" for k
    by (simp add: kept_header_def)
  then have "HdrCache \<notin> set ks \<Longrightarrow> List.map_filter (kept_header (reply_header HdrCache v reply)) ks
      = List.map_filter (kept_header reply) ks" for ks
    by (induction ks) (auto simp: map_filter_simps split: option.split)
  moreover have "HdrCache \<notin> set stored_headers" by (simp add: stored_headers_def)
  ultimately show ?thesis unfolding kept_headers_def by blast
qed

lemma store_hook_cases:
  assumes "0 \<le> CACHE_MAX_BODY_BYTES config"
  shows "store_hook config req reply p =
    (if cache_key req = [] then reply else reply_header HdrCache ''MISS'' reply, p,
     case payload_bytes p of None \<Rightarrow> None
     | Some body \<Rightarrow>
        if cache_key req \<noteq> [] \<and> status_code reply = 200 \<and> vary_is_keyed reply
           \<and> 0 < resolve_ttl_ms config reply \<and> int (length body) \<le> CACHE_MAX_BODY_BYTES config
        then Some (store_entry req reply (resolve_ttl_ms config reply) body) else None)"
  using tee_stream [OF assms]
  by (cases p) (auto simp: store_hook_def payload_bytes_def Let_def store_entry_def not_less)

lemma cached_value:
  assumes "status_code reply = 200"
  shows "\<exists>j. json_parse (set_value (store_entry req reply ttl body)) = Some j
    \<and> \<not> json_falsy j
    \<and> entry_of_json j = Some \<lparr>cr_status = int (status_code reply), cr_headers = kept_headers reply,
        cr_body = base64_encode body\<rparr>"
  using entry_round_trip [of "\<lparr>cr_status = int (status_code reply), cr_headers = kept_headers reply,
      cr_body = base64_encode body\<rparr>"] kept_distinct assms
  by (simp add: store_entry_def)

text \<open>C33. Storing never touches what the client receives, and stores exactly what it may: a keyed 200
  response that varies on keyed dimensions only, with a positive lifetime and a complete body
  within the limit. The stored text parses back to the status, the kept headers and the very bytes
  of the body, whether it arrived as text, as a buffer or chunk by chunk.\<close>
theorem store_hook_spec:
  assumes "0 \<le> CACHE_MAX_BODY_BYTES config"
    and "store_hook config req reply p = (reply', p', command)"
  shows "p' = p \<and> status_code reply' = status_code reply
    \<and> ((\<exists>c. command = Some c) \<longleftrightarrow>
        cache_key req \<noteq> [] \<and> status_code reply = 200 \<and> vary_is_keyed reply
        \<and> 0 < resolve_ttl_ms config reply
        \<and> (\<exists>body. payload_bytes p = Some body \<and> int (length body) \<le> CACHE_MAX_BODY_BYTES config))
    \<and> (\<forall>c. command = Some c \<longrightarrow> set_key c = cache_key req \<and> set_px c = resolve_ttl_ms config reply
        \<and> (\<exists>j body. json_parse (set_value c) = Some j \<and> payload_bytes p = Some body
             \<and> entry_of_json j = Some \<lparr>cr_status = 200, cr_headers = kept_headers reply,
                 cr_body = base64_encode body\<rparr>))"
proof -
  note cases = store_hook_cases [OF assms(1), of req reply p, unfolded assms(2)]
  have v: "status_code reply = 200 \<Longrightarrow>
      \<exists>j. json_parse (set_value (store_entry req reply ttl body)) = Some j
        \<and> entry_of_json j = Some \<lparr>cr_status = 200, cr_headers = kept_headers reply,
            cr_body = base64_encode body\<rparr>" for ttl body
    using cached_value [of reply req ttl body] by auto
  have k: "set_key (store_entry req reply ttl body) = cache_key req"
    "set_px (store_entry req reply ttl body) = ttl" for ttl body
    by (simp_all add: store_entry_def)
  show ?thesis using cases v
    by (cases "payload_bytes p") (auto simp: k split: if_splits)
qed

subsection \<open>Serving\<close>

definition may_serve :: "request \<Rightarrow> bool" where
  "may_serve req \<longleftrightarrow> req_method req = ''GET''
     \<and> \<not> header_truthy (req_header req HdrAuthorization)
     \<and> \<not> header_truthy (req_header req HdrCookie)
     \<and> \<not> has_word ''no-store'' (header_text (req_header req HdrCacheControl))"

definition found :: "cache_env \<Rightarrow> string \<Rightarrow> json option" where
  "found env key = fst (lookup_entry env key \<lparr>bindings = [], log_lines = []\<rparr>)"

lemma lookup_found: "fst (lookup_entry env key app_log) = found env key"
  by (auto simp: found_def lookup_entry_def split: redis_answer.split option.split)

lemma serve_not_allowed: "\<not> may_serve req \<Longrightarrow>
    serve_hook sha256 env service app_log req reply = Inr (app_log, req, reply)"
  by (auto simp: may_serve_def serve_hook_def Let_def)

lemma serve_allowed:
  fixes sha256 :: hash and service :: string and req :: request
  assumes "may_serve req"
  defines "key \<equiv> cache_key_of sha256 service req"
  defines "revalidate \<equiv> has_word ''no-cache'' (header_text (req_header req HdrCacheControl))"
  shows "\<exists>app_log'. serve_hook sha256 env service app_log req reply =
    (if revalidate then Inr (app_log', req\<lparr>cache_key := key\<rparr>, reply)
     else case found env key of
        None \<Rightarrow> Inr (app_log', req\<lparr>cache_key := key\<rparr>, reply)
      | Some j \<Rightarrow>
          if json_falsy j then Inr (app_log', req\<lparr>cache_key := key\<rparr>, reply)
          else (case entry_of_json j of
              None \<Rightarrow> Inl (Error ''malformed cache entry'')
            | Some hit \<Rightarrow> Inr (app_log', req\<lparr>cache_key := []\<rparr>, replay_hit hit reply)))"
proof -
  have f: "found env key = fst (lookup_entry env key app_log)" by (simp add: lookup_found)
  obtain jo app_log' where l: "lookup_entry env key app_log = (jo, app_log')"
    by (cases "lookup_entry env key app_log") auto
  show ?thesis
    using assms(1) unfolding f l fst_conv revalidate_def
    by (intro exI [of _ "if revalidate then app_log else app_log'"])
      (auto simp: serve_hook_def may_serve_def Let_def key_def [symmetric] l revalidate_def
        split: option.split)
qed

lemma not_keyed_not_stored: "cache_key req = [] \<Longrightarrow> store_hook config req reply p = (reply, p, None)"
  by (simp add: store_hook_def)

text \<open>Responses are never shared across credentials: a request that is not a \<open>GET\<close>, carries
  \<open>Authorization\<close> or \<open>Cookie\<close>, or says \<open>no-store\<close> is neither answered from the cache nor is its
  response stored, whatever the cache holds and whatever the upstream answers.\<close>
theorem credentialed_bypass:
  assumes "req_method req \<noteq> ''GET'' \<or> header_truthy (req_header req HdrAuthorization)
      \<or> header_truthy (req_header req HdrCookie)
      \<or> has_word ''no-store'' (header_text (req_header req HdrCacheControl))"
    and "cache_key req = []"
  shows "serve_hook sha256 env service app_log req reply = Inr (app_log, req, reply)
    \<and> store_hook config req answer p = (answer, p, None)"
  using assms by (auto simp: not_keyed_not_stored may_serve_def intro: serve_not_allowed)

theorem credentialed_bypass_witness:
  "serve_hook (\<lambda>b. b) \<lparr>redis_status = ''ready'', redis_get = (\<lambda>_. RedisRejected)\<rparr> ''public''
      \<lparr>bindings = [], log_lines = []\<rparr> (sample_request ''GET'' [(HdrCookie, ''sid=1'')]) fresh_reply
    = Inr (\<lparr>bindings = [], log_lines = []\<rparr>, sample_request ''GET'' [(HdrCookie, ''sid=1'')], fresh_reply)"
  using credentialed_bypass [of "sample_request ''GET'' [(HdrCookie, ''sid=1'')]"]
  by (simp add: sample_request_def [of _ "[(HdrCookie, ''sid=1'')]"] req_header_def)

text \<open>The cache fails open: with the Redis client closed, the lookup rejected or slower than its
  bound, no entry, or an entry that is not JSON, the request goes on to the upstream with nothing
  sent, and its response may still be stored under the request's key.\<close>
theorem lookup_fails_open:
  assumes "may_serve req"
    and "redis_status env \<in> {''end'', ''close''}
      \<or> redis_get env (cache_key_of sha256 service req) \<in> {RedisRejected, RedisTimedOut, RedisValue None}
      \<or> (\<exists>raw. redis_get env (cache_key_of sha256 service req) = RedisValue (Some raw) \<and> json_parse raw = None)"
  shows "\<exists>app_log'. serve_hook sha256 env service app_log req reply
    = Inr (app_log', req\<lparr>cache_key := cache_key_of sha256 service req\<rparr>, reply)"
proof -
  have "found env (cache_key_of sha256 service req) = None"
    using assms(2) by (auto simp: found_def lookup_entry_def)
  then show ?thesis using serve_allowed [OF assms(1), of sha256 env service app_log reply]
    by (auto split: if_splits)
qed

lemma replay_headers_simps [simp]:
  "status_code (replay_headers hs reply) = status_code reply"
  "sent (replay_headers hs reply) = sent reply"
  by (induction hs arbitrary: reply) (auto simp: replay_headers_def split: prod.split)

lemma replay_headers_at:
  "distinct (map fst hs) \<Longrightarrow> reply_headers (replay_headers hs reply) n =
    (case map_of hs n of Some v \<Rightarrow> Some (HStr v) | None \<Rightarrow> reply_headers reply n)"
proof (induction hs arbitrary: reply)
  case (Cons h hs)
  obtain m v where h: "h = (m, v)" by (cases h)
  have "replay_headers (h # hs) reply
      = replay_headers hs (reply\<lparr>reply_headers := (reply_headers reply)(m \<mapsto> HStr v)\<rparr>)"
    by (simp add: replay_headers_def h)
  moreover have "map_of hs m = None" using Cons.prems by (auto simp: h map_of_eq_None_iff)
  ultimately show ?case using Cons by (auto simp: h split: option.split)
qed (simp add: replay_headers_def)

lemma serve_hit:
  assumes "sent reply = None"
    and "serve_hook sha256 env service app_log req reply = Inr (app_log', req', reply')"
    and "sent reply' \<noteq> None"
  obtains raw j hit where "may_serve req"
    and "\<not> has_word ''no-cache'' (header_text (req_header req HdrCacheControl))"
    and "redis_get env (cache_key_of sha256 service req) = RedisValue (Some raw)"
    and "json_parse raw = Some j" and "entry_of_json j = Some hit"
    and "req' = req\<lparr>cache_key := []\<rparr>" and "reply' = replay_hit hit reply"
proof -
  have ms: "may_serve req"
    using assms serve_not_allowed by (metis Inr_inject prod.inject)
  from serve_allowed [OF this, of sha256 env service app_log reply] assms
  obtain j hit where nc: "\<not> has_word ''no-cache'' (header_text (req_header req HdrCacheControl))"
    and j: "found env (cache_key_of sha256 service req) = Some j" "entry_of_json j = Some hit"
    and r: "req' = req\<lparr>cache_key := []\<rparr>" "reply' = replay_hit hit reply"
    by (auto split: if_splits option.splits)
  from j(1) obtain raw where "redis_get env (cache_key_of sha256 service req) = RedisValue (Some raw)"
    "json_parse raw = Some j"
    by (auto simp: found_def lookup_entry_def split: if_splits redis_answer.splits option.splits)
  with that ms nc j(2) r show thesis by blast
qed

text \<open>A hit is only ever an allowed one and is exactly the stored entry: when the serve hook answers,
  the request was an uncredentialed \<open>GET\<close> without \<open>no-store\<close> or \<open>no-cache\<close>, Redis held a
  well-formed entry under its key, the client gets that status and those bytes marked
  \<open>x-cache: HIT\<close>, and the answer is not stored again.\<close>
theorem hit_sound:
  assumes "sent reply = None"
    and "serve_hook sha256 env service app_log req reply = Inr (app_log', req', reply')"
    and "sent reply' \<noteq> None"
  shows "may_serve req \<and> \<not> has_word ''no-cache'' (header_text (req_header req HdrCacheControl))
    \<and> (\<exists>raw j hit. redis_get env (cache_key_of sha256 service req) = RedisValue (Some raw)
        \<and> json_parse raw = Some j \<and> entry_of_json j = Some hit
        \<and> status_code reply' = nat (cr_status hit)
        \<and> sent reply' = Some (BufferPayload (base64_decode (cr_body hit)))
        \<and> header_of (reply_headers reply') HdrCache = Some (HStr ''HIT''))
    \<and> store_hook config req' reply' p = (reply', p, None)"
  by (rule serve_hit [OF assms]) (auto simp: replay_hit_def assms(1) not_keyed_not_stored)

lemma serve_stored:
  assumes "0 \<le> CACHE_MAX_BODY_BYTES config"
    and "store_hook config req reply p = (reply', p', Some command)"
    and "may_serve later" and "\<not> has_word ''no-cache'' (header_text (req_header later HdrCacheControl))"
    and "cache_key_of sha256 service later = set_key command"
    and "redis_status env = ''ready''"
    and "redis_get env (set_key command) = RedisValue (Some (set_value command))"
    and "sent fresh = None"
  shows "\<exists>body app_log' later' hit. payload_bytes p = Some body
    \<and> serve_hook sha256 env service app_log later fresh = Inr (app_log', later', hit)
    \<and> status_code hit = 200 \<and> sent hit = Some (BufferPayload body)
    \<and> (\<forall>n. reply_headers hit n =
        (if n = ''x-cache'' then Some (HStr ''HIT'')
         else if n \<in> header_name ` set stored_headers \<and> string_header (reply_headers reply n) \<noteq> None
         then reply_headers reply n else reply_headers fresh n))"
proof -
  note cases = store_hook_cases [OF assms(1), of req reply p, unfolded assms(2)]
  then obtain body ttl where body: "payload_bytes p = Some body" and st: "status_code reply = 200"
    and cmd: "command = store_entry req reply ttl body"
    by (auto split: option.splits if_splits)
  let ?e = "\<lparr>cr_status = int (status_code reply), cr_headers = kept_headers reply,
    cr_body = base64_encode body\<rparr>"
  from cached_value [OF st, of req ttl body] obtain j where
    j: "json_parse (set_value command) = Some j" "\<not> json_falsy j" "entry_of_json j = Some ?e"
    unfolding cmd by blast
  have "set_value command \<noteq> []" using j(1) by (auto simp: json_parse_def skip_ws_def)
  then have "found env (cache_key_of sha256 service later) = Some j"
    using assms(5,6,7) j(1) by (simp add: found_def lookup_entry_def)
  then obtain app_log' where s: "serve_hook sha256 env service app_log later fresh
      = Inr (app_log', later\<lparr>cache_key := []\<rparr>, replay_hit ?e fresh)"
    using serve_allowed [OF assms(3), of sha256 env service app_log fresh] assms(4) j(2,3) by auto
  have "map_of (kept_headers reply) n = Some v \<longleftrightarrow>
      n \<in> header_name ` set stored_headers \<and> reply_headers reply n = Some (HStr v)" for n v
    by (simp add: kept_headers_map string_header_text)
  then have "reply_headers (replay_hit ?e fresh) n =
      (if n = ''x-cache'' then Some (HStr ''HIT'')
       else if n \<in> header_name ` set stored_headers \<and> string_header (reply_headers reply n) \<noteq> None
       then reply_headers reply n else reply_headers fresh n)" for n
    using replay_headers_at [OF kept_distinct, of reply fresh n]
    by (auto simp: replay_hit_def set_header_def header_name.simps kept_headers_map
        split: option.splits dest!: string_header_text [THEN iffD1])
  with s body st show ?thesis
    by (intro exI [of _ body] exI [of _ app_log'] exI [of _ "later\<lparr>cache_key := []\<rparr>"]
        exI [of _ "replay_hit ?e fresh"])
      (simp add: replay_hit_def assms(8) base64_round_trip)
qed

text \<open>C22. Round trip through Redis: whatever the store hook stored for one response, a later allowed
  request with the same key is answered with that status 200, byte for byte that body, the kept
  headers of that response and \<open>x-cache: HIT\<close>; no other header of the stored response, such as
  \<open>set-cookie\<close>, is replayed.\<close>
theorem stored_then_served:
  assumes "0 \<le> CACHE_MAX_BODY_BYTES config"
    and "store_hook config req reply p = (reply', p', Some command)"
    and "may_serve later" and "\<not> has_word ''no-cache'' (header_text (req_header later HdrCacheControl))"
    and "cache_key_of sha256 service later = set_key command"
    and "redis_status env = ''ready''"
    and "redis_get env (set_key command) = RedisValue (Some (set_value command))"
    and "sent fresh = None"
  shows "\<exists>body app_log' later' hit. payload_bytes p = Some body
    \<and> serve_hook sha256 env service app_log later fresh = Inr (app_log', later', hit)
    \<and> status_code hit = 200 \<and> sent hit = Some (BufferPayload body)
    \<and> (\<forall>n. reply_headers hit n =
        (if n = ''x-cache'' then Some (HStr ''HIT'')
         else if n \<in> header_name ` set stored_headers \<and> string_header (reply_headers reply n) \<noteq> None
         then reply_headers reply n else reply_headers fresh n))"
  using assms by (rule serve_stored)

subsection \<open>A response on its way through\<close>

definition caching_config :: gateway_config where
  "caching_config = default_config\<lparr>CACHE_MAX_TTL_MS := 60000, CACHE_MAX_BODY_BYTES := 1000\<rparr>"

definition public_get :: request where
  "public_get = sample_request ''GET'' [(HdrAccept, ''text/plain'')]"

definition keyed_get :: request where
  "keyed_get = public_get\<lparr>cache_key := cache_key_of (\<lambda>b. b) ''public'' public_get\<rparr>"

definition upstream_reply :: reply where
  "upstream_reply = reply_header HdrContentType ''text/plain''
     (reply_header HdrCacheControl ''public, max-age=30'' fresh_reply)"

definition upstream_body :: payload where
  "upstream_body = StreamPayload \<lparr>chunks = [BufferChunk [104, 101], StringChunk ''llo''], stream_fails = False\<rparr>"

definition sample_command :: store_command where
  "sample_command = store_entry keyed_get upstream_reply (resolve_ttl_ms caching_config upstream_reply)
     [104, 101, 108, 108, 111]"

lemma sample_ttl: "0 < resolve_ttl_ms caching_config upstream_reply"
proof -
  have age: "age_directive ''public, max-age=30'' = Some ''30''" "nat_of_digits ''30'' = 30"
    "\<not> forbids_storing ''public, max-age=30''"
    by code_simp+
  have "header_text (header_of (reply_headers upstream_reply) HdrCacheControl) = ''public, max-age=30''"
    by (simp add: header_text_def upstream_reply_def)
  with age show ?thesis by (simp add: resolve_ttl_ms_def caching_config_def)
qed

lemma upstream_bytes: "payload_bytes upstream_body = Some [104, 101, 108, 108, 111]"
proof -
  have "utf8_encode (js_codes ''llo'') = [108, 108, 111]" by code_simp
  then show ?thesis by (simp add: payload_bytes_def upstream_body_def chunk_bytes_def)
qed

lemma sample_key: "cache_key keyed_get \<noteq> []"
  by (simp add: keyed_get_def cache_key_of_def)

lemma sample_stored:
  "store_hook caching_config keyed_get upstream_reply upstream_body
    = (reply_header HdrCache ''MISS'' upstream_reply, upstream_body, Some sample_command)"
proof -
  have "0 \<le> CACHE_MAX_BODY_BYTES caching_config" by (simp add: caching_config_def)
  moreover have "vary_is_keyed upstream_reply" "status_code upstream_reply = 200"
    by (simp_all add: vary_is_keyed_def upstream_reply_def fresh_reply_def)
  moreover have "int (length [104, 101, 108, 108, 111 :: byte]) \<le> CACHE_MAX_BODY_BYTES caching_config"
    by (simp add: caching_config_def)
  ultimately show ?thesis
    using store_hook_cases [of caching_config keyed_get upstream_reply upstream_body]
      sample_ttl sample_key
    by (simp add: upstream_bytes sample_command_def)
qed

definition stored_env :: cache_env where
  "stored_env = \<lparr>redis_status = ''ready'', redis_get = (\<lambda>k.
     if k = set_key sample_command then RedisValue (Some (set_value sample_command)) else RedisValue None)\<rparr>"

lemma public_get_served: "may_serve public_get"
  "\<not> has_word ''no-cache'' (header_text (req_header public_get HdrCacheControl))"
proof -
  have "\<not> has_word ''no-store'' []" "\<not> has_word ''no-cache'' []" by code_simp+
  then show "may_serve public_get"
    "\<not> has_word ''no-cache'' (header_text (req_header public_get HdrCacheControl))"
    by (simp_all add: may_serve_def public_get_def sample_request_def req_header_def header_text_def)
qed

theorem store_hook_spec_witness:
  "\<exists>c. store_hook caching_config keyed_get upstream_reply upstream_body
      = (reply_header HdrCache ''MISS'' upstream_reply, upstream_body, Some c)
    \<and> set_key c = cache_key keyed_get"
  using store_hook_spec [OF _ sample_stored] sample_stored by (simp add: caching_config_def)

theorem stored_then_served_witness:
  "\<exists>log' later' hit. serve_hook (\<lambda>b. b) stored_env ''public'' \<lparr>bindings = [], log_lines = []\<rparr>
      public_get fresh_reply = Inr (log', later', hit)
    \<and> sent hit = Some (BufferPayload [104, 101, 108, 108, 111])
    \<and> reply_headers hit ''content-type'' = Some (HStr ''text/plain'')"
proof -
  have k: "cache_key_of (\<lambda>b. b) ''public'' public_get = set_key sample_command"
    by (simp add: sample_command_def store_entry_def keyed_get_def)
  have e: "redis_status stored_env = ''ready''"
    "redis_get stored_env (set_key sample_command) = RedisValue (Some (set_value sample_command))"
    by (simp_all add: stored_env_def)
  have m: "0 \<le> CACHE_MAX_BODY_BYTES caching_config" by (simp add: caching_config_def)
  have n: "''content-type'' \<in> header_name ` set stored_headers"
    by (simp add: stored_headers_def header_name.simps)
  have h: "reply_headers upstream_reply ''content-type'' = Some (HStr ''text/plain'')"
    by (simp add: upstream_reply_def set_header_def header_name.simps)
  from stored_then_served [OF m sample_stored public_get_served k e fresh_unsent,
      of "\<lparr>bindings = [], log_lines = []\<rparr>"]
  obtain body log' later' hit where "payload_bytes upstream_body = Some body"
    "serve_hook (\<lambda>b. b) stored_env ''public'' \<lparr>bindings = [], log_lines = []\<rparr> public_get fresh_reply
      = Inr (log', later', hit)"
    "sent hit = Some (BufferPayload body)"
    "\<forall>n. reply_headers hit n = (if n = ''x-cache'' then Some (HStr ''HIT'')
       else if n \<in> header_name ` set stored_headers \<and> string_header (reply_headers upstream_reply n) \<noteq> None
       then reply_headers upstream_reply n else reply_headers fresh_reply n)"
    by blast
  then show ?thesis using n h by (auto simp: upstream_bytes)
qed

theorem lookup_fails_open_witness:
  "\<exists>log'. serve_hook (\<lambda>b. b) \<lparr>redis_status = ''ready'', redis_get = (\<lambda>_. RedisTimedOut)\<rparr> ''public''
      \<lparr>bindings = [], log_lines = []\<rparr> public_get fresh_reply
    = Inr (log', keyed_get, fresh_reply)"
  unfolding keyed_get_def
  by (rule lookup_fails_open [OF public_get_served(1)]) simp

lemma sample_hit:
  "\<exists>log' req' hit. serve_hook (\<lambda>b. b) stored_env ''public'' \<lparr>bindings = [], log_lines = []\<rparr>
      public_get fresh_reply = Inr (log', req', hit) \<and> sent hit \<noteq> None"
proof -
  have k: "cache_key_of (\<lambda>b. b) ''public'' public_get = set_key sample_command"
    by (simp add: sample_command_def store_entry_def keyed_get_def)
  have e: "redis_status stored_env = ''ready''"
    "redis_get stored_env (set_key sample_command) = RedisValue (Some (set_value sample_command))"
    by (simp_all add: stored_env_def)
  have "0 \<le> CACHE_MAX_BODY_BYTES caching_config" by (simp add: caching_config_def)
  from serve_stored [OF this sample_stored public_get_served k e fresh_unsent,
      of "\<lparr>bindings = [], log_lines = []\<rparr>"]
  show ?thesis by auto
qed

theorem hit_sound_witness:
  "\<exists>log' req' hit. serve_hook (\<lambda>b. b) stored_env ''public'' \<lparr>bindings = [], log_lines = []\<rparr>
      public_get fresh_reply = Inr (log', req', hit)
    \<and> header_of (reply_headers hit) HdrCache = Some (HStr ''HIT'')"
proof -
  obtain log' req' hit where s: "serve_hook (\<lambda>b. b) stored_env ''public''
      \<lparr>bindings = [], log_lines = []\<rparr> public_get fresh_reply = Inr (log', req', hit)"
    "sent hit \<noteq> None"
    using sample_hit by blast
  from hit_sound [OF fresh_unsent s] s(1) show ?thesis by blast
qed

subsection \<open>Corners of the lifetime and of the marker\<close>

text \<open>The default lifetime applies to any \<open>Cache-Control\<close> without an age, not only without one, and
  \<open>x-cache: MISS\<close> is set on keyed responses that are not stored.\<close>

lemma default_ttl_with_cache_control:
  "resolve_ttl_ms (default_config\<lparr>CACHE_MAX_TTL_MS := 60000, CACHE_DEFAULT_TTL_MS := 5000\<rparr>)
     (reply_header HdrCacheControl ''public, must-revalidate'' fresh_reply) = 5000"
proof -
  have "age_directive ''public, must-revalidate'' = None" "\<not> forbids_storing ''public, must-revalidate''"
    by code_simp+
  then show ?thesis by (simp add: resolve_ttl_ms_def header_text_def)
qed

lemma unstored_marked_miss:
  assumes "cache_key req \<noteq> []" and "status_code reply \<noteq> 200"
  shows "store_hook config req reply p = (reply_header HdrCache ''MISS'' reply, p, None)"
  using assms by (simp add: store_hook_def Let_def)

end
