(* ===== verification/CacheStore.thy ===== *)
theory CacheStore
  imports Cache
begin

section \<open>The shared store over time\<close>

text \<open>
  The two hooks of \<open>plugins/cache.ts\<close> around one Redis, used by any number of instances: responses
  are stored, time passes, entries expire or are evicted, lookups may fail. The detailed machine
  (\<open>cache_step\<close>) runs the hooks on the store's contents; the abstract one (\<open>shared_step\<close>) only knows
  which responses were published and when. The detailed machine refines the abstract one.
\<close>

subsection \<open>The detailed machine\<close>

record cache_sys =
  cs_time :: int
  cs_redis :: "string \<rightharpoonup> codes \<times> int"

definition empty_sys :: cache_sys where
  "empty_sys = \<lparr>cs_time = 0, cs_redis = Map.empty\<rparr>"

text \<open>A value set with \<open>PX\<close> is there until its time to live has passed.\<close>

definition live :: "cache_sys \<Rightarrow> string \<Rightarrow> codes option" where
  "live s key = (case cs_redis s key of None \<Rightarrow> None
     | Some (v, expires) \<Rightarrow> if cs_time s < expires then Some v else None)"

definition sees :: "cache_sys \<Rightarrow> cache_env \<Rightarrow> bool" where
  "sees s env \<longleftrightarrow>
     (\<forall>key. redis_get env key \<in> {RedisRejected, RedisTimedOut, RedisValue (live s key)})"

definition redis_set :: "store_command \<Rightarrow> cache_sys \<Rightarrow> cache_sys" where
  "redis_set c s = s\<lparr>cs_redis := (cs_redis s)(set_key c \<mapsto> (set_value c, cs_time s + set_px c))\<rparr>"

datatype cache_event = TimePassed int | Evicted string
  | Served int string request reply | Stored int string request reply payload

text \<open>A response is stored under the key the serve hook gave its request.\<close>

inductive cache_step :: "hash \<Rightarrow> gateway_config \<Rightarrow> cache_sys \<Rightarrow> cache_event \<Rightarrow> cache_sys \<Rightarrow> bool"
  for sha256 config where
  passed: "cs_time s \<le> t \<Longrightarrow> cache_step sha256 config s (TimePassed t) (s\<lparr>cs_time := t\<rparr>)"
| evicted: "cache_step sha256 config s (Evicted key) (s\<lparr>cs_redis := (cs_redis s)(key := None)\<rparr>)"
| served: "sees s env \<Longrightarrow> sent fresh = None
    \<Longrightarrow> serve_hook sha256 env service app_log req fresh = Inr (app_log', req', reply)
    \<Longrightarrow> cache_step sha256 config s (Served (cs_time s) service req reply) s"
| stored: "cache_key req = cache_key_of sha256 service req
    \<Longrightarrow> store_hook config req reply p = (reply', p', Some c)
    \<Longrightarrow> cache_step sha256 config s (Stored (cs_time s) service req reply p) (redis_set c s)"

inductive_cases cache_stepE: "cache_step sha256 config s e s'"

inductive cache_run :: "hash \<Rightarrow> gateway_config \<Rightarrow> cache_event list \<Rightarrow> cache_sys \<Rightarrow> bool"
  for sha256 config where
  cache_start: "cache_run sha256 config [] empty_sys"
| cache_next: "cache_run sha256 config es s \<Longrightarrow> cache_step sha256 config s e s'
    \<Longrightarrow> cache_run sha256 config (es @ [e]) s'"

subsection \<open>The abstract machine\<close>

record publication =
  pub_time :: int
  pub_service :: string
  pub_request :: request
  pub_reply :: reply
  pub_payload :: payload

record shared_cache =
  sc_time :: int
  sc_published :: "publication set"

definition pub_ttl :: "gateway_config \<Rightarrow> publication \<Rightarrow> int" where
  "pub_ttl config pub = resolve_ttl_ms config (pub_reply pub)"

text \<open>A published response answers a request of its service for the same URL and negotiated headers
  while it is fresh, with its bytes.\<close>

definition answers :: "gateway_config \<Rightarrow> int \<Rightarrow> publication \<Rightarrow> string \<Rightarrow> request \<Rightarrow> reply \<Rightarrow> bool" where
  "answers config t pub service req reply \<longleftrightarrow>
     pub_service pub = service \<and> cache_key_text (pub_request pub) = cache_key_text req
     \<and> pub_time pub \<le> t \<and> t < pub_time pub + pub_ttl config pub
     \<and> status_code (pub_reply pub) = 200 \<and> status_code reply = 200
     \<and> (\<exists>body. payload_bytes (pub_payload pub) = Some body \<and> sent reply = Some (BufferPayload body))"

inductive shared_step :: "gateway_config \<Rightarrow> shared_cache \<Rightarrow> cache_event \<Rightarrow> shared_cache \<Rightarrow> bool"
  for config where
  sh_passed: "sc_time a \<le> t \<Longrightarrow> shared_step config a (TimePassed t) (a\<lparr>sc_time := t\<rparr>)"
| sh_evicted: "shared_step config a (Evicted key) a"
| sh_missed: "sent reply = None \<Longrightarrow> shared_step config a (Served (sc_time a) service req reply) a"
| sh_hit: "may_serve req \<Longrightarrow> pub \<in> sc_published a \<Longrightarrow> answers config (sc_time a) pub service req reply
    \<Longrightarrow> shared_step config a (Served (sc_time a) service req reply) a"
| sh_stored: "shared_step config a (Stored (sc_time a) service req reply p)
    (a\<lparr>sc_published := insert \<lparr>pub_time = sc_time a, pub_service = service, pub_request = req,
       pub_reply = reply, pub_payload = p\<rparr> (sc_published a)\<rparr>)"

inductive_cases shared_stepE: "shared_step config a e a'"

inductive shared_run :: "gateway_config \<Rightarrow> cache_event list \<Rightarrow> shared_cache \<Rightarrow> bool" for config where
  shared_start: "shared_run config [] \<lparr>sc_time = 0, sc_published = {}\<rparr>"
| shared_next: "shared_run config es a \<Longrightarrow> shared_step config a e a' \<Longrightarrow> shared_run config (es @ [e]) a'"

subsection \<open>What the abstract machine guarantees\<close>

definition stored_event :: "publication \<Rightarrow> cache_event" where
  "stored_event pub =
     Stored (pub_time pub) (pub_service pub) (pub_request pub) (pub_reply pub) (pub_payload pub)"

lemma shared_hits:
  assumes "shared_run config es a"
  shows "(\<forall>pub \<in> sc_published a. stored_event pub \<in> set es)
    \<and> (\<forall>t service req reply. Served t service req reply \<in> set es \<longrightarrow> sent reply \<noteq> None \<longrightarrow>
         may_serve req \<and> (\<exists>pub. stored_event pub \<in> set es \<and> answers config t pub service req reply))"
  using assms
proof (induction rule: shared_run.induct)
  case shared_start
  show ?case by simp
next
  case (shared_next es a e a')
  let ?hits = "\<lambda>es. \<forall>t service req reply. Served t service req reply \<in> set es \<longrightarrow> sent reply \<noteq> None
    \<longrightarrow> may_serve req \<and> (\<exists>pub. stored_event pub \<in> set es \<and> answers config t pub service req reply)"
  have old: "?hits (es @ [e])" if "\<forall>t service req reply. e \<noteq> Served t service req reply"
    using shared_next(3) that by (simp add: stored_event_def) blast
  from shared_next(2) show ?case
  proof (cases rule: shared_step.cases)
    case sh_passed
    then show ?thesis using shared_next(3) old by simp
  next
    case sh_evicted
    then show ?thesis using shared_next(3) old by simp
  next
    case (sh_missed reply service req)
    have "?hits (es @ [e])" using shared_next(3) sh_missed(1,3) by (auto simp: stored_event_def)
    then show ?thesis using shared_next(3) sh_missed(2) by simp
  next
    case (sh_hit req pub service reply)
    have "?hits (es @ [e])"
      using shared_next(3) sh_hit(1,3,4,5) by (simp add: stored_event_def) blast
    then show ?thesis using shared_next(3) sh_hit(2) by simp
  next
    case (sh_stored service req reply p)
    then have "?hits (es @ [e])" using old by simp
    then show ?thesis using shared_next(3) sh_stored by (simp add: stored_event_def)
  qed
qed

subsection \<open>The refinement\<close>

text \<open>What the store holds under a key is the text of a published response with that key, up to the
  end of its life.\<close>

definition entry_of_publication ::
    "hash \<Rightarrow> gateway_config \<Rightarrow> publication \<Rightarrow> string \<Rightarrow> codes \<Rightarrow> int \<Rightarrow> bool" where
  "entry_of_publication sha256 config pub key v expires \<longleftrightarrow>
     key = cache_key_of sha256 (pub_service pub) (pub_request pub)
     \<and> expires = pub_time pub + pub_ttl config pub \<and> status_code (pub_reply pub) = 200
     \<and> (\<exists>body. payload_bytes (pub_payload pub) = Some body
          \<and> v = set_value (store_entry (pub_request pub) (pub_reply pub) (pub_ttl config pub) body))"

definition represents :: "hash \<Rightarrow> gateway_config \<Rightarrow> cache_sys \<Rightarrow> shared_cache \<Rightarrow> bool" where
  "represents sha256 config s a \<longleftrightarrow> sc_time a = cs_time s
     \<and> (\<forall>pub \<in> sc_published a. pub_time pub \<le> sc_time a)
     \<and> (\<forall>key v expires. cs_redis s key = Some (v, expires) \<longrightarrow>
          (\<exists>pub \<in> sc_published a. entry_of_publication sha256 config pub key v expires))"

lemma store_step:
  assumes "represents sha256 config s a" and "0 \<le> CACHE_MAX_BODY_BYTES config"
    and "cache_key req = cache_key_of sha256 service req"
    and "store_hook config req reply p = (reply', p', Some c)"
  shows "represents sha256 config (redis_set c s)
    (a\<lparr>sc_published := insert \<lparr>pub_time = sc_time a, pub_service = service, pub_request = req,
       pub_reply = reply, pub_payload = p\<rparr> (sc_published a)\<rparr>)"
proof -
  let ?pub = "\<lparr>pub_time = sc_time a, pub_service = service, pub_request = req,
       pub_reply = reply, pub_payload = p\<rparr>"
  from store_hook_cases [OF assms(2), of req reply p] assms(4) obtain body where
    b: "payload_bytes p = Some body" "status_code reply = 200"
    "c = store_entry req reply (resolve_ttl_ms config reply) body"
    by (auto split: option.splits if_splits)
  then have "entry_of_publication sha256 config ?pub (set_key c) (set_value c) (cs_time s + set_px c)"
    using assms(1,3)
    by (simp add: entry_of_publication_def pub_ttl_def represents_def store_entry_def)
  with assms(1) show ?thesis
    by (auto simp: represents_def redis_set_def split: if_splits)
qed

lemma serve_step:
  assumes "represents sha256 config s a" and "sees s env" and "sent fresh = None"
    and "serve_hook sha256 env service app_log req fresh = Inr (app_log', req', reply)"
    and "\<And>pub. pub \<in> sc_published a \<Longrightarrow> no_collision sha256 (js_codes (cache_key_text req))
      (js_codes (cache_key_text (pub_request pub)))"
  shows "shared_step config a (Served (cs_time s) service req reply) a"
proof (cases "sent reply = None")
  case True
  then show ?thesis using assms(1) sh_missed [of reply config a service req]
    by (simp add: represents_def)
next
  case False
  obtain raw j hit where ms: "may_serve req"
    and raw: "redis_get env (cache_key_of sha256 service req) = RedisValue (Some raw)"
    and j: "json_parse raw = Some j" "entry_of_json j = Some hit"
    and reply: "reply = replay_hit hit fresh"
    by (rule serve_hit [OF assms(3,4) False])
  from assms(2) have "redis_get env (cache_key_of sha256 service req)
      \<in> {RedisRejected, RedisTimedOut, RedisValue (live s (cache_key_of sha256 service req))}"
    unfolding sees_def by blast
  with raw have "live s (cache_key_of sha256 service req) = Some raw" by auto
  then obtain expires where e: "cs_redis s (cache_key_of sha256 service req) = Some (raw, expires)"
    "cs_time s < expires"
    by (auto simp: live_def split: option.splits if_splits)
  with assms(1) obtain pub where pub: "pub \<in> sc_published a" "pub_time pub \<le> sc_time a"
    "entry_of_publication sha256 config pub (cache_key_of sha256 service req) raw expires"
    unfolding represents_def by blast
  then obtain body where body: "payload_bytes (pub_payload pub) = Some body"
    "raw = set_value (store_entry (pub_request pub) (pub_reply pub) (pub_ttl config pub) body)"
    "status_code (pub_reply pub) = 200" "expires = pub_time pub + pub_ttl config pub"
    by (auto simp: entry_of_publication_def)
  from pub(3) have "cache_key_of sha256 service req
      = cache_key_of sha256 (pub_service pub) (pub_request pub)"
    by (simp add: entry_of_publication_def)
  then have "service = pub_service pub \<and> cache_key_text req = cache_key_text (pub_request pub)"
    by (simp only: cache_key_eq [OF assms(5) [OF pub(1)]])
  then have same: "pub_service pub = service" "cache_key_text (pub_request pub) = cache_key_text req"
    by simp_all
  from cached_value [OF body(3), of "pub_request pub" "pub_ttl config pub" body] j body(2)
  have "hit = \<lparr>cr_status = int (status_code (pub_reply pub)), cr_headers = kept_headers (pub_reply pub),
    cr_body = base64_encode body\<rparr>" by auto
  then have "status_code reply = 200" "sent reply = Some (BufferPayload body)"
    by (simp_all add: reply replay_hit_def assms(3) body(3) base64_round_trip)
  with same pub(1,2) body e(2) assms(1) have "answers config (sc_time a) pub service req reply"
    by (simp add: answers_def represents_def)
  from sh_hit [OF ms pub(1) this] assms(1) show ?thesis by (simp add: represents_def)
qed

text \<open>The requests of a run whose cache keys are computed, and what is assumed of SHA-256: no two of their key
  texts collide.\<close>

fun event_request :: "cache_event \<Rightarrow> request option" where
  "event_request (Served _ _ req _) = Some req"
| "event_request (Stored _ _ req _ _) = Some req"
| "event_request _ = None"

definition keys_apart :: "hash \<Rightarrow> cache_event list \<Rightarrow> bool" where
  "keys_apart sha256 es \<longleftrightarrow> (\<forall>e \<in> set es. \<forall>e' \<in> set es. \<forall>q q'.
     event_request e = Some q \<longrightarrow> event_request e' = Some q'
     \<longrightarrow> no_collision sha256 (js_codes (cache_key_text q)) (js_codes (cache_key_text q')))"

lemma keys_apart_prefix: "keys_apart sha256 (es @ es') \<Longrightarrow> keys_apart sha256 es"
  unfolding keys_apart_def set_append by (meson UnI1)

lemma refinement_step:
  assumes "cache_step sha256 config s e s'" and "represents sha256 config s a"
    and "0 \<le> CACHE_MAX_BODY_BYTES config"
    and "\<And>pub q. pub \<in> sc_published a \<Longrightarrow> event_request e = Some q
      \<Longrightarrow> no_collision sha256 (js_codes (cache_key_text q)) (js_codes (cache_key_text (pub_request pub)))"
  shows "\<exists>a'. shared_step config a e a' \<and> represents sha256 config s' a'"
  using assms(1)
proof (cases rule: cache_step.cases)
  case (passed t)
  then have "shared_step config a e (a\<lparr>sc_time := t\<rparr>)"
    using assms(2) sh_passed [of a t config] by (simp add: represents_def)
  moreover have "represents sha256 config s' (a\<lparr>sc_time := t\<rparr>)"
    using passed assms(2) by (force simp: represents_def)
  ultimately show ?thesis by blast
next
  case (evicted key)
  then show ?thesis using assms(2) sh_evicted [of config a key]
    by (auto simp: represents_def split: if_splits)
next
  case (served env fresh service app_log req app_log' req' reply)
  have "shared_step config a (Served (cs_time s) service req reply) a"
    by (rule serve_step [OF assms(2) served(3,4,5)]) (use assms(4) served(1) in simp)
  with served assms(2) show ?thesis by auto
next
  case (stored req service reply p reply' p' c)
  have "cs_time s = sc_time a" using assms(2) by (simp add: represents_def)
  with stored sh_stored [of config a service req reply p]
    store_step [OF assms(2,3) stored(3,4)] show ?thesis by metis
qed

lemma empty_represents: "represents sha256 config empty_sys \<lparr>sc_time = 0, sc_published = {}\<rparr>"
  by (simp add: represents_def empty_sys_def)

lemma run_refines:
  assumes "cache_run sha256 config es s" and "0 \<le> CACHE_MAX_BODY_BYTES config" and "keys_apart sha256 es"
  shows "\<exists>a. shared_run config es a \<and> represents sha256 config s a"
  using assms(1,3)
proof (induction rule: cache_run.induct)
  case cache_start
  show ?case using shared_start empty_represents by blast
next
  case (cache_next es s e s')
  then obtain a where a: "shared_run config es a" "represents sha256 config s a"
    using keys_apart_prefix by blast
  have "no_collision sha256 (js_codes (cache_key_text q)) (js_codes (cache_key_text (pub_request pub)))"
    if "pub \<in> sc_published a" "event_request e = Some q" for pub q
  proof -
    have "stored_event pub \<in> set es" using shared_hits [OF a(1)] that(1) by blast
    moreover have "event_request (stored_event pub) = Some (pub_request pub)" by (simp add: stored_event_def)
    ultimately show ?thesis using cache_next.prems that(2) unfolding keys_apart_def by simp
  qed
  from refinement_step [OF cache_next.hyps(2) a(2) assms(2) this] obtain a' where
    "shared_step config a e a'" "represents sha256 config s' a'" by blast
  then show ?case using shared_next [OF a(1)] by blast
qed

text \<open>C7. The cache refines its specification: whatever the hooks do around Redis, over any interleaving
  of responses, lookups that fail or time out, passing time and evictions, the same events are a run
  of the machine that only knows which responses were published and when, and the store never holds
  anything but published responses. Only a collision of SHA-256 between the requests of the run could
  break this.\<close>
theorem cache_refines_published:
  assumes "cache_run sha256 config es s" and "0 \<le> CACHE_MAX_BODY_BYTES config" and "keys_apart sha256 es"
  shows "\<exists>a. shared_run config es a \<and> represents sha256 config s a"
  using assms by (rule run_refines)

text \<open>C35. Every hit was published: in every run of the shared cache, an answer from the cache went to an
  uncredentialed \<open>GET\<close>, and is byte for byte the body of an earlier 200 response of the same service
  for the same URL, \<open>accept\<close> and \<open>accept-encoding\<close>, stored less than its resolved lifetime before,
  hence less than the cap \<open>CACHE_MAX_TTL_MS\<close>, unless SHA-256 collides on the requests of the run.\<close>
theorem every_hit_was_published:
  assumes "cache_run sha256 config es s" and "0 \<le> CACHE_MAX_BODY_BYTES config" and "keys_apart sha256 es"
    and "Served t service req reply \<in> set es" and "sent reply \<noteq> None"
  shows "may_serve req \<and> (\<exists>t0 req0 reply0 p0 body. Stored t0 service req0 reply0 p0 \<in> set es
    \<and> cache_key_text req0 = cache_key_text req
    \<and> status_code reply0 = 200 \<and> status_code reply = 200
    \<and> payload_bytes p0 = Some body \<and> sent reply = Some (BufferPayload body)
    \<and> t0 \<le> t \<and> t < t0 + resolve_ttl_ms config reply0 \<and> t < t0 + CACHE_MAX_TTL_MS config)"
proof -
  obtain a where "shared_run config es a" using run_refines [OF assms(1-3)] by blast
  from shared_hits [OF this] assms(4,5) obtain pub where m: "may_serve req"
    and pub: "stored_event pub \<in> set es" "answers config t pub service req reply" by blast
  have "t < pub_time pub + CACHE_MAX_TTL_MS config"
    using pub(2) by (auto simp: answers_def pub_ttl_def resolve_ttl_ms_def Let_def split: if_splits)
  with m pub show ?thesis
    by (auto simp: answers_def stored_event_def pub_ttl_def intro!: exI [of _ "pub_time pub"]
        exI [of _ "pub_request pub"] exI [of _ "pub_reply pub"] exI [of _ "pub_payload pub"])
qed

subsection \<open>A concrete run\<close>

text \<open>Over a hash of fixed length, 32 bytes.\<close>

definition short_hash :: hash where
  "short_hash b = take 32 (b @ replicate 32 0)"

lemma short_hash_length: "length (short_hash b) = 32"
  by (simp add: short_hash_def)

definition short_keyed :: request where
  "short_keyed = public_get\<lparr>cache_key := cache_key_of short_hash ''public'' public_get\<rparr>"

lemma short_stored:
  obtains c where "store_hook caching_config short_keyed upstream_reply upstream_body
      = (reply_header HdrCache ''MISS'' upstream_reply, upstream_body, Some c)"
    and "set_key c = cache_key_of short_hash ''public'' public_get" and "0 < set_px c"
proof -
  have "0 \<le> CACHE_MAX_BODY_BYTES caching_config" "vary_is_keyed upstream_reply" "status_code upstream_reply = 200"
    "int (length [104, 101, 108, 108, 111 :: byte]) \<le> CACHE_MAX_BODY_BYTES caching_config"
    by (simp_all add: caching_config_def vary_is_keyed_def upstream_reply_def fresh_reply_def)
  moreover have k: "cache_key short_keyed \<noteq> []" by (simp add: short_keyed_def cache_key_of_def)
  ultimately have "store_hook caching_config short_keyed upstream_reply upstream_body
    = (reply_header HdrCache ''MISS'' upstream_reply, upstream_body,
       Some (store_entry short_keyed upstream_reply (resolve_ttl_ms caching_config upstream_reply)
         [104, 101, 108, 108, 111]))"
    using store_hook_cases [of caching_config short_keyed upstream_reply upstream_body] sample_ttl
    by (simp add: upstream_bytes)
  from that [OF this] sample_ttl show thesis by (simp add: store_entry_def short_keyed_def)
qed

lemma sample_run:
  "\<exists>hit s. cache_run short_hash caching_config
      [Stored 0 ''public'' short_keyed upstream_reply upstream_body, Served 0 ''public'' public_get hit] s
    \<and> sent hit \<noteq> None"
proof -
  obtain c where c: "store_hook caching_config short_keyed upstream_reply upstream_body
      = (reply_header HdrCache ''MISS'' upstream_reply, upstream_body, Some c)"
    "set_key c = cache_key_of short_hash ''public'' public_get" "0 < set_px c"
    by (rule short_stored)
  let ?s = "redis_set c empty_sys"
  define env where "env = \<lparr>redis_status = ''ready'', redis_get = (\<lambda>k.
     if k = set_key c then RedisValue (Some (set_value c)) else RedisValue None)\<rparr>"
  have "cache_key short_keyed = cache_key_of short_hash ''public'' short_keyed"
    by (simp add: short_keyed_def cache_key_of_def cache_key_text_def req_header_def)
  from stored [where s = empty_sys, OF this c(1)]
  have "cache_step short_hash caching_config empty_sys (Stored 0 ''public'' short_keyed upstream_reply upstream_body) ?s"
    by (simp add: empty_sys_def)
  from cache_next [OF cache_start this]
  have one: "cache_run short_hash caching_config [Stored 0 ''public'' short_keyed upstream_reply upstream_body] ?s"
    by simp
  have m: "0 \<le> CACHE_MAX_BODY_BYTES caching_config" by (simp add: caching_config_def)
  have e: "redis_status env = ''ready''" "redis_get env (set_key c) = RedisValue (Some (set_value c))"
    by (simp_all add: env_def)
  obtain log' req' hit where h: "serve_hook short_hash env ''public'' \<lparr>bindings = [], log_lines = []\<rparr>
      public_get fresh_reply = Inr (log', req', hit)" "sent hit \<noteq> None"
    using serve_stored [OF m c(1) public_get_served c(2) [symmetric] e fresh_unsent,
        of "\<lparr>bindings = [], log_lines = []\<rparr>"] by auto
  have "sees ?s env" using c(3)
    by (simp add: sees_def live_def redis_set_def empty_sys_def env_def)
  from served [OF this fresh_unsent h(1), of caching_config]
  have "cache_step short_hash caching_config ?s (Served 0 ''public'' public_get hit) ?s"
    by (simp add: redis_set_def empty_sys_def)
  from cache_next [OF one this] h(2) show ?thesis by auto
qed

lemma sample_apart:
  "keys_apart short_hash [Stored 0 ''public'' short_keyed upstream_reply upstream_body, Served 0 ''public'' public_get hit]"
proof -
  have "cache_key_text short_keyed = cache_key_text public_get"
    by (simp add: short_keyed_def cache_key_text_def req_header_def)
  then show ?thesis by (auto simp: keys_apart_def no_collision_def)
qed

theorem cache_refines_published_witness:
  "\<exists>hit a. shared_run caching_config [Stored 0 ''public'' short_keyed upstream_reply upstream_body,
      Served 0 ''public'' public_get hit] a \<and> sent hit \<noteq> None"
proof -
  have "0 \<le> CACHE_MAX_BODY_BYTES caching_config" by (simp add: caching_config_def)
  with sample_run cache_refines_published [OF _ _ sample_apart] show ?thesis by blast
qed

theorem every_hit_was_published_witness:
  "\<exists>hit s. cache_run short_hash caching_config
      [Stored 0 ''public'' short_keyed upstream_reply upstream_body, Served 0 ''public'' public_get hit] s
    \<and> status_code hit = 200 \<and> may_serve public_get"
proof -
  have m: "0 \<le> CACHE_MAX_BODY_BYTES caching_config" by (simp add: caching_config_def)
  obtain hit s where run: "cache_run short_hash caching_config
      [Stored 0 ''public'' short_keyed upstream_reply upstream_body, Served 0 ''public'' public_get hit] s"
    and sent: "sent hit \<noteq> None" using sample_run by blast
  from every_hit_was_published [OF run m sample_apart _ sent, of 0 "''public''" public_get]
  have "status_code hit = 200" "may_serve public_get" by auto
  with run show ?thesis by blast
qed

end
