(* ===== verification/Strategies.thy ===== *)
theory Strategies
  imports Credentials Json
begin

section \<open>Edge authentication strategies\<close>

text \<open>
  \<open>src/src/strategies/\<close>: the four factories of request guards. A guard reads the request, may
  answer it (401 or 500), and lets it pass by leaving the reply unsent. What a guard asks of the
  outside is its environment: the clock at the three places the bearer guard reads it, the answer
  of \<open>fetch\<close> to an introspection call, and the verdict of \<open>jose\<close> on a token. The only state is the
  introspection cache of the bearer strategy, an insertion-ordered map from token hashes to
  expiry times.

  \<open>auth_guard\<close> is the contract the proxy core relies on: a guard passes the request on untouched
  or rejects it with one of the two uniform bodies. Each of the four guards is proved to be one.
\<close>

subsection \<open>Environment, state and the type of a guard\<close>

record fetch_call =
  call_url :: string
  call_headers :: "(string \<times> string) list"
  call_body :: codes

datatype fetch_result = FetchRejected | FetchResponse (response_ok: bool) (response_text: codes)

datatype jwt_key = RemoteJwks string | SecretKey bytes

record jwt_verify_options =
  verify_issuer :: "string option"
  verify_audience :: "string option"

record auth_env =
  now_lookup :: int
  now_evict :: int
  now_store :: int
  fetch_answer :: "fetch_call \<Rightarrow> fetch_result"
  jwt_valid :: "string \<Rightarrow> jwt_key \<Rightarrow> jwt_verify_options \<Rightarrow> bool"

type_synonym token_cache = "(string, int) js_map"

type_synonym strategy =
  "auth_env \<Rightarrow> token_cache \<Rightarrow> request \<Rightarrow> reply \<Rightarrow> token_cache \<times> request \<times> reply"

definition with_log :: "token_cache \<Rightarrow> request \<times> reply \<Rightarrow> token_cache \<times> request \<times> reply" where
  "with_log st rr = (st, fst rr, snd rr)"

subsection \<open>API key\<close>

definition create_api_key_strategy :: "hash \<Rightarrow> string \<Rightarrow> strategy" where
  "create_api_key_strategy sha256 api_key env st req reply =
     (if api_key = [] then
        with_log st (send_misconfigured req reply
          ''GATEWAY_API_KEY is not set but a route requires it'')
      else case string_header (req_header req HdrApiKey) of
        None \<Rightarrow> (st, req, send_unauthorized req reply)
      | Some provided \<Rightarrow>
          if \<not> safe_equal sha256 (js_codes provided) (js_codes api_key)
          then (st, req, send_unauthorized req reply)
          else (st, req, reply))"

subsection \<open>HTTP Basic\<close>

definition timing_equalizer :: string where
  "timing_equalizer = ''gateway-timing-equalizer''"

definition basic_challenge :: string where
  "basic_challenge = ''Basic realm=\"gateway\"''"

definition create_basic_auth_strategy :: "hash \<Rightarrow> user_map \<Rightarrow> strategy" where
  "create_basic_auth_strategy sha256 users env st req reply =
     (if jm_size users = 0 then
        with_log st (send_misconfigured req reply
          ''BASIC_AUTH_USERS is not set but a route requires it'')
      else
        let credentials = parse_basic_auth_header (string_header (req_header req HdrAuthorization));
            expected = (case credentials of None \<Rightarrow> None | Some c \<Rightarrow> jm_get users (cred_username c));
            authorized =
              (case credentials of None \<Rightarrow> False
               | Some c \<Rightarrow>
                   safe_equal sha256 (cred_password c)
                     (case expected of None \<Rightarrow> js_codes timing_equalizer | Some p \<Rightarrow> p)
                   \<and> expected \<noteq> None)
        in if \<not> authorized
           then (st, req, send_unauthorized req
                   (reply_header HdrWwwAuthenticate basic_challenge reply))
           else (st, req, reply))"

subsection \<open>JWT\<close>

record jwt_options =
  jwt_secret :: "string option"
  jwt_jwks_uri :: "string option"
  jwt_issuer :: "string option"
  jwt_audience :: "string option"

text \<open>A string option is true when it is present and not empty.\<close>

fun truthy :: "string option \<Rightarrow> string option" where
  "truthy (Some (c # s)) = Some (c # s)"
| "truthy _ = None"

definition jwt_key_of :: "(string \<Rightarrow> bool) \<Rightarrow> jwt_options \<Rightarrow> jwt_key option result" where
  "jwt_key_of url_parses options =
     (case truthy (jwt_jwks_uri options) of
        Some uri \<Rightarrow> if url_parses uri then Inr (Some (RemoteJwks uri)) else Inl (Error ''Invalid URL'')
      | None \<Rightarrow>
         (case truthy (jwt_secret options) of
            Some secret \<Rightarrow> Inr (Some (SecretKey (utf8_encode (js_codes secret))))
          | None \<Rightarrow> Inr None))"

definition jwt_verify_options_of :: "jwt_options \<Rightarrow> jwt_verify_options" where
  "jwt_verify_options_of options =
     \<lparr>verify_issuer = truthy (jwt_issuer options), verify_audience = truthy (jwt_audience options)\<rparr>"

definition jwt_guard :: "jwt_key option \<Rightarrow> jwt_verify_options \<Rightarrow> strategy" where
  "jwt_guard key options env st req reply =
     (case key of
        None \<Rightarrow> with_log st (send_misconfigured req reply ''JWT auth requires JWT_SECRET or JWT_JWKS_URI'')
      | Some k \<Rightarrow>
         (case parse_bearer_token (string_header (req_header req HdrAuthorization)) of
            None \<Rightarrow> (st, req, send_unauthorized req reply)
          | Some token \<Rightarrow>
              if jwt_valid env token k options then (st, req, reply)
              else (st, req, send_unauthorized req reply)))"

definition create_jwt_strategy :: "(string \<Rightarrow> bool) \<Rightarrow> jwt_options \<Rightarrow> strategy result" where
  "create_jwt_strategy url_parses options =
     bind_result (jwt_key_of url_parses options)
       (\<lambda>key. Inr (jwt_guard key (jwt_verify_options_of options)))"

subsection \<open>Bearer: introspection with a bounded cache\<close>

definition default_cache_max_entries :: int where
  "default_cache_max_entries = 10000"

record bearer_options =
  introspection_url :: string
  introspection_token :: "string option"
  cache_ttl_ms :: int
  cache_max_entries :: int

definition introspection_headers :: "bearer_options \<Rightarrow> (string \<times> string) list" where
  "introspection_headers options =
     (header_name HdrContentType, ''application/json'') #
     (case truthy (introspection_token options) of None \<Rightarrow> []
      | Some t \<Rightarrow> [(header_name HdrAuthorization, ''Bearer '' @ t)])"

definition introspection_call :: "bearer_options \<Rightarrow> string \<Rightarrow> fetch_call" where
  "introspection_call options token =
     \<lparr>call_url = introspection_url options, call_headers = introspection_headers options,
      call_body = json_stringify (JObj [(jtext ''token'', JStr (js_codes token))])\<rparr>"

text \<open>\<open>Some b\<close>: the call answered and \<open>active = b\<close>; \<open>None\<close>: something threw.\<close>

definition introspection_active :: "fetch_result \<Rightarrow> bool option" where
  "introspection_active result =
     (case result of FetchRejected \<Rightarrow> None
      | FetchResponse ok body \<Rightarrow>
         (case json_parse body of None \<Rightarrow> None
          | Some j \<Rightarrow>
              if \<not> ok then Some False
              else map_option (\<lambda>m. m = Member (JBool True)) (json_get j ''active'')))"

text \<open>
  \<open>evictForInsert\<close>: below the cap nothing happens; else the expired entries go, and then the
  oldest ones until there is room.
\<close>

definition sweep_expired :: "int \<Rightarrow> token_cache \<Rightarrow> token_cache" where
  "sweep_expired now entries =
     fold (\<lambda>(key, expires_at) m. if expires_at \<le> now then jm_delete m key else m) entries entries"

fun evict_oldest :: "int \<Rightarrow> string list \<Rightarrow> token_cache \<Rightarrow> token_cache" where
  "evict_oldest cap [] entries = entries"
| "evict_oldest cap (key # keys) entries =
     (if int (jm_size entries) < cap then entries
      else evict_oldest cap keys (jm_delete entries key))"

definition evict_for_insert :: "int \<Rightarrow> int \<Rightarrow> token_cache \<Rightarrow> token_cache" where
  "evict_for_insert cap now entries =
     (if int (jm_size entries) < cap then entries
      else let swept = sweep_expired now entries in evict_oldest cap (jm_keys swept) swept)"

definition token_key :: "hash \<Rightarrow> string \<Rightarrow> string" where
  "token_key sha256 token = bytes_hex (digest sha256 (js_codes token))"

text \<open>The guard up to the introspection call, and from its answer on.\<close>

datatype bearer_progress = BearerDone request reply | BearerAwaits string string

definition caching :: "bearer_options \<Rightarrow> bool" where
  "caching options \<longleftrightarrow> 0 < cache_ttl_ms options"

definition bearer_begin ::
    "hash \<Rightarrow> bearer_options \<Rightarrow> int \<Rightarrow> token_cache \<Rightarrow> request \<Rightarrow> reply \<Rightarrow> token_cache \<times> bearer_progress"
  where
  "bearer_begin sha256 options now cache req reply =
     (if introspection_url options = [] then
        (let (req, reply) = send_misconfigured req reply
           ''BEARER_INTROSPECTION_URL is not set but a route requires it''
         in (cache, BearerDone req reply))
      else case parse_bearer_token (string_header (req_header req HdrAuthorization)) of
        None \<Rightarrow> (cache, BearerDone req (send_unauthorized req reply))
      | Some token \<Rightarrow>
          if \<not> caching options then (cache, BearerAwaits token [])
          else let key = token_key sha256 token in
            (case jm_get cache key of
               None \<Rightarrow> (cache, BearerAwaits token key)
             | Some expires_at \<Rightarrow>
                 if now < expires_at then (cache, BearerDone req reply)
                 else (jm_delete cache key, BearerAwaits token key)))"

definition bearer_finish ::
    "bearer_options \<Rightarrow> int \<Rightarrow> int \<Rightarrow> token_cache \<Rightarrow> string \<Rightarrow> fetch_result \<Rightarrow> request \<Rightarrow> reply
       \<Rightarrow> token_cache \<times> reply"
  where
  "bearer_finish options at_evict at_store cache key answer req reply =
     (case introspection_active answer of
        None \<Rightarrow> (cache, send_unauthorized req reply)
      | Some active \<Rightarrow>
          if \<not> active then (cache, send_unauthorized req reply)
          else if caching options then
            (jm_set (evict_for_insert (cache_max_entries options) at_evict cache) key
               (at_store + cache_ttl_ms options), reply)
          else (cache, reply))"

definition create_bearer_auth_strategy :: "hash \<Rightarrow> bearer_options \<Rightarrow> strategy" where
  "create_bearer_auth_strategy sha256 options env cache req reply =
     (case bearer_begin sha256 options (now_lookup env) cache req reply of
        (cache, BearerDone req reply) \<Rightarrow> (cache, req, reply)
      | (cache, BearerAwaits token key) \<Rightarrow>
          (let (cache, reply) = bearer_finish options (now_evict env) (now_store env) cache key
             (fetch_answer env (introspection_call options token)) req reply
           in (cache, req, reply)))"

subsection \<open>The contract of a guard\<close>

definition passes :: "request \<times> reply \<Rightarrow> request \<times> reply \<Rightarrow> bool" where
  "passes before after \<longleftrightarrow> after = before"

definition refuses :: "request \<times> reply \<Rightarrow> request \<times> reply \<Rightarrow> bool" where
  "refuses before after \<longleftrightarrow>
     (fst after = fst before \<and> rejected_with 401 ''Unauthorized'' (fst before) (snd after))
   \<or> (\<exists>detail. fst after = log_req LogError [] detail (fst before)
        \<and> rejected_with 500 ''Gateway misconfigured'' (fst before) (snd after))"

locale auth_guard =
  fixes guard :: strategy
  assumes outcome:
    "sent reply = None \<Longrightarrow> guard env st req reply = (st', after)
      \<Longrightarrow> passes (req, reply) after \<or> refuses (req, reply) after"
begin

lemma sent_iff_refused:
  assumes "sent reply = None" and "guard env st req reply = (st', req', reply')"
  shows "sent reply' \<noteq> None \<longleftrightarrow> refuses (req, reply) (req', reply')"
  using outcome [OF assms] assms(1)
  by (auto simp: passes_def refuses_def rejected_with_def)

lemma refusal_status:
  assumes "sent reply = None" and "guard env st req reply = (st', req', reply')"
    and "sent reply' \<noteq> None"
  shows "status_code reply' \<in> {401, 500}"
  using assms(3) unfolding sent_iff_refused [OF assms(1,2)]
  by (auto simp: refuses_def rejected_with_def)

lemma headers_kept:
  assumes "sent reply = None" and "guard env st req reply = (st', req', reply')"
  shows "req_headers req' = req_headers req \<and> req_id req' = req_id req"
  using outcome [OF assms] by (auto simp: passes_def refuses_def)

end

lemma refuses_unauthorized:
  "sent reply = None \<Longrightarrow> refuses (req, reply) (req, send_unauthorized req reply)"
  by (simp add: refuses_def send_unauthorized_rejects)

lemma refuses_unauthorized_header:
  "sent reply = None \<Longrightarrow>
    refuses (req, reply) (req, send_unauthorized req (reply_header k v reply))"
  by (simp add: refuses_def send_unauthorized_rejects)

lemma refuses_misconfigured:
  "sent reply = None \<Longrightarrow> refuses (req, reply) (send_misconfigured req reply d)"
  using send_misconfigured_rejects [of reply req d]
  by (cases "send_misconfigured req reply d") (auto simp: refuses_def)

lemma refuses_misconfigured_eq:
  "send_misconfigured req reply d = after \<Longrightarrow> sent reply = None \<Longrightarrow> refuses (req, reply) after"
  using refuses_misconfigured by blast

lemmas refusals = refuses_unauthorized refuses_unauthorized_header refuses_misconfigured

interpretation api_key_strategy: auth_guard "create_api_key_strategy sha256 key" for sha256 key
  by unfold_locales
    (auto simp: create_api_key_strategy_def with_log_def refusals passes_def
      split: if_splits option.splits)

interpretation basic_strategy: auth_guard "create_basic_auth_strategy sha256 users" for sha256 users
  by unfold_locales
    (auto simp: create_basic_auth_strategy_def with_log_def refusals passes_def Let_def
      split: if_splits option.splits)

interpretation jwt_strategy: auth_guard "jwt_guard key options" for key options
  by unfold_locales
    (auto simp: jwt_guard_def with_log_def refusals passes_def split: if_splits option.splits)

lemma bearer_begin_outcome:
  assumes "sent reply = None"
    and "bearer_begin sha256 options now cache req reply = (cache', BearerDone req' reply')"
  shows "passes (req, reply) (req', reply') \<or> refuses (req, reply) (req', reply')"
  using assms refusals [OF assms(1)]
  by (auto simp: bearer_begin_def passes_def Let_def split: if_splits option.splits prod.splits
      dest: refuses_misconfigured_eq)

lemma bearer_finish_outcome:
  assumes "sent reply = None"
    and "bearer_finish options t1 t2 cache key answer req reply = (cache', reply')"
  shows "passes (req, reply) (req, reply') \<or> refuses (req, reply) (req, reply')"
  using assms refusals [OF assms(1)]
  by (auto simp: bearer_finish_def passes_def split: if_splits option.splits)

interpretation bearer_strategy: auth_guard "create_bearer_auth_strategy sha256 options"
  for sha256 options
  by unfold_locales
    (auto simp: create_bearer_auth_strategy_def split: prod.splits bearer_progress.splits
      dest: bearer_begin_outcome bearer_finish_outcome)

text \<open>A guard touches no response header except \<open>www-authenticate\<close>, so the ids set on the reply
  survive a rejection, and its verdict does not depend on the reply it is given.\<close>

locale tagging_guard = auth_guard +
  assumes reply_tags: "guard env st req reply = (st', req', reply') \<Longrightarrow> k \<noteq> HdrWwwAuthenticate
      \<Longrightarrow> header_of (reply_headers reply') k = header_of (reply_headers reply) k"
    and verdict: "sent r1 = None \<Longrightarrow> sent r2 = None \<Longrightarrow>
      sent (snd (snd (guard env st req r1))) = None \<longleftrightarrow> sent (snd (snd (guard env st req r2))) = None"
begin

lemma refusal_tagged:
  assumes "sent reply = None" and "guard env st req reply = (st', req', reply')"
    and "sent reply' \<noteq> None" and "k \<noteq> HdrWwwAuthenticate"
  shows "status_code reply' \<in> {401, 500}
    \<and> header_of (reply_headers reply') k = header_of (reply_headers reply) k"
  using refusal_status [OF assms(1-3)] reply_tags [OF assms(2,4)] by blast

end

lemma send_misconfigured_sent [simp]:
  "sent (snd (send_misconfigured req r d)) \<noteq> None"
  by (simp add: send_misconfigured_def Let_def split: option.split)

lemma send_misconfigured_headers [simp]:
  "send_misconfigured req reply d = (req', reply') \<Longrightarrow> reply_headers reply' = reply_headers reply"
  by (auto simp: send_misconfigured_def Let_def)

interpretation api_key_tags: tagging_guard "create_api_key_strategy sha256 key" for sha256 key
  by unfold_locales
    (auto simp: create_api_key_strategy_def with_log_def split: if_splits option.splits)

interpretation basic_tags: tagging_guard "create_basic_auth_strategy sha256 users" for sha256 users
  by unfold_locales
    (auto simp: create_basic_auth_strategy_def with_log_def Let_def split: if_splits option.splits)

interpretation jwt_tags: tagging_guard "jwt_guard key options" for key options
  by unfold_locales (auto simp: jwt_guard_def with_log_def split: if_splits option.splits)

lemma bearer_begin_headers:
  "bearer_begin sha256 options now cache req reply = (cache', BearerDone req' reply')
    \<Longrightarrow> reply_headers reply' = reply_headers reply"
  by (auto simp: bearer_begin_def Let_def split: if_splits option.splits prod.splits)

lemma bearer_finish_headers:
  "bearer_finish options t1 t2 cache key answer req reply = (cache', reply')
    \<Longrightarrow> reply_headers reply' = reply_headers reply"
  by (auto simp: bearer_finish_def split: if_splits option.splits)

lemma bearer_begin_verdict:
  assumes "sent r1 = None" and "sent r2 = None"
  shows "case bearer_begin sha256 options now cache req r1 of
      (c, BearerDone req1 r1') \<Rightarrow>
        (\<exists>r2'. bearer_begin sha256 options now cache req r2 = (c, BearerDone req1 r2')
           \<and> (sent r1' = None \<longleftrightarrow> sent r2' = None))
    | (c, BearerAwaits key token) \<Rightarrow>
        bearer_begin sha256 options now cache req r2 = (c, BearerAwaits key token)"
  using assms
  by (auto simp: bearer_begin_def send_misconfigured_def Let_def split: option.splits)

lemma bearer_finish_verdict:
  assumes "sent r1 = None" and "sent r2 = None"
  shows "sent (snd (bearer_finish options t1 t2 cache key answer req r1)) = None
    \<longleftrightarrow> sent (snd (bearer_finish options t1 t2 cache key answer req r2)) = None"
  using assms by (auto simp: bearer_finish_def split: option.splits)

lemma bearer_verdict:
  assumes "sent r1 = None" and "sent r2 = None"
  shows "sent (snd (snd (create_bearer_auth_strategy sha256 options env st req r1))) = None
    \<longleftrightarrow> sent (snd (snd (create_bearer_auth_strategy sha256 options env st req r2))) = None"
  using bearer_begin_verdict [OF assms, of sha256 options "now_lookup env" st req]
    bearer_finish_verdict [OF assms]
  by (auto simp: create_bearer_auth_strategy_def split_beta split: bearer_progress.splits prod.splits)

interpretation bearer_tags: tagging_guard "create_bearer_auth_strategy sha256 options"
  for sha256 options
proof unfold_locales
  fix env st req reply st' req' reply' k
  assume "create_bearer_auth_strategy sha256 options env st req reply = (st', req', reply')"
  then show "header_of (reply_headers reply') k = header_of (reply_headers reply) k"
    by (auto simp: create_bearer_auth_strategy_def dest: bearer_begin_headers bearer_finish_headers
        split: prod.splits bearer_progress.splits)
qed (rule bearer_verdict)

subsection \<open>Who passes\<close>

definition admits :: "strategy \<Rightarrow> auth_env \<Rightarrow> token_cache \<Rightarrow> request \<Rightarrow> bool" where
  "admits guard env st req \<longleftrightarrow> sent (snd (snd (guard env st req fresh_reply))) = None"

lemma api_key_admits:
  assumes "\<And>s. string_header (req_header req HdrApiKey) = Some s
      \<Longrightarrow> no_collision sha256 (js_codes s) (js_codes key)"
  shows "admits (create_api_key_strategy sha256 key) env st req
    \<longleftrightarrow> key \<noteq> [] \<and> req_header req HdrApiKey = Some (HStr key)"
proof (cases "string_header (req_header req HdrApiKey)")
  case None
  then show ?thesis
    by (auto simp: admits_def create_api_key_strategy_def with_log_def)
next
  case (Some s)
  then have h: "req_header req HdrApiKey = Some (HStr s)"
    by (cases "req_header req HdrApiKey" rule: string_header.cases) auto
  have "safe_equal sha256 (js_codes s) (js_codes key) \<longleftrightarrow> s = key"
    using safe_equal_iff [OF assms [OF Some]] by (simp add: js_codes_scalar)
  with Some h show ?thesis
    by (auto simp: admits_def create_api_key_strategy_def with_log_def)
qed

text \<open>The API-key guard admits a request exactly when a key is configured and the request's
  single \<open>x-api-key\<close> header is that key (up to a SHA-256 collision with that very key); with an
  empty configured key nothing is admitted.\<close>
theorem api_key_admits_iff:
  assumes "\<And>s. string_header (req_header req HdrApiKey) = Some s
      \<Longrightarrow> no_collision sha256 (js_codes s) (js_codes key)"
  shows "admits (create_api_key_strategy sha256 key) env st req
    \<longleftrightarrow> key \<noteq> [] \<and> req_header req HdrApiKey = Some (HStr key)"
  using assms by (rule api_key_admits)

definition sample_env :: auth_env where
  "sample_env = \<lparr>now_lookup = 1000, now_evict = 1001, now_store = 1002,
     fetch_answer = (\<lambda>_. FetchResponse True (jtext ''{\"active\":true}'')),
     jwt_valid = (\<lambda>token key opts. token = ''a.b.c'')\<rparr>"

theorem api_key_admits_iff_witness:
  "admits (create_api_key_strategy (\<lambda>b. b) ''s3cret'') sample_env []
     (sample_request ''GET'' [(HdrApiKey, ''s3cret'')])"
  using api_key_admits_iff [of "sample_request ''GET'' [(HdrApiKey, ''s3cret'')]" "\<lambda>b. b" "''s3cret''"]
  by (simp add: no_collision_def)

lemma basic_guard_sent:
  "sent (snd (snd (create_basic_auth_strategy sha256 users env st req fresh_reply))) = None
    \<longleftrightarrow> (\<exists>c p. parse_basic_auth_header (string_header (req_header req HdrAuthorization)) = Some c
          \<and> jm_get users (cred_username c) = Some p \<and> safe_equal sha256 (cred_password c) p)"
proof (cases users)
  case Nil
  then show ?thesis
    by (auto simp: create_basic_auth_strategy_def with_log_def jm_size_def)
next
  case (Cons up ups)
  then show ?thesis
    by (auto simp: create_basic_auth_strategy_def Let_def jm_size_def split: option.splits)
qed

text \<open>The Basic guard admits a request exactly when its header decodes to a user on the list
  and a password that compares equal to that user's. The dummy secret that equalizes the timing of
  unknown users never admits anyone, even when it is sent as the password.\<close>
theorem basic_admits_iff:
  "admits (create_basic_auth_strategy sha256 users) env st req
    \<longleftrightarrow> (\<exists>c p. parse_basic_auth_header (string_header (req_header req HdrAuthorization)) = Some c
          \<and> jm_get users (cred_username c) = Some p \<and> safe_equal sha256 (cred_password c) p)"
  unfolding admits_def by (rule basic_guard_sent)

lemma jm_get_coded:
  "distinct (map fst ups) \<Longrightarrow> jm_get (coded ups) (js_codes u) = Some q
    \<longleftrightarrow> (\<exists>p. (u, p) \<in> set ups \<and> q = js_codes p)"
proof (induction ups)
  case Nil
  then show ?case by (simp add: coded_def)
next
  case (Cons up ups)
  then show ?case
    by (cases up) (auto simp: coded_def rev_image_eqI)
qed

text \<open>C23. End to end: with \<open>BASIC_AUTH_USERS\<close> listing distinct users and their passwords, a client
  that sends \<open>u\<close> and \<open>p\<close> the way \<open>encodeBasicAuth\<close> does is admitted exactly when the pair is on
  the list (the password not colliding with a listed one under SHA-256).\<close>
theorem basic_auth_end_to_end:
  assumes "list_all listable ups" and "distinct (map fst ups)" and "CHR '':'' \<notin> set u"
    and "parse_user_list (print_user_list ups) = Inr users"
    and "req_header req HdrAuthorization = Some (HStr (encode_basic_auth (u @ CHR '':'' # p)))"
    and "\<And>q. q \<in> snd ` set ups \<Longrightarrow> no_collision sha256 (js_codes p) (js_codes q)"
  shows "admits (create_basic_auth_strategy sha256 users) env st req \<longleftrightarrow> (u, p) \<in> set ups"
proof -
  have users: "users = coded ups"
    using parse_print_user_list [OF assms(1,2)] assms(4) by simp
  have header: "parse_basic_auth_header (string_header (req_header req HdrAuthorization))
      = Some \<lparr>cred_username = js_codes u, cred_password = js_codes p\<rparr>"
    using parse_encode_basic_auth [OF assms(3), of p] assms(5) by simp
  have "safe_equal sha256 (js_codes p) (js_codes q) \<longleftrightarrow> p = q" if "(u, q) \<in> set ups" for q
  proof -
    from that have "q \<in> snd ` set ups" by (rule image_eqI [rotated]) simp
    from safe_equal_iff [OF assms(6) [OF this]] show ?thesis by (simp add: js_codes_scalar)
  qed
  then show ?thesis
    unfolding admits_def basic_guard_sent header users
    by (auto simp: jm_get_coded [OF assms(2)])
qed

theorem basic_auth_end_to_end_witness:
  "admits (create_basic_auth_strategy (\<lambda>b. b) (coded [(''alice'', ''pw:1'')])) sample_env []
     (sample_request ''GET'' [(HdrAuthorization, encode_basic_auth ''alice:pw:1'')])"
proof -
  have p: "print_user_list [(''alice'', ''pw:1'')] = ''alice:pw:1''"
    by (simp add: print_user_list_def print_user_def)
  have l: "parse_user_list (print_user_list [(''alice'', ''pw:1'')]) = Inr (coded [(''alice'', ''pw:1'')])"
    by (intro parse_print_user_list) (simp_all add: listable_def is_ws_def)
  show ?thesis
    using basic_auth_end_to_end [OF _ _ _ l,
        of "''alice''" "sample_request ''GET'' [(HdrAuthorization, encode_basic_auth ''alice:pw:1'')]"
          "''pw:1''" "\<lambda>b. b"]
    by (simp add: listable_def is_ws_def no_collision_def)
qed

lemma jwt_key_of_some:
  "jwt_key_of url_parses options = Inr (Some k) \<longleftrightarrow>
    (case truthy (jwt_jwks_uri options) of
       Some uri \<Rightarrow> url_parses uri \<and> k = RemoteJwks uri
     | None \<Rightarrow> \<exists>s. truthy (jwt_secret options) = Some s \<and> k = SecretKey (utf8_encode (js_codes s)))"
  by (auto simp: jwt_key_of_def split: option.splits)

text \<open>The JWT guard admits a request exactly when a key is configured (a JWKS endpoint takes
  precedence over a shared secret), the header is a Bearer token, and that token verifies under
  that key with the configured issuer and audience; with neither key it admits nothing.\<close>
theorem jwt_admits_iff:
  assumes "create_jwt_strategy url_parses options = Inr guard"
  shows "admits guard env st req \<longleftrightarrow>
    (\<exists>token k. parse_bearer_token (string_header (req_header req HdrAuthorization)) = Some token
       \<and> jwt_key_of url_parses options = Inr (Some k)
       \<and> jwt_valid env token k (jwt_verify_options_of options))"
  using assms
  by (auto simp: create_jwt_strategy_def admits_def jwt_guard_def with_log_def split: option.splits if_splits)

theorem jwt_admits_iff_witness:
  "\<exists>guard. create_jwt_strategy (\<lambda>_. True)
       \<lparr>jwt_secret = Some ''hmac'', jwt_jwks_uri = None, jwt_issuer = None, jwt_audience = None\<rparr>
       = Inr guard
     \<and> admits guard sample_env [] (sample_request ''GET'' [(HdrAuthorization, ''Bearer a.b.c'')])"
proof -
  let ?options = "\<lparr>jwt_secret = Some ''hmac'', jwt_jwks_uri = None, jwt_issuer = None,
    jwt_audience = None\<rparr>"
  have key: "jwt_key_of (\<lambda>_. True) ?options = Inr (Some (SecretKey (utf8_encode (js_codes ''hmac''))))"
    by (simp add: jwt_key_of_def)
  then obtain guard where g: "create_jwt_strategy (\<lambda>_. True) ?options = Inr guard"
    by (simp add: create_jwt_strategy_def)
  have "parse_bearer_token (Some ''Bearer a.b.c'') = Some ''a.b.c''" by code_simp
  then have "admits guard sample_env [] (sample_request ''GET'' [(HdrAuthorization, ''Bearer a.b.c'')])"
    unfolding jwt_admits_iff [OF g] using key by (simp add: sample_env_def)
  with g show ?thesis by blast
qed

end
