(* ===== verification/BearerCache.thy ===== *)
theory BearerCache
  imports Strategies
begin

section \<open>The introspection cache of the bearer strategy\<close>

text \<open>
  Eviction against a reference (the newest live entries that fit), the size bound, who the bearer
  guard admits, and the guard as a state machine: requests interleave at the \<open>await\<close> of the
  introspection call, so a step is the arrival of a request or the return of one pending call, in
  any order. The history records every answer of the auth service, active or not, and who was let
  through on what. The invariant ties every cached entry to an active answer the auth service really
  gave, \<open>cacheTtlMs\<close> before the entry expires.
\<close>

subsection \<open>Eviction\<close>

lemma filter_key_absent: "k \<notin> fst ` set m \<Longrightarrow> filter (\<lambda>(k', _). k' \<noteq> k) m = m"
  by (induction m) auto

lemma jm_delete_head: "k \<notin> set (jm_keys m) \<Longrightarrow> jm_delete ((k, v) # m) k = m"
  by (simp add: jm_delete_def jm_keys_def filter_key_absent)

lemma fold_sweep_filter:
  fixes now :: int
  assumes "jm_wf m" and "m = ys @ xs"
  shows "fold (\<lambda>(key, e) m. if e \<le> now then jm_delete m key else m) xs m
    = ys @ filter (\<lambda>(_, e). now < e) xs"
  using assms
proof (induction xs arbitrary: m ys)
  case Nil
  then show ?case by simp
next
  case (Cons x xs)
  obtain k e where x: "x = (k, e)" by (cases x)
  from Cons.prems x have k: "k \<notin> fst ` set ys" "k \<notin> fst ` set xs"
    by (auto simp: jm_wf_def jm_keys_def)
  show ?case
  proof (cases "e \<le> now")
    case True
    have d: "jm_delete m k = ys @ xs"
      using Cons.prems(2) x filter_key_absent [OF k(1)] filter_key_absent [OF k(2)]
      by (simp add: jm_delete_def)
    with Cons.prems(1) have "jm_wf (ys @ xs)" using jm_wf_delete [of m k] by simp
    from Cons.IH [OF this refl] d x True show ?thesis by simp
  next
    case False
    have "fold (\<lambda>(key, e) m. if e \<le> now then jm_delete m key else m) xs m
      = (ys @ [x]) @ filter (\<lambda>(_, e). now < e) xs"
      using Cons.prems x False by (intro Cons.IH) auto
    with x False show ?thesis by simp
  qed
qed

lemma sweep_expired_filter:
  "jm_wf m \<Longrightarrow> sweep_expired now m = filter (\<lambda>(_, e). now < e) m"
  unfolding sweep_expired_def using fold_sweep_filter [where m = m and ys = "[]" and xs = m] by simp

lemma evict_oldest_drop:
  "jm_wf m \<Longrightarrow> evict_oldest cap (jm_keys m) m = drop (length m - nat (cap - 1)) m"
proof (induction m)
  case Nil
  then show ?case by (simp add: jm_keys_def)
next
  case (Cons x m)
  obtain k e where x: "x = (k, e)" by (cases x)
  from Cons.prems x have wf: "jm_wf m" and k: "k \<notin> set (jm_keys m)"
    by (auto simp: jm_wf_def jm_keys_def)
  show ?case
  proof (cases "int (length (x # m)) < cap")
    case True
    then have "length (x # m) - nat (cap - 1) = 0" by simp
    with True show ?thesis by (simp add: jm_keys_def jm_size_def)
  next
    case False
    then have "length (x # m) - nat (cap - 1) = Suc (length m - nat (cap - 1))" by simp
    moreover have "evict_oldest cap (jm_keys (x # m)) (x # m) = evict_oldest cap (jm_keys m) m"
      using False x k by (simp add: jm_size_def jm_delete_head) (simp add: jm_keys_def jm_size_def jm_delete_head [unfolded jm_keys_def])
    ultimately show ?thesis using Cons.IH [OF wf] by simp
  qed
qed

definition newest_live :: "int \<Rightarrow> int \<Rightarrow> token_cache \<Rightarrow> token_cache" where
  \<comment> \<open>the reference: of the entries still live, the latest inserted that leave room for one more\<close>
  "newest_live cap now m =
     (let live = filter (\<lambda>(_, e). now < e) m in drop (length live - nat (cap - 1)) live)"

lemma wf_filter: "jm_wf m \<Longrightarrow> jm_wf (filter P m)"
  by (simp add: jm_wf_def jm_keys_def distinct_map_filter)

lemma evict_reference:
  "jm_wf m \<Longrightarrow> evict_for_insert cap now m
    = (if int (jm_size m) < cap then m else newest_live cap now m)"
  by (simp add: evict_for_insert_def newest_live_def Let_def sweep_expired_filter
      evict_oldest_drop wf_filter)

text \<open>C28. \<open>evictForInsert\<close> is the reference eviction: below the cap it changes nothing; at the cap
  it drops every expired entry and then the oldest insertions until one slot is free, so the
  newest live decisions survive in their order.\<close>
theorem evict_for_insert_reference:
  assumes "jm_wf m"
  shows "evict_for_insert cap now m = (if int (jm_size m) < cap then m else newest_live cap now m)"
  using assms by (rule evict_reference)

theorem evict_for_insert_reference_witness:
  "evict_for_insert 3 50 [(''a'', 40), (''b'', 90), (''c'', 60), (''d'', 70)] = [(''c'', 60), (''d'', 70)]"
  using evict_for_insert_reference [of "[(''a'', 40), (''b'', 90), (''c'', 60), (''d'', 70)]" 3 50]
  by (simp add: jm_wf_def jm_keys_def jm_size_def newest_live_def Let_def)

lemma evict_wf: "jm_wf m \<Longrightarrow> jm_wf (evict_for_insert cap now m)"
  by (auto simp: evict_reference newest_live_def Let_def jm_wf_def jm_keys_def distinct_map_filter
      drop_map [symmetric] intro: distinct_drop)

lemma evict_subset: "jm_wf m \<Longrightarrow> set (evict_for_insert cap now m) \<subseteq> set m"
  by (auto simp: evict_reference newest_live_def Let_def dest: in_set_dropD)

lemma evict_size: "jm_wf m \<Longrightarrow> int (jm_size (evict_for_insert cap now m)) \<le> max 0 (cap - 1)"
  by (auto simp: evict_reference newest_live_def Let_def jm_size_def)

lemma jm_set_size: "jm_size (jm_set m k v) \<le> Suc (jm_size m)"
  unfolding jm_size_keys by (rule jm.size_put_le)

lemma insert_bound:
  "jm_wf m \<Longrightarrow> int (jm_size (jm_set (evict_for_insert cap now m) k v)) \<le> max 1 cap"
  using evict_size [of m cap now] jm_set_size [of "evict_for_insert cap now m" k v] by linarith

subsection \<open>Who the bearer guard admits\<close>

text \<open>The answers that say a token is active: a 2xx status and JSON text whose \<open>active\<close> is \<open>true\<close>.\<close>

definition active_answer :: "fetch_result \<Rightarrow> bool" where
  "active_answer answer \<longleftrightarrow> (\<exists>body j. answer = FetchResponse True body \<and> json_parse body = Some j
     \<and> json_get j ''active'' = Some (Member (JBool True)))"

lemma active_iff: "introspection_active answer = Some True \<longleftrightarrow> active_answer answer"
  by (auto simp: introspection_active_def active_answer_def split: fetch_result.split option.split)

lemma bearer_admits:
  "admits (create_bearer_auth_strategy sha256 options) env cache req \<longleftrightarrow>
    introspection_url options \<noteq> [] \<and>
    (\<exists>token. parse_bearer_token (string_header (req_header req HdrAuthorization)) = Some token \<and>
      (caching options \<and> (\<exists>e. jm_get cache (token_key sha256 token) = Some e \<and> now_lookup env < e)
       \<or> introspection_active (fetch_answer env (introspection_call options token)) = Some True))"
  by (auto simp: admits_def create_bearer_auth_strategy_def bearer_begin_def bearer_finish_def
      Let_def send_misconfigured_def split: option.splits if_splits prod.splits)

text \<open>C25. The bearer guard fails closed: it admits a request exactly when the endpoint is
  configured, the header carries a Bearer token, and either a cached decision for that token's
  hash is still live or the auth service answers 2xx with \<open>{"active": true}\<close>. A rejected or
  timed-out call, a non-2xx status, invalid JSON, \<open>null\<close> and any other \<open>active\<close> refuse.\<close>
theorem bearer_admits_iff:
  "admits (create_bearer_auth_strategy sha256 options) env cache req \<longleftrightarrow>
    introspection_url options \<noteq> [] \<and>
    (\<exists>token. parse_bearer_token (string_header (req_header req HdrAuthorization)) = Some token \<and>
      (caching options \<and> (\<exists>e. jm_get cache (token_key sha256 token) = Some e \<and> now_lookup env < e)
       \<or> active_answer (fetch_answer env (introspection_call options token))))"
  unfolding bearer_admits active_iff ..

subsection \<open>Interleaved requests\<close>

datatype bearer_event =
    Answered string fetch_result int \<comment> \<open>token, what the auth service answered for it, when it was taken\<close>
  | FromService string int \<comment> \<open>token, the time it was let through on that answer\<close>
  | FromCache string int \<comment> \<open>token, the time it was let through on a cached decision\<close>

record bearer_sys =
  sys_cache :: token_cache
  sys_pending :: "(string \<times> string \<times> request) list"
  sys_history :: "bearer_event list"

definition bearer_start :: bearer_sys where
  "bearer_start = \<lparr>sys_cache = jm_empty, sys_pending = [], sys_history = []\<rparr>"

text \<open>A request is let through when the guard leaves its reply unsent; the token is the one it presents.\<close>

definition presented :: "request \<Rightarrow> string option" where
  "presented req = parse_bearer_token (string_header (req_header req HdrAuthorization))"

definition admissions :: "(string \<Rightarrow> int \<Rightarrow> bearer_event) \<Rightarrow> request \<Rightarrow> int \<Rightarrow> reply \<Rightarrow> bearer_event list" where
  "admissions source req now reply =
     (if sent reply \<noteq> None then []
      else case presented req of None \<Rightarrow> [] | Some token \<Rightarrow> [source token now])"

inductive bearer_step :: "hash \<Rightarrow> bearer_options \<Rightarrow> bearer_sys \<Rightarrow> bearer_sys \<Rightarrow> bool"
  for sha256 options where
  decided: "bearer_begin sha256 options now (sys_cache s) req fresh_reply = (c, BearerDone req' reply')
    \<Longrightarrow> bearer_step sha256 options s
      (s\<lparr>sys_cache := c, sys_history := sys_history s @ admissions FromCache req now reply'\<rparr>)"
| asked: "bearer_begin sha256 options now (sys_cache s) req fresh_reply = (c, BearerAwaits token key)
    \<Longrightarrow> bearer_step sha256 options s
      (s\<lparr>sys_cache := c, sys_pending := sys_pending s @ [(token, key, req)]\<rparr>)"
| answered: "(token, key, req) \<in> set (sys_pending s)
    \<Longrightarrow> bearer_finish options t1 t2 (sys_cache s) key answer req fresh_reply = (c, reply')
    \<Longrightarrow> bearer_step sha256 options s
      (s\<lparr>sys_cache := c, sys_pending := remove1 (token, key, req) (sys_pending s),
         sys_history := sys_history s @ Answered token answer t2 # admissions FromService req t2 reply'\<rparr>)"

inductive bearer_reachable :: "hash \<Rightarrow> bearer_options \<Rightarrow> bearer_sys \<Rightarrow> bool"
  for sha256 options where
  initially: "bearer_reachable sha256 options bearer_start"
| later: "bearer_reachable sha256 options s \<Longrightarrow> bearer_step sha256 options s t
    \<Longrightarrow> bearer_reachable sha256 options t"

text \<open>A decision is backed when an active answer for a token with that hash is in the history.\<close>

definition backed :: "hash \<Rightarrow> bearer_options \<Rightarrow> bearer_event list \<Rightarrow> string \<Rightarrow> int \<Rightarrow> bool" where
  "backed sha256 options h key e \<longleftrightarrow>
     (\<exists>token answer t. Answered token answer t \<in> set h \<and> active_answer answer \<and> token_key sha256 token = key
        \<and> e = t + cache_ttl_ms options)"

text \<open>Whoever was let through was backed by the history before: on a cached decision by one still live,
  else by an active answer for its own token.\<close>

definition event_ok :: "hash \<Rightarrow> bearer_options \<Rightarrow> bearer_event list \<Rightarrow> bearer_event \<Rightarrow> bool" where
  "event_ok sha256 options h x \<longleftrightarrow>
     (\<forall>token now. x = FromCache token now \<longrightarrow> (\<exists>e. backed sha256 options h (token_key sha256 token) e \<and> now < e))
     \<and> (\<forall>token t. x = FromService token t \<longrightarrow> (\<exists>answer. Answered token answer t \<in> set h \<and> active_answer answer))"

definition history_ok :: "hash \<Rightarrow> bearer_options \<Rightarrow> bearer_event list \<Rightarrow> bool" where
  "history_ok sha256 options h \<longleftrightarrow> (\<forall>h1 x h2. h = h1 @ x # h2 \<longrightarrow> event_ok sha256 options h1 x)"

lemma history_ok_snoc:
  "history_ok sha256 options (h @ [x]) \<longleftrightarrow> history_ok sha256 options h \<and> event_ok sha256 options h x"
proof -
  have "h @ [x] = h1 @ y # h2 \<longleftrightarrow> (h2 = [] \<and> h1 = h \<and> y = x) \<or> (\<exists>h3. h2 = h3 @ [x] \<and> h = h1 @ y # h3)"
    for h1 y h2
    by (cases h2 rule: rev_cases) auto
  then show ?thesis by (auto simp: history_ok_def)
qed

lemma history_ok_Nil: "history_ok sha256 options []"
  by (simp add: history_ok_def)

lemma answered_ok: "event_ok sha256 options h (Answered token answer t)"
  by (simp add: event_ok_def)

definition bearer_inv :: "hash \<Rightarrow> bearer_options \<Rightarrow> bearer_sys \<Rightarrow> bool" where
  "bearer_inv sha256 options s \<longleftrightarrow>
     jm_wf (sys_cache s)
   \<and> int (jm_size (sys_cache s)) \<le> max 1 (cache_max_entries options)
   \<and> (\<forall>(k, e) \<in> set (sys_cache s). backed sha256 options (sys_history s) k e)
   \<and> (\<forall>(token, key, req) \<in> set (sys_pending s).
        presented req = Some token \<and> (caching options \<longrightarrow> key = token_key sha256 token))
   \<and> history_ok sha256 options (sys_history s)"

lemma backed_mono: "backed sha256 options h k e \<Longrightarrow> backed sha256 options (h @ h') k e"
  by (auto simp: backed_def)

lemma set_jm_delete: "set (jm_delete m k) \<subseteq> set m"
  by (auto simp: jm_delete_def)

lemma jm_get_in: "jm_get m k = Some v \<Longrightarrow> (k, v) \<in> set m"
  by (simp add: jm_get_map_of map_of_SomeD)

text \<open>What the first half of the guard does to the cache, and when it lets through.\<close>

lemma bearer_begin_cache:
  "bearer_begin sha256 options now cache req reply = (c, p) \<Longrightarrow> c = cache \<or> (\<exists>k. c = jm_delete cache k)"
  by (auto simp: bearer_begin_def Let_def split: if_splits option.splits prod.splits)

lemma bearer_begin_admits:
  assumes "bearer_begin sha256 options now cache req fresh_reply = (c, BearerDone req' reply')"
    and "FromCache token at \<in> set (admissions FromCache req now reply')"
  shows "at = now \<and> c = cache \<and> (\<exists>e. (token_key sha256 token, e) \<in> set cache \<and> now < e)"
  using assms
  by (auto simp: bearer_begin_def admissions_def presented_def Let_def send_misconfigured_def
      split: if_splits option.splits prod.splits dest: jm_get_in)

lemma bearer_begin_key:
  "bearer_begin sha256 options now cache req reply = (c, BearerAwaits token key)
    \<Longrightarrow> presented req = Some token \<and> (caching options \<longrightarrow> key = token_key sha256 token)"
  by (auto simp: bearer_begin_def presented_def Let_def split: if_splits option.splits prod.splits)

lemma bearer_finish_cache:
  assumes "bearer_finish options t1 t2 cache key answer req fresh_reply = (c, reply')"
  shows "(sent reply' = None \<longrightarrow> active_answer answer) \<and> (c = cache \<or> (active_answer answer \<and> caching options
    \<and> c = jm_set (evict_for_insert (cache_max_entries options) t1 cache) key (t2 + cache_ttl_ms options)))"
  using assms active_iff [of answer] by (auto simp: bearer_finish_def split: if_splits option.splits)

text \<open>The part of the invariant about the cache itself, kept by deleting and by inserting.\<close>

definition cache_inv :: "hash \<Rightarrow> bearer_options \<Rightarrow> bearer_event list \<Rightarrow> token_cache \<Rightarrow> bool" where
  "cache_inv sha256 options h c \<longleftrightarrow>
     jm_wf c \<and> int (jm_size c) \<le> max 1 (cache_max_entries options)
     \<and> (\<forall>(k, e) \<in> set c. backed sha256 options h k e)"

lemma cache_inv_delete: "cache_inv sha256 options h c \<Longrightarrow> cache_inv sha256 options h (jm_delete c k)"
  using set_jm_delete [of c k] jm.size_del_le [of c k]
  by (fastforce simp: cache_inv_def jm_wf_delete jm_size_keys)

lemma cache_inv_mono: "cache_inv sha256 options h c \<Longrightarrow> cache_inv sha256 options (h @ h') c"
  by (fastforce simp: cache_inv_def dest: backed_mono)

lemma cache_inv_insert:
  assumes inv: "cache_inv sha256 options h c" and b: "backed sha256 options h key e"
  shows "cache_inv sha256 options h (jm_set (evict_for_insert (cache_max_entries options) now c) key e)"
proof -
  let ?c = "evict_for_insert (cache_max_entries options) now c"
  from inv have wf: "jm_wf c" by (simp add: cache_inv_def)
  have "set (jm_set ?c key e) \<subseteq> insert (key, e) (set c)"
    using set_jm_set [of ?c key e] evict_subset [OF wf, of "cache_max_entries options" now] by blast
  with inv b have "\<forall>(k, e) \<in> set (jm_set ?c key e). backed sha256 options h k e"
    by (auto simp: cache_inv_def)
  then show ?thesis
    using insert_bound [OF wf] by (simp add: cache_inv_def jm_wf_set evict_wf wf)
qed

lemma bearer_inv_cache:
  "bearer_inv sha256 options s \<longleftrightarrow>
     cache_inv sha256 options (sys_history s) (sys_cache s)
   \<and> (\<forall>(token, key, req) \<in> set (sys_pending s).
        presented req = Some token \<and> (caching options \<longrightarrow> key = token_key sha256 token))
   \<and> history_ok sha256 options (sys_history s)"
  by (simp add: bearer_inv_def cache_inv_def conj_assoc)

lemma bearer_step_inv:
  assumes "bearer_step sha256 options s t" and inv: "bearer_inv sha256 options s"
  shows "bearer_inv sha256 options t"
  using assms(1)
proof cases
  case (decided now req c req' reply')
  have "cache_inv sha256 options (sys_history s) c"
    using bearer_begin_cache [OF decided(2)] inv by (auto simp: bearer_inv_cache cache_inv_delete)
  moreover have "history_ok sha256 options (sys_history s @ admissions FromCache req now reply')"
  proof (cases "admissions FromCache req now reply'")
    case Nil
    with inv show ?thesis by (simp add: bearer_inv_cache)
  next
    case (Cons a as)
    then obtain token where l: "admissions FromCache req now reply' = [FromCache token now]"
      by (auto simp: admissions_def split: option.splits if_splits)
    with bearer_begin_admits [OF decided(2), of token now] inv
    have "\<exists>e. backed sha256 options (sys_history s) (token_key sha256 token) e \<and> now < e"
      by (fastforce simp: bearer_inv_cache cache_inv_def)
    with l inv show ?thesis by (simp add: bearer_inv_cache history_ok_snoc event_ok_def)
  qed
  ultimately show ?thesis
    using inv unfolding bearer_inv_cache decided(1) by (auto intro: cache_inv_mono)
next
  case (asked now req c token key)
  then show ?thesis
    using bearer_begin_cache [OF asked(2)] bearer_begin_key [OF asked(2)] inv
    by (auto simp: bearer_inv_cache cache_inv_delete)
next
  case (answered token key req t1 t2 answer c reply')
  let ?h = "sys_history s @ [Answered token answer t2]"
  note fin = bearer_finish_cache [OF answered(3)]
  have p: "presented req = Some token" "caching options \<longrightarrow> key = token_key sha256 token"
    using inv answered(2) by (fastforce simp: bearer_inv_cache)+
  have "cache_inv sha256 options ?h c"
    using fin [THEN conjunct2]
  proof
    assume "c = sys_cache s"
    with inv show ?thesis by (auto simp: bearer_inv_cache intro: cache_inv_mono)
  next
    assume *: "active_answer answer \<and> caching options
      \<and> c = jm_set (evict_for_insert (cache_max_entries options) t1 (sys_cache s)) key
              (t2 + cache_ttl_ms options)"
    with p(2) have "backed sha256 options ?h key (t2 + cache_ttl_ms options)"
      by (auto simp: backed_def)
    moreover from inv have "cache_inv sha256 options ?h (sys_cache s)"
      unfolding bearer_inv_cache by (blast intro: cache_inv_mono)
    ultimately show ?thesis using * by (simp add: cache_inv_insert)
  qed
  then have "cache_inv sha256 options (?h @ admissions FromService req t2 reply') c"
    by (rule cache_inv_mono)
  moreover have "history_ok sha256 options (?h @ admissions FromService req t2 reply')"
  proof -
    have h: "history_ok sha256 options ?h"
      using inv by (simp add: bearer_inv_cache history_ok_snoc answered_ok)
    show ?thesis
    proof (cases "sent reply'")
      case None
      with fin have "event_ok sha256 options ?h (FromService token t2)" by (auto simp: event_ok_def)
      with h have "history_ok sha256 options (?h @ [FromService token t2])"
        unfolding history_ok_snoc [of _ _ ?h] by blast
      moreover have "admissions FromService req t2 reply' = [FromService token t2]"
        by (simp add: admissions_def p(1) None)
      ultimately show ?thesis by metis
    qed (use h in \<open>simp add: admissions_def\<close>)
  qed
  ultimately show ?thesis
    using inv unfolding bearer_inv_cache answered(1)
    by (auto dest!: subsetD [OF set_remove1_subset])
qed

lemma bearer_reachable_inv: "bearer_reachable sha256 options s \<Longrightarrow> bearer_inv sha256 options s"
proof (induction rule: bearer_reachable.induct)
  case initially
  show ?case
    by (simp add: bearer_inv_def bearer_start_def jm_wf_empty history_ok_Nil)
      (simp add: jm_empty_def jm_size_def)
next
  case (later s t)
  then show ?case by (blast intro: bearer_step_inv)
qed


text \<open>C27. The introspection cache is bounded: in every reachable state it holds at most
  \<open>cacheMaxEntries\<close> decisions (at most one when the cap is below one), whatever tokens arrive in
  whatever order.\<close>
theorem bearer_cache_bounded:
  assumes "bearer_reachable sha256 options s"
  shows "int (jm_size (sys_cache s)) \<le> max 1 (cache_max_entries options)"
  using bearer_reachable_inv [OF assms] by (simp add: bearer_inv_def)

subsection \<open>A run\<close>

definition sample_bearer :: bearer_options where
  "sample_bearer = \<lparr>introspection_url = ''http://auth/introspect'', introspection_token = None,
     cache_ttl_ms = 500, cache_max_entries = 2\<rparr>"

definition bearer_request :: request where
  "bearer_request = sample_request ''GET'' [(HdrAuthorization, ''Bearer tok'')]"

definition sample_key :: string where
  "sample_key = token_key (\<lambda>b. b) ''tok''"

definition active_text :: fetch_result where
  "active_text = FetchResponse True (jtext ''{\"active\":true}'')"

definition after_answer :: bearer_sys where
  "after_answer = \<lparr>sys_cache = [(sample_key, 1500)], sys_pending = [],
     sys_history = [Answered ''tok'' active_text 1000, FromService ''tok'' 1000]\<rparr>"

lemma bearer_request_token:
  "parse_bearer_token (string_header (req_header bearer_request HdrAuthorization)) = Some ''tok''"
proof -
  have "parse_bearer_token (Some ''Bearer tok'') = Some ''tok''" by code_simp
  then show ?thesis by (simp add: bearer_request_def)
qed

lemma sample_answer: "introspection_active active_text = Some True"
  by code_simp

lemma after_answer_reachable: "bearer_reachable (\<lambda>b. b) sample_bearer after_answer"
proof -
  let ?step = "bearer_step (\<lambda>b. b) sample_bearer"
  let ?s = "\<lparr>sys_cache = [], sys_pending = [(''tok'', sample_key, bearer_request)], sys_history = []\<rparr>"
  have "bearer_begin (\<lambda>b. b) sample_bearer 1000 [] bearer_request fresh_reply
      = ([], BearerAwaits ''tok'' sample_key)"
    by (simp add: bearer_begin_def bearer_request_token sample_bearer_def caching_def sample_key_def)
  then have "bearer_begin (\<lambda>b. b) sample_bearer 1000 (sys_cache bearer_start) bearer_request fresh_reply
      = ([], BearerAwaits ''tok'' sample_key)"
    by (simp add: bearer_start_def jm_empty_def)
  from bearer_step.asked [OF this] have 1: "?step bearer_start ?s"
    by (simp add: bearer_start_def jm_empty_def)
  have "bearer_finish sample_bearer 1000 1000 [] sample_key
      active_text bearer_request fresh_reply
      = ([(sample_key, 1500)], fresh_reply)"
    by (simp add: bearer_finish_def sample_answer)
      (simp add: sample_bearer_def caching_def evict_for_insert_def jm_size_def)
  then have "bearer_finish sample_bearer 1000 1000 (sys_cache ?s) sample_key
      active_text bearer_request fresh_reply
      = ([(sample_key, 1500)], fresh_reply)" by simp
  from bearer_step.answered [OF _ this] have 2: "?step ?s after_answer"
    by (simp add: after_answer_def admissions_def presented_def bearer_request_token)
  show ?thesis
    by (rule bearer_reachable.later [OF bearer_reachable.later [OF bearer_reachable.initially 1] 2])
qed



theorem bearer_cache_bounded_witness:
  "int (jm_size (sys_cache after_answer)) \<le> max 1 2"
  using bearer_cache_bounded [OF after_answer_reachable] by (simp add: sample_bearer_def)

end
