(* ===== verification/CacheStream.thy ===== *)
theory CacheStream
  imports Cache
begin

section \<open>The cache over time: the bounded lookup and the tee\<close>

text \<open>
  The two places of \<open>plugins/cache.ts\<close> where time passes inside a hook. A lookup is a race between
  Redis and a timer of \<open>LOOKUP_TIMEOUT_MS\<close>. A streamed response is teed: while its chunks flow to the
  client they are kept up to the limit, and the entry is stored when the pipeline completes. The tee
  is a machine over the events of the source, the client and Redis; \<open>tee_refines_store_hook\<close>
  shows that the hook of theory \<open>Cache\<close>, which sees the whole stream at once, summarises every run.
\<close>

subsection \<open>The race of a lookup\<close>

definition lookup_timeout_ms :: int where
  "lookup_timeout_ms = 150"

text \<open>How \<open>redis.get\<close> settles: never, or some milliseconds after the call with a rejection or a value.
  A timer due in the same millisecond runs before the answer is read.\<close>

datatype get_result = GetRejected | GetValue "codes option"

type_synonym pending_get = "(int \<times> get_result) option"

fun get_answer :: "get_result \<Rightarrow> redis_answer" where
  "get_answer GetRejected = RedisRejected"
| "get_answer (GetValue v) = RedisValue v"

fun lookup_race :: "pending_get \<Rightarrow> int \<times> redis_answer" where
  "lookup_race None = (lookup_timeout_ms, RedisTimedOut)"
| "lookup_race (Some (t, r)) =
     (if t < lookup_timeout_ms then (t, get_answer r) else (lookup_timeout_ms, RedisTimedOut))"

text \<open>What the hook sees of a client of this status, and how long it waits for it.\<close>

definition raced_env :: "string \<Rightarrow> (string \<Rightarrow> pending_get) \<Rightarrow> cache_env" where
  "raced_env status gets = \<lparr>redis_status = status, redis_get = (\<lambda>key. snd (lookup_race (gets key)))\<rparr>"

definition lookup_wait :: "string \<Rightarrow> (string \<Rightarrow> pending_get) \<Rightarrow> string \<Rightarrow> int" where
  "lookup_wait status gets key =
     (if status = ''end'' \<or> status = ''close'' then 0 else fst (lookup_race (gets key)))"

definition late :: "string \<Rightarrow> pending_get \<Rightarrow> bool" where
  "late status get \<longleftrightarrow> status = ''end'' \<or> status = ''close''
     \<or> (case get of None \<Rightarrow> True | Some (t, _) \<Rightarrow> lookup_timeout_ms \<le> t)"

lemma raced_late:
  "late status (gets key) \<Longrightarrow> lookup_entry (raced_env status gets) key lg = (None, lg)"
  by (auto simp: late_def raced_env_def lookup_entry_def split: option.splits)

text \<open>C26. A slow Redis costs a bounded wait and nothing else: whenever Redis answers, if ever, a lookup
  waits at most 150 ms; a request whose answer comes later, or whose client is closed, goes on to the
  upstream with nothing sent and nothing logged, ready to be stored; and an answer in time is used.\<close>
theorem lookup_bounded:
  fixes digest_of :: hash and service :: string
  assumes "may_serve req" and "\<And>key t r. gets key = Some (t, r) \<Longrightarrow> 0 \<le> t"
  defines "key \<equiv> cache_key_of digest_of service req"
  shows "0 \<le> lookup_wait status gets key \<and> lookup_wait status gets key \<le> 150
    \<and> (late status (gets key) \<longrightarrow>
         serve_hook digest_of (raced_env status gets) service app_log req reply
           = Inr (app_log, req\<lparr>cache_key := key\<rparr>, reply))
    \<and> (\<not> late status (gets key) \<longrightarrow> (\<exists>t r. gets key = Some (t, r) \<and> lookup_wait status gets key = t
         \<and> redis_get (raced_env status gets) key = get_answer r))"
proof (intro conjI impI)
  have w: "0 \<le> fst (lookup_race (gets key)) \<and> fst (lookup_race (gets key)) \<le> 150"
  proof (cases "gets key")
    case (Some a)
    then show ?thesis using assms(2) [of key] by (cases a) (auto simp: lookup_timeout_ms_def)
  qed (simp add: lookup_timeout_ms_def)
  then show "0 \<le> lookup_wait status gets key" "lookup_wait status gets key \<le> 150"
    by (simp_all add: lookup_wait_def)
  show "serve_hook digest_of (raced_env status gets) service app_log req reply
      = Inr (app_log, req\<lparr>cache_key := key\<rparr>, reply)" if "late status (gets key)"
    using assms(1) raced_late [of status gets key, OF that]
    by (simp add: serve_hook_def may_serve_def Let_def key_def)
  show "\<exists>t r. gets key = Some (t, r) \<and> lookup_wait status gets key = t
      \<and> redis_get (raced_env status gets) key = get_answer r" if "\<not> late status (gets key)"
    using that by (auto simp: late_def lookup_wait_def raced_env_def split: option.splits)
qed

theorem lookup_bounded_witness:
  "serve_hook (\<lambda>b. b) (raced_env ''ready'' (\<lambda>_. Some (4000, GetValue None))) ''public''
      \<lparr>bindings = [], log_lines = []\<rparr> public_get fresh_reply
    = Inr (\<lparr>bindings = [], log_lines = []\<rparr>, keyed_get, fresh_reply)
   \<and> lookup_wait ''ready'' (\<lambda>_. Some (4000, GetValue None)) (cache_key keyed_get) \<le> 150"
  using lookup_bounded [OF public_get_served(1), where gets = "\<lambda>_. Some (4000, GetValue None)" and digest_of = "\<lambda>b. b"
      and service = "''public''" and status = "''ready''" and app_log = "\<lparr>bindings = [], log_lines = []\<rparr>"
      and reply = fresh_reply]
  by (simp add: late_def lookup_timeout_ms_def keyed_get_def)

subsection \<open>The tee\<close>

text \<open>The guards of the store hook, up to the choice of the payload's kind: the lifetime to store with.\<close>

definition store_plan :: "gateway_config \<Rightarrow> request \<Rightarrow> reply \<Rightarrow> int option" where
  "store_plan config req reply =
     (if cache_key req = [] then None
      else if status_code reply \<noteq> http_status StOk then None
      else if \<not> vary_is_keyed reply then None
      else let ttl = resolve_ttl_ms config reply in if ttl \<le> 0 then None else Some ttl)"

text \<open>The state of one tee: what its closures captured, the chunks kept so far, what has been written
  to the client, how the pipeline ended (\<open>Some True\<close>: without an error), the command sent to Redis
  and whether Redis has answered it, and the log of the request.\<close>

record tee_stream =
  ts_request :: request
  ts_reply :: reply
  ts_ttl :: int
  ts_limit :: int
  ts_tee :: tee
  ts_passed :: "stream_chunk list"
  ts_ended :: "bool option"
  ts_command :: "store_command option"
  ts_settled :: bool
  ts_log :: logger

datatype tee_event = TeeData stream_chunk | SourceEnded | SourceFailed | ClientGone | SetSettled bool

definition tee_begin :: "gateway_config \<Rightarrow> request \<Rightarrow> reply \<Rightarrow> tee_stream option" where
  "tee_begin config req reply =
     map_option (\<lambda>ttl. \<lparr>ts_request = req, ts_reply = reply, ts_ttl = ttl,
       ts_limit = CACHE_MAX_BODY_BYTES config, ts_tee = tee_start, ts_passed = [], ts_ended = None,
       ts_command = None, ts_settled = False, ts_log = req_log req\<rparr>) (store_plan config req reply)"

text \<open>The callback of \<open>pipeline\<close>, which runs once.\<close>

definition tee_end :: "bool \<Rightarrow> tee_stream \<Rightarrow> tee_stream" where
  "tee_end ok s = s\<lparr>ts_ended := Some ok,
     ts_command := (if ok \<and> \<not> tee_overflow (ts_tee s)
       then Some (store_entry (ts_request s) (ts_reply s) (ts_ttl s) (concat (tee_chunks (ts_tee s))))
       else None)\<rparr>"

fun tee_react :: "tee_event \<Rightarrow> tee_stream \<Rightarrow> tee_stream option" where
  "tee_react (TeeData chunk) s =
     (if ts_ended s \<noteq> None then None
      else Some (s\<lparr>ts_tee := tee_data (ts_limit s) chunk (ts_tee s), ts_passed := ts_passed s @ [chunk]\<rparr>))"
| "tee_react SourceEnded s = (if ts_ended s \<noteq> None then None else Some (tee_end True s))"
| "tee_react SourceFailed s = (if ts_ended s \<noteq> None then None else Some (tee_end False s))"
| "tee_react ClientGone s = (if ts_ended s \<noteq> None then None else Some (tee_end False s))"
| "tee_react (SetSettled ok) s =
     (if ts_command s = None \<or> ts_settled s then None
      else Some (s\<lparr>ts_settled := True,
        ts_log := (if ok then ts_log s else log_at LogWarn [(''err'', LogThrown)] ''cache store failed'' (ts_log s))\<rparr>))"

fun tee_run :: "tee_event list \<Rightarrow> tee_stream \<Rightarrow> tee_stream option" where
  "tee_run [] s = Some s"
| "tee_run (e # es) s = (case tee_react e s of None \<Rightarrow> None | Some s' \<Rightarrow> tee_run es s')"

fun data_of :: "tee_event list \<Rightarrow> stream_chunk list" where
  "data_of [] = []"
| "data_of (TeeData c # es) = c # data_of es"
| "data_of (_ # es) = data_of es"

subsection \<open>Every run is the store hook's summary\<close>

text \<open>The invariant: the chunks kept are those of the fold of the hook, over what has passed.\<close>

definition tee_ok :: "tee_stream \<Rightarrow> bool" where
  "tee_ok s \<longleftrightarrow> ts_tee s = fold (tee_data (ts_limit s)) (ts_passed s) tee_start
     \<and> ts_command s = (if ts_ended s = Some True \<and> \<not> tee_overflow (ts_tee s)
         then Some (store_entry (ts_request s) (ts_reply s) (ts_ttl s) (concat (tee_chunks (ts_tee s))))
         else None)"

definition same_capture :: "tee_stream \<Rightarrow> tee_stream \<Rightarrow> bool" where
  "same_capture s s' \<longleftrightarrow> ts_request s' = ts_request s \<and> ts_reply s' = ts_reply s
     \<and> ts_ttl s' = ts_ttl s \<and> ts_limit s' = ts_limit s"

lemma tee_react_keeps:
  assumes "tee_react e s = Some s'" and "tee_ok s"
  shows "tee_ok s' \<and> same_capture s s' \<and> ts_passed s' = ts_passed s @ data_of [e]"
  using assms by (cases e) (auto simp: tee_ok_def same_capture_def tee_end_def split: if_splits)

lemma tee_run_keeps:
  assumes "tee_run es s = Some s'" and "tee_ok s"
  shows "tee_ok s' \<and> same_capture s s' \<and> ts_passed s' = ts_passed s @ data_of es"
  using assms
proof (induction es arbitrary: s)
  case Nil
  then show ?case by (simp add: same_capture_def)
next
  case (Cons e es)
  then obtain s1 where "tee_react e s = Some s1" "tee_run es s1 = Some s'"
    by (auto split: option.splits)
  with tee_react_keeps [OF this(1) Cons.prems(2)] Cons.IH [of s1] show ?case
    by (cases e) (auto simp: same_capture_def)
qed

lemma tee_begin_ok: "tee_begin config req reply = Some s \<Longrightarrow> tee_ok s"
  by (auto simp: tee_begin_def tee_ok_def)

lemma store_hook_plan:
  "store_hook config req reply (StreamPayload source) =
     (if cache_key req = [] then reply else reply_header HdrCache ''MISS'' reply, StreamPayload source,
      case store_plan config req reply of None \<Rightarrow> None
      | Some ttl \<Rightarrow>
          let t = fold (tee_data (CACHE_MAX_BODY_BYTES config)) (chunks source) tee_start
          in if \<not> stream_fails source \<and> \<not> tee_overflow t
             then Some (store_entry req reply ttl (concat (tee_chunks t))) else None)"
  by (auto simp: store_hook_def store_plan_def Let_def store_entry_def)

subsection \<open>Bounds\<close>

lemma tee_data_bound:
  fixes c :: stream_chunk
  assumes "int (length (concat (tee_chunks t))) \<le> tee_size t" and "tee_overflow t \<or> tee_size t \<le> limit"
    and "tee_overflow t \<longrightarrow> tee_chunks t = []"
  defines "t' \<equiv> tee_data limit c t"
  shows "int (length (concat (tee_chunks t'))) \<le> tee_size t' \<and> (tee_overflow t' \<or> tee_size t' \<le> limit)
    \<and> (tee_overflow t' \<longrightarrow> tee_chunks t' = [])"
  using assms by (auto simp: tee_data_def Let_def)

lemma tee_fold_bound:
  fixes cs :: "stream_chunk list"
  assumes "0 \<le> limit"
  defines "t \<equiv> fold (tee_data limit) cs tee_start"
  shows "int (length (concat (tee_chunks t))) \<le> limit"
proof -
  let ?P = "\<lambda>t. int (length (concat (tee_chunks t))) \<le> tee_size t \<and> (tee_overflow t \<or> tee_size t \<le> limit)
    \<and> (tee_overflow t \<longrightarrow> tee_chunks t = []) \<and> 0 \<le> tee_size t"
  have "?P (fold (tee_data limit) cs t0)" if "?P t0" for t0
    using that
  proof (induction cs arbitrary: t0)
    case (Cons c cs)
    have "?P (tee_data limit c t0)"
      using tee_data_bound [of t0 limit c] Cons.prems by (auto simp: tee_data_def Let_def)
    with Cons.IH show ?case by simp
  qed simp
  from this [of tee_start] assms(1) show ?thesis
    by (auto simp: t_def tee_start_def)
qed

lemma tee_commands:
  assumes "tee_begin config req reply = Some s0" and "tee_run es s0 = Some s" and "ts_ended s = Some ok"
  shows "store_hook config req reply (StreamPayload \<lparr>chunks = data_of es, stream_fails = \<not> ok\<rparr>)
    = (reply_header HdrCache ''MISS'' reply,
       StreamPayload \<lparr>chunks = data_of es, stream_fails = \<not> ok\<rparr>, ts_command s)"
proof -
  from assms(1) obtain ttl where ttl: "store_plan config req reply = Some ttl"
    and s0: "ts_request s0 = req" "ts_reply s0 = reply" "ts_ttl s0 = ttl" "ts_passed s0 = []"
      "ts_limit s0 = CACHE_MAX_BODY_BYTES config"
    by (auto simp: tee_begin_def)
  from ttl have "cache_key req \<noteq> []" by (auto simp: store_plan_def split: if_splits)
  with tee_run_keeps [OF assms(2) tee_begin_ok [OF assms(1)]] s0 ttl assms(3) show ?thesis
    by (auto simp: store_hook_plan Let_def tee_ok_def same_capture_def)
qed

text \<open>C10. The tee refines the store hook, and stores exactly what it may: in every run of its events (chunks,
  the end or the failure of the source, the client leaving at any moment, the answer of Redis), the
  client is handed exactly the chunks of the source, in order and whether or not they are kept; at every
  moment at most \<open>CACHE_MAX_BODY_BYTES\<close> bytes are held for the cache; nothing is sent to Redis before the
  pipeline ends; and then a response is stored precisely when the source ended without a failure, the
  client was still there and the body is within the limit, with the bytes of all its chunks. So an
  aborted or oversized response is never stored. It is also the command the hook computes for the stream
  as a whole.\<close>
theorem tee_refines_store_hook:
  fixes config :: gateway_config and es :: "tee_event list"
  assumes "tee_begin config req reply = Some s0" and "tee_run es s0 = Some s"
    and "0 \<le> CACHE_MAX_BODY_BYTES config"
  defines "body \<equiv> concat (map chunk_bytes (data_of es))"
  shows "ts_passed s = data_of es
    \<and> int (length (concat (tee_chunks (ts_tee s)))) \<le> CACHE_MAX_BODY_BYTES config
    \<and> (ts_ended s = None \<longrightarrow> ts_command s = None)
    \<and> (\<forall>ok. ts_ended s = Some ok \<longrightarrow>
        ts_command s = (if ok \<and> int (length body) \<le> CACHE_MAX_BODY_BYTES config
          then Some (store_entry req reply (resolve_ttl_ms config reply) body) else None)
        \<and> store_hook config req reply (StreamPayload \<lparr>chunks = data_of es, stream_fails = \<not> ok\<rparr>)
          = (reply_header HdrCache ''MISS'' reply,
             StreamPayload \<lparr>chunks = data_of es, stream_fails = \<not> ok\<rparr>, ts_command s))"
proof (intro conjI allI impI)
  note k = tee_run_keeps [OF assms(2) tee_begin_ok [OF assms(1)]]
  have s0: "ts_limit s0 = CACHE_MAX_BODY_BYTES config" "ts_passed s0 = []"
    using assms(1) by (auto simp: tee_begin_def)
  then show "ts_passed s = data_of es" using k by simp
  have "ts_tee s = fold (tee_data (CACHE_MAX_BODY_BYTES config)) (data_of es) tee_start"
    using k s0 by (simp add: tee_ok_def same_capture_def)
  then show "int (length (concat (tee_chunks (ts_tee s)))) \<le> CACHE_MAX_BODY_BYTES config"
    using tee_fold_bound [OF assms(3)] by simp
  show "ts_command s = None" if "ts_ended s = None" using k that by (simp add: tee_ok_def)
  fix ok assume e: "ts_ended s = Some ok"
  note hook = tee_commands [OF assms(1,2) e]
  then show "store_hook config req reply (StreamPayload \<lparr>chunks = data_of es, stream_fails = \<not> ok\<rparr>)
    = (reply_header HdrCache ''MISS'' reply,
       StreamPayload \<lparr>chunks = data_of es, stream_fails = \<not> ok\<rparr>, ts_command s)" .
  have plan: "cache_key req \<noteq> []" "status_code reply = 200" "vary_is_keyed reply" "0 < resolve_ttl_ms config reply"
    using assms(1) by (auto simp: tee_begin_def store_plan_def Let_def split: if_splits)
  show "ts_command s = (if ok \<and> int (length body) \<le> CACHE_MAX_BODY_BYTES config
      then Some (store_entry req reply (resolve_ttl_ms config reply) body) else None)"
    using hook store_hook_cases [OF assms(3), of req reply] plan
    by (auto simp: payload_bytes_def body_def split: if_splits)
qed

subsection \<open>A run\<close>

lemma sample_tee:
  "\<exists>s0. tee_begin caching_config keyed_get upstream_reply = Some s0 \<and>
    (\<exists>s. tee_run [TeeData (BufferChunk [104, 101]), TeeData (StringChunk ''llo''), SourceEnded, SetSettled False] s0
      = Some s \<and> ts_ended s = Some True \<and> ts_command s \<noteq> None
        \<and> log_lines (ts_log s) = [\<lparr>line_level = LogWarn, line_fields = [(''err'', LogThrown)], line_text = ''cache store failed''\<rparr>])"
proof -
  have "vary_is_keyed upstream_reply" "status_code upstream_reply = 200"
    by (simp_all add: vary_is_keyed_def upstream_reply_def fresh_reply_def)
  then have "store_plan caching_config keyed_get upstream_reply
      = Some (resolve_ttl_ms caching_config upstream_reply)"
    using sample_ttl sample_key by (simp add: store_plan_def)
  moreover have "length (chunk_bytes (StringChunk ''llo'')) = 3" "length (chunk_bytes (BufferChunk [104, 101])) = 2"
    by code_simp+
  moreover have "req_log keyed_get = \<lparr>bindings = [], log_lines = []\<rparr>"
    by (simp add: keyed_get_def public_get_def sample_request_def)
  ultimately show ?thesis
    by (simp add: tee_begin_def tee_end_def tee_data_def tee_start_def caching_config_def Let_def log_at_def)
qed

theorem tee_refines_store_hook_witness:
  "\<exists>s0 s. tee_begin caching_config keyed_get upstream_reply = Some s0
    \<and> tee_run [TeeData (BufferChunk [104, 101]), TeeData (StringChunk ''llo''), SourceEnded, SetSettled False] s0 = Some s
    \<and> ts_command s = Some (store_entry keyed_get upstream_reply (resolve_ttl_ms caching_config upstream_reply)
        [104, 101, 108, 108, 111])"
proof -
  have m: "0 \<le> CACHE_MAX_BODY_BYTES caching_config" by (simp add: caching_config_def)
  let ?es = "[TeeData (BufferChunk [104, 101]), TeeData (StringChunk ''llo''), SourceEnded, SetSettled False]"
  from sample_tee obtain s0 s where s: "tee_begin caching_config keyed_get upstream_reply = Some s0"
    "tee_run ?es s0 = Some s" "ts_ended s = Some True"
    by blast
  have b: "concat (map chunk_bytes (data_of ?es)) = [104, 101, 108, 108, 111]" by code_simp
  have "int (length [104, 101, 108, 108, 111 :: byte]) \<le> CACHE_MAX_BODY_BYTES caching_config"
    by (simp add: caching_config_def)
  with tee_refines_store_hook [OF s(1,2) m, unfolded b] s(3)
  have "ts_command s = Some (store_entry keyed_get upstream_reply (resolve_ttl_ms caching_config upstream_reply)
        [104, 101, 108, 108, 111])" by (simp add: ex_bool_eq)
  with s(1,2) show ?thesis by blast
qed

end
