(* ===== verification/AuthRegistry.thy ===== *)
theory AuthRegistry
  imports Strategies Config
begin

section \<open>The edge authentication plugin\<close>

text \<open>
  \<open>plugins/auth.ts\<close>: the registry that maps each scheme to its guard, the two decorators over it
  and the registration of the four built-in guards from the configuration. Registration errors and
  malformed configuration are values, so that a failed boot is a branch of the model. The registry
  is an insertion-ordered map (\<open>ordered_map\<close> in Prelude), and every registered guard satisfies the
  contract \<open>auth_guard\<close>.
\<close>

type_synonym auth_registry = "(auth_scheme, strategy) js_map"

definition already_registered_message :: "auth_scheme \<Rightarrow> string" where
  "already_registered_message scheme =
     ''Auth strategy already registered for scheme \"'' @ auth_scheme_value scheme @ ''\"''"

definition register_auth_strategy ::
    "auth_scheme \<Rightarrow> strategy \<Rightarrow> auth_registry \<Rightarrow> auth_registry result" where
  "register_auth_strategy scheme guard strategies =
     (if jm_has strategies scheme then Inl (Error (already_registered_message scheme))
      else Inr (jm_set strategies scheme guard))"

definition auth_strategy :: "auth_registry \<Rightarrow> auth_scheme \<Rightarrow> strategy option" where
  "auth_strategy strategies scheme = jm_get strategies scheme"

text \<open>\<open>text || undefined\<close>.\<close>

definition or_undefined :: "string \<Rightarrow> string option" where
  "or_undefined s = (if s = [] then None else Some s)"

definition jwt_options_of :: "gateway_config \<Rightarrow> jwt_options" where
  "jwt_options_of config =
     \<lparr>jwt_secret = or_undefined (JWT_SECRET config),
      jwt_jwks_uri = or_undefined (JWT_JWKS_URI config),
      jwt_issuer = or_undefined (JWT_ISSUER config),
      jwt_audience = or_undefined (JWT_AUDIENCE config)\<rparr>"

definition bearer_options_of :: "gateway_config \<Rightarrow> bearer_options" where
  "bearer_options_of config =
     \<lparr>introspection_url = BEARER_INTROSPECTION_URL config,
      introspection_token = or_undefined (BEARER_INTROSPECTION_TOKEN config),
      cache_ttl_ms = BEARER_CACHE_TTL_MS config,
      cache_max_entries = default_cache_max_entries\<rparr>"

definition auth_plugin :: "hash \<Rightarrow> (string \<Rightarrow> bool) \<Rightarrow> gateway_config \<Rightarrow> auth_registry result" where
  "auth_plugin sha256 url_parses config =
     bind_result
       (register_auth_strategy AuthApiKey
          (create_api_key_strategy sha256 (GATEWAY_API_KEY config)) jm_empty) (\<lambda>strategies.
     bind_result (parse_user_list (BASIC_AUTH_USERS config)) (\<lambda>users.
     bind_result
       (register_auth_strategy AuthBasic (create_basic_auth_strategy sha256 users) strategies)
       (\<lambda>strategies.
     bind_result (create_jwt_strategy url_parses (jwt_options_of config)) (\<lambda>jwt.
     bind_result (register_auth_strategy AuthJwt jwt strategies) (\<lambda>strategies.
     register_auth_strategy AuthBearer
       (create_bearer_auth_strategy sha256 (bearer_options_of config)) strategies)))))"

subsection \<open>Registration\<close>

lemma register_spec:
  "register_auth_strategy scheme guard strategies = Inr strategies' \<longleftrightarrow>
     auth_strategy strategies scheme = None \<and> strategies' = jm_set strategies scheme guard"
  by (auto simp: register_auth_strategy_def auth_strategy_def jm_has_def)

lemma register_lookup:
  "register_auth_strategy scheme guard strategies = Inr strategies' \<Longrightarrow>
     auth_strategy strategies' = (auth_strategy strategies)(scheme \<mapsto> guard)"
  by (auto simp: register_spec auth_strategy_def jm_get_set fun_eq_iff)

lemma register_again:
  "auth_strategy strategies scheme \<noteq> None \<Longrightarrow>
     register_auth_strategy scheme guard strategies
       = Inl (Error (already_registered_message scheme))"
  by (simp add: register_auth_strategy_def auth_strategy_def jm_has_def)

lemma auth_strategy_empty [simp]: "auth_strategy jm_empty = (\<lambda>_. None)"
  by (simp add: auth_strategy_def jm_empty_def fun_eq_iff)

lemma auth_plugin_registry:
  assumes "auth_plugin sha256 url_parses config = Inr strategies"
  obtains users jwt where "parse_user_list (BASIC_AUTH_USERS config) = Inr users"
    and "create_jwt_strategy url_parses (jwt_options_of config) = Inr jwt"
    and "auth_strategy strategies =
      [AuthApiKey \<mapsto> create_api_key_strategy sha256 (GATEWAY_API_KEY config),
       AuthBasic \<mapsto> create_basic_auth_strategy sha256 users,
       AuthJwt \<mapsto> jwt,
       AuthBearer \<mapsto> create_bearer_auth_strategy sha256 (bearer_options_of config)]"
proof -
  from assms obtain s1 s2 s3 users jwt where
    "register_auth_strategy AuthApiKey
       (create_api_key_strategy sha256 (GATEWAY_API_KEY config)) jm_empty = Inr s1"
    and users: "parse_user_list (BASIC_AUTH_USERS config) = Inr users"
    and "register_auth_strategy AuthBasic (create_basic_auth_strategy sha256 users) s1 = Inr s2"
    and jwt: "create_jwt_strategy url_parses (jwt_options_of config) = Inr jwt"
    and "register_auth_strategy AuthJwt jwt s2 = Inr s3"
    and "register_auth_strategy AuthBearer
       (create_bearer_auth_strategy sha256 (bearer_options_of config)) s3 = Inr strategies"
    unfolding auth_plugin_def bind_result_Inr_iff by blast
  note regs = this(1,3,5,6)
  show thesis
    by (rule that [OF users jwt])
      (simp only: register_lookup [OF regs(4)] register_lookup [OF regs(3)]
        register_lookup [OF regs(2)] register_lookup [OF regs(1)] auth_strategy_empty)
qed

lemma create_jwt_ok_iff:
  "(\<exists>guard. create_jwt_strategy url_parses options = Inr guard) \<longleftrightarrow>
     (\<forall>uri. truthy (jwt_jwks_uri options) = Some uri \<longrightarrow> url_parses uri)"
  by (auto simp: create_jwt_strategy_def jwt_key_of_def split: option.splits)

lemma truthy_or_undefined [simp]: "truthy (or_undefined s) = or_undefined s"
  by (cases s) (simp_all add: or_undefined_def)

lemma or_undefined_Some [simp]: "or_undefined s = Some t \<longleftrightarrow> s = t \<and> t \<noteq> []"
  by (auto simp: or_undefined_def)

lemma auth_plugin_boots:
  "(\<exists>strategies. auth_plugin sha256 url_parses config = Inr strategies) \<longleftrightarrow>
     (\<exists>users. parse_user_list (BASIC_AUTH_USERS config) = Inr users)
     \<and> (JWT_JWKS_URI config = [] \<or> url_parses (JWT_JWKS_URI config))"
proof -
  have jwt: "(\<exists>guard. create_jwt_strategy url_parses (jwt_options_of config) = Inr guard) \<longleftrightarrow>
      (JWT_JWKS_URI config = [] \<or> url_parses (JWT_JWKS_URI config))"
    unfolding create_jwt_ok_iff by (auto simp: jwt_options_of_def)
  have "\<exists>strategies. auth_plugin sha256 url_parses config = Inr strategies"
    if "parse_user_list (BASIC_AUTH_USERS config) = Inr users"
      and "create_jwt_strategy url_parses (jwt_options_of config) = Inr guard" for users guard
    using that by (simp add: auth_plugin_def register_spec auth_strategy_def jm_get_set jm_empty_def)
  then show ?thesis unfolding jwt [symmetric] by (blast elim: auth_plugin_registry)
qed

text \<open>The plugin boots exactly on a well-formed configuration: the Basic user list parses and the
  JWKS endpoint, when set, is a URL. No combination of the four built-in schemes collides.\<close>
theorem auth_plugin_boots_iff:
  "(\<exists>strategies. auth_plugin sha256 url_parses config = Inr strategies) \<longleftrightarrow>
     (\<exists>users. parse_user_list (BASIC_AUTH_USERS config) = Inr users)
     \<and> (JWT_JWKS_URI config = [] \<or> url_parses (JWT_JWKS_URI config))"
  by (rule auth_plugin_boots)

text \<open>Every guard the plugin registers keeps the contract of a guard.\<close>

lemma jwt_strategy_guard:
  assumes "create_jwt_strategy url_parses options = Inr guard" shows "tagging_guard guard"
proof -
  from assms obtain key opts where "guard = jwt_guard key opts"
    by (auto simp: create_jwt_strategy_def split: sum.splits)
  then show ?thesis by (simp only: jwt_tags.tagging_guard_axioms)
qed

lemma registered_tagging:
  assumes "auth_plugin sha256 url_parses config = Inr strategies"
    and "auth_strategy strategies scheme = Some guard"
  shows "tagging_guard guard"
proof -
  from auth_plugin_registry [OF assms(1)] obtain users jwt where
    jwt: "create_jwt_strategy url_parses (jwt_options_of config) = Inr jwt"
    and look: "auth_strategy strategies =
      [AuthApiKey \<mapsto> create_api_key_strategy sha256 (GATEWAY_API_KEY config),
       AuthBasic \<mapsto> create_basic_auth_strategy sha256 users,
       AuthJwt \<mapsto> jwt,
       AuthBearer \<mapsto> create_bearer_auth_strategy sha256 (bearer_options_of config)]"
    by blast
  note guards = api_key_tags.tagging_guard_axioms basic_tags.tagging_guard_axioms
    bearer_tags.tagging_guard_axioms jwt_strategy_guard [OF jwt]
  show ?thesis
    using assms(2) guards unfolding look by (cases scheme) auto
qed

lemma registered_guard:
  assumes "auth_plugin sha256 url_parses config = Inr strategies"
    and "auth_strategy strategies scheme = Some guard"
  shows "auth_guard guard"
  using registered_tagging [OF assms] by (rule tagging_guard.axioms(1))

end
