(* ===== verification/Tracing.thy ===== *)
theory Tracing
  imports Http
begin

section \<open>Request ids and trace context\<close>

text \<open>
  \<open>utils/tracing.util.ts\<close>, \<open>plugins/request-context.ts\<close> and the request-id generator of
  \<open>app.ts\<close>. Random bytes and UUIDs are parameters; what is proved of fresh ids assumes only their
  documented length and that they are not all zero. The hook mutates the request's headers (which
  the proxy forwards) and the reply's; both are returned updated.
\<close>

subsection \<open>\<open>traceparent\<close>\<close>

record trace_context =
  tc_trace_id :: string
  tc_span_id :: string
  tc_flags :: string

record random_source =
  trace_bytes :: bytes
  span_bytes :: bytes

definition zero_trace_id :: string where
  "zero_trace_id = replicate 32 (CHR ''0'')"

definition zero_span_id :: string where
  "zero_span_id = replicate 16 (CHR ''0'')"

definition generate_trace_id :: "random_source \<Rightarrow> string" where
  "generate_trace_id rnd = bytes_hex (trace_bytes rnd)"

definition generate_span_id :: "random_source \<Rightarrow> string" where
  "generate_span_id rnd = bytes_hex (span_bytes rnd)"

text \<open>The pattern: four lower-case hex groups of 2, 32, 16 and 2 digits between dashes.\<close>

definition match_traceparent :: "string \<Rightarrow> (string \<times> string \<times> string \<times> string) option" where
  "match_traceparent s =
     (let version = take 2 s; tid = take 32 (drop 3 s);
          sid = take 16 (drop 36 s); flags = drop 53 s
      in if length s = 55 \<and> s ! 2 = CHR ''-'' \<and> s ! 35 = CHR ''-'' \<and> s ! 52 = CHR ''-''
            \<and> list_all is_hex_lower (version @ tid @ sid @ flags)
         then Some (version, tid, sid, flags) else None)"

definition parse_traceparent :: "string option \<Rightarrow> trace_context option" where
  "parse_traceparent header =
     (case header of
        None \<Rightarrow> None
      | Some h \<Rightarrow>
          if h = [] then None
          else (case match_traceparent (js_trim h) of
             None \<Rightarrow> None
           | Some (version, tid, sid, flags) \<Rightarrow>
               if version = ''ff'' then None
               else if tid = zero_trace_id \<or> sid = zero_span_id then None
               else Some \<lparr>tc_trace_id = tid, tc_span_id = sid, tc_flags = flags\<rparr>))"

definition format_traceparent :: "trace_context \<Rightarrow> string" where
  "format_traceparent context =
     ''00-'' @ tc_trace_id context @ ''-'' @ tc_span_id context @ ''-'' @ tc_flags context"

definition next_trace_context :: "random_source \<Rightarrow> string option \<Rightarrow> trace_context \<times> bool" where
  "next_trace_context rnd incoming =
     (case parse_traceparent incoming of
        Some parent \<Rightarrow>
          (\<lparr>tc_trace_id = tc_trace_id parent, tc_span_id = generate_span_id rnd,
            tc_flags = tc_flags parent\<rparr>, True)
      | None \<Rightarrow>
          (\<lparr>tc_trace_id = generate_trace_id rnd, tc_span_id = generate_span_id rnd,
            tc_flags = ''01''\<rparr>, False))"

subsection \<open>Ids of a request\<close>

definition gen_req_id :: "string \<Rightarrow> headers \<Rightarrow> string" where
  "gen_req_id uuid hs =
     (case string_header (header_of hs HdrRequestId) of
        Some incoming \<Rightarrow> if safe_header_id incoming then incoming else uuid
      | None \<Rightarrow> uuid)"

definition max_tracestate_length :: nat where
  "max_tracestate_length = 512"

definition context_correlation_id :: "request \<Rightarrow> string" where
  "context_correlation_id req =
     (case string_header (req_header req HdrCorrelationId) of
        Some incoming \<Rightarrow> if safe_header_id incoming then incoming else req_id req
      | None \<Rightarrow> req_id req)"

definition keep_tracestate :: "bool \<Rightarrow> hval option \<Rightarrow> bool" where
  "keep_tracestate continued state \<longleftrightarrow>
     continued \<and> (case string_header state of None \<Rightarrow> False
        | Some s \<Rightarrow> length s \<le> max_tracestate_length)"

definition request_context_hook :: "random_source \<Rightarrow> request \<Rightarrow> reply \<Rightarrow> request \<times> reply" where
  "request_context_hook rnd req reply =
     (let request_id = req_id req;
          correlation = context_correlation_id req;
          (context, continued) =
            next_trace_context rnd (string_header (req_header req HdrTraceparent));
          hs = set_header (req_headers req) HdrRequestId (HStr request_id);
          hs = set_header hs HdrCorrelationId (HStr correlation);
          hs = set_header hs HdrTraceparent (HStr (format_traceparent context));
          hs = (if keep_tracestate continued (header_of hs HdrTracestate) then hs
                else del_header hs HdrTracestate)
      in (req\<lparr>correlation_id := correlation, trace_id := tc_trace_id context, req_headers := hs,
              req_log := log_child [(''correlationId'', correlation),
                (''traceId'', tc_trace_id context)] (req_log req)\<rparr>,
          reply_header HdrCorrelationId correlation (reply_header HdrRequestId request_id reply)))"

subsection \<open>Valid contexts\<close>

definition valid_context :: "trace_context \<Rightarrow> bool" where
  "valid_context c \<longleftrightarrow>
     length (tc_trace_id c) = 32 \<and> length (tc_span_id c) = 16 \<and> length (tc_flags c) = 2
     \<and> list_all is_hex_lower (tc_trace_id c @ tc_span_id c @ tc_flags c)
     \<and> tc_trace_id c \<noteq> zero_trace_id \<and> tc_span_id c \<noteq> zero_span_id"

definition good_random :: "random_source \<Rightarrow> bool" where
  "good_random rnd \<longleftrightarrow> length (trace_bytes rnd) = 16 \<and> length (span_bytes rnd) = 8
     \<and> (\<exists>b \<in> set (trace_bytes rnd). b \<noteq> 0) \<and> (\<exists>b \<in> set (span_bytes rnd). b \<noteq> 0)"

lemma match_traceparent_Some:
  "match_traceparent s = Some (v, t, p, f) \<Longrightarrow>
     length v = 2 \<and> length t = 32 \<and> length p = 16 \<and> length f = 2
     \<and> list_all is_hex_lower (v @ t @ p @ f)"
  by (auto simp: match_traceparent_def Let_def split: if_splits)

lemma match_traceparent_intro:
  assumes "length v = 2" "length t = 32" "length p = 16" "length f = 2"
    and "list_all is_hex_lower (v @ t @ p @ f)"
  shows "match_traceparent (v @ ''-'' @ t @ ''-'' @ p @ ''-'' @ f) = Some (v, t, p, f)"
  using assms by (simp add: match_traceparent_def Let_def nth_append)

lemma parse_traceparent_valid:
  "parse_traceparent h = Some c \<Longrightarrow> valid_context c"
  by (auto simp: parse_traceparent_def valid_context_def dest!: match_traceparent_Some
      split: option.splits if_splits prod.splits)

lemma format_trimmed:
  assumes "valid_context c" shows "trimmed (format_traceparent c)"
proof -
  have "tc_flags c \<noteq> []" and "list_all is_hex_lower (tc_flags c)"
    using assms by (auto simp: valid_context_def)
  then have "\<not> is_ws (last (tc_flags c))"
    using hex_lower_not_ws by (metis last_in_set list.pred_set)
  then show ?thesis
    using \<open>tc_flags c \<noteq> []\<close> by (simp add: trimmed_def format_traceparent_def is_ws_def)
qed

lemma parse_format:
  assumes "valid_context c" shows "parse_traceparent (Some (format_traceparent c)) = Some c"
proof -
  have "match_traceparent (''00'' @ ''-'' @ tc_trace_id c @ ''-'' @ tc_span_id c @ ''-'' @ tc_flags c)
      = Some (''00'', tc_trace_id c, tc_span_id c, tc_flags c)"
    by (rule match_traceparent_intro)
      (use assms in \<open>auto simp: valid_context_def is_hex_lower_def is_digit_def\<close>)
  then have "match_traceparent (format_traceparent c)
      = Some (''00'', tc_trace_id c, tc_span_id c, tc_flags c)"
    by (simp add: format_traceparent_def)
  then show ?thesis
    using assms js_trim_id [OF format_trimmed [OF assms]]
    by (simp add: parse_traceparent_def valid_context_def format_traceparent_def)
qed

text \<open>Round trip of \<open>traceparent\<close>: formatting and parsing a context gives it back exactly for the
  valid contexts (hex ids of 32 and 16 digits, not all zero, two flag digits).\<close>
theorem traceparent_round_trip:
  "parse_traceparent (Some (format_traceparent c)) = Some c \<longleftrightarrow> valid_context c"
  using parse_format parse_traceparent_valid by blast

lemma zero_hex: "bytes_hex (replicate n 0) = replicate (2 * n) (CHR ''0'')"
proof (induction n)
  case (Suc n)
  have "char_of (48 :: nat) = CHR ''0''" by code_simp
  with Suc show ?case by (simp add: bytes_hex_def hex_char_def)
qed (simp add: bytes_hex_def)

lemma bytes_hex_zero:
  assumes "b \<in> set bs" and "b \<noteq> 0"
  shows "bytes_hex bs \<noteq> replicate (2 * length bs) (CHR ''0'')"
  using assms by (metis bytes_hex_inj in_set_replicate zero_hex)

lemma generated_ids:
  assumes "good_random rnd"
  shows "length (generate_trace_id rnd) = 32" "length (generate_span_id rnd) = 16"
    "list_all is_hex_lower (generate_trace_id rnd)" "list_all is_hex_lower (generate_span_id rnd)"
    "generate_trace_id rnd \<noteq> zero_trace_id" "generate_span_id rnd \<noteq> zero_span_id"
proof -
  obtain a b where "a \<in> set (trace_bytes rnd)" "a \<noteq> 0" "b \<in> set (span_bytes rnd)" "b \<noteq> 0"
    and l: "length (trace_bytes rnd) = 16" "length (span_bytes rnd) = 8"
    using assms by (auto simp: good_random_def)
  note z = bytes_hex_zero [OF this(1,2)] bytes_hex_zero [OF this(3,4)]
  show "generate_trace_id rnd \<noteq> zero_trace_id" "generate_span_id rnd \<noteq> zero_span_id"
    using z unfolding l by (simp_all add: generate_trace_id_def generate_span_id_def
      zero_trace_id_def zero_span_id_def)
qed (use assms in \<open>simp_all add: good_random_def generate_trace_id_def generate_span_id_def
  bytes_hex_lower\<close>)

lemma next_context_valid:
  assumes "good_random rnd" shows "valid_context (fst (next_trace_context rnd h))"
proof (cases "parse_traceparent h")
  case None
  then show ?thesis using generated_ids [OF assms]
    by (simp add: next_trace_context_def valid_context_def is_hex_lower_def is_digit_def)
next
  case (Some c)
  from parse_traceparent_valid [OF this] show ?thesis
    using Some generated_ids [OF assms]
    by (simp add: next_trace_context_def valid_context_def)
qed

subsection \<open>The hook\<close>

lemma hook_unfold:
  fixes rnd req reply
  defines "ctx \<equiv> next_trace_context rnd (string_header (req_header req HdrTraceparent))"
  shows "req_id (fst (request_context_hook rnd req reply)) = req_id req"
    "correlation_id (fst (request_context_hook rnd req reply)) = context_correlation_id req"
    "trace_id (fst (request_context_hook rnd req reply)) = tc_trace_id (fst ctx)"
    "req_headers (fst (request_context_hook rnd req reply)) n =
       (if n = ''x-request-id'' then Some (HStr (req_id req))
        else if n = ''x-correlation-id'' then Some (HStr (context_correlation_id req))
        else if n = ''traceparent'' then Some (HStr (format_traceparent (fst ctx)))
        else if n = ''tracestate'' \<and> \<not> keep_tracestate (snd ctx) (req_header req HdrTracestate)
        then None else req_headers req n)"
    "reply_headers (snd (request_context_hook rnd req reply)) n =
       (if n = ''x-request-id'' then Some (HStr (req_id req))
        else if n = ''x-correlation-id'' then Some (HStr (context_correlation_id req))
        else reply_headers reply n)"
    "sent (snd (request_context_hook rnd req reply)) = sent reply"
  unfolding ctx_def
  by (simp_all add: request_context_hook_def Let_def req_header_def header_of_def set_header_def
      del_header_def header_name.simps split: prod.split)

lemma gen_req_id_safe: "safe_header_id uuid \<Longrightarrow> safe_header_id (gen_req_id uuid hs)"
  by (simp add: gen_req_id_def split: option.split)

lemma correlation_safe:
  "safe_header_id (req_id req) \<Longrightarrow> safe_header_id (context_correlation_id req)"
  by (simp add: context_correlation_id_def split: option.split)

text \<open>C32. Ids cannot be injected: whatever the client sends, the request id and the correlation id that
  are forwarded upstream, echoed to the client and bound to the log are 1 to 128 word characters,
  dots or dashes; a well-formed client id is kept, and the ids of all three places agree.\<close>
theorem correlation_ids_safe:
  assumes "safe_header_id uuid" and "req_id req = gen_req_id uuid (req_headers req)"
    and "request_context_hook rnd req reply = (req', reply')"
  shows "\<exists>rid cid. safe_header_id rid \<and> safe_header_id cid
    \<and> req_id req' = rid \<and> correlation_id req' = cid
    \<and> req_header req' HdrRequestId = Some (HStr rid)
    \<and> req_header req' HdrCorrelationId = Some (HStr cid)
    \<and> header_of (reply_headers reply') HdrRequestId = Some (HStr rid)
    \<and> header_of (reply_headers reply') HdrCorrelationId = Some (HStr cid)
    \<and> (\<forall>s. req_header req HdrRequestId = Some (HStr s) \<and> safe_header_id s \<longrightarrow> rid = s)
    \<and> (\<forall>s. req_header req HdrCorrelationId = Some (HStr s) \<and> safe_header_id s \<longrightarrow> cid = s)"
proof (intro exI conjI)
  have rid: "safe_header_id (req_id req)" unfolding assms(2) by (rule gen_req_id_safe [OF assms(1)])
  then show "safe_header_id (req_id req)" "safe_header_id (context_correlation_id req)"
    by (simp_all add: correlation_safe)
  show "\<forall>s. req_header req HdrRequestId = Some (HStr s) \<and> safe_header_id s \<longrightarrow> req_id req = s"
    by (simp add: assms(2) gen_req_id_def req_header_def)
  show "\<forall>s. req_header req HdrCorrelationId = Some (HStr s) \<and> safe_header_id s
      \<longrightarrow> context_correlation_id req = s"
    by (simp add: context_correlation_id_def)
qed (use hook_unfold [of rnd req reply] assms(3) in
  \<open>simp_all add: req_header_def header_of_def header_name.simps\<close>)

text \<open>C31. Trace propagation: the upstream always receives a valid \<open>traceparent\<close> with this hop's span
  id; a valid incoming trace keeps its id and flags, an invalid one is replaced; \<open>tracestate\<close> is
  forwarded, unchanged, only with a continued trace and within 512 characters. Every header but the
  four ids passes unchanged.\<close>
theorem trace_propagation:
  assumes "good_random rnd" and "request_context_hook rnd req reply = (req', reply')"
  defines "incoming \<equiv> parse_traceparent (string_header (req_header req HdrTraceparent))"
  shows "\<exists>c. valid_context c
      \<and> parse_traceparent (string_header (req_header req' HdrTraceparent)) = Some c
      \<and> trace_id req' = tc_trace_id c \<and> tc_span_id c = generate_span_id rnd
      \<and> (case incoming of None \<Rightarrow> tc_trace_id c = generate_trace_id rnd \<and> tc_flags c = ''01''
         | Some p \<Rightarrow> tc_trace_id c = tc_trace_id p \<and> tc_flags c = tc_flags p)
      \<and> req_header req' HdrTracestate =
          (case (incoming, req_header req HdrTracestate) of
             (Some _, Some (HStr s)) \<Rightarrow> if length s \<le> 512 then Some (HStr s) else None
           | _ \<Rightarrow> None)
      \<and> (\<forall>n. n \<notin> {''x-request-id'', ''x-correlation-id'', ''traceparent'', ''tracestate''}
           \<longrightarrow> req_headers req' n = req_headers req n)"
proof -
  let ?ctx = "next_trace_context rnd (string_header (req_header req HdrTraceparent))"
  note hook = hook_unfold [of rnd req reply, unfolded assms(2) fst_conv snd_conv]
  have v: "valid_context (fst ?ctx)" by (rule next_context_valid [OF assms(1)])
  have tp: "req_header req' HdrTraceparent = Some (HStr (format_traceparent (fst ?ctx)))"
    by (simp add: req_header_def header_of_def header_name.simps hook(4))
  have ids: "tc_span_id (fst ?ctx) = generate_span_id rnd"
    "case incoming of None \<Rightarrow> tc_trace_id (fst ?ctx) = generate_trace_id rnd \<and> tc_flags (fst ?ctx) = ''01''
      | Some p \<Rightarrow> tc_trace_id (fst ?ctx) = tc_trace_id p \<and> tc_flags (fst ?ctx) = tc_flags p"
    "snd ?ctx \<longleftrightarrow> incoming \<noteq> None"
    unfolding incoming_def by (simp_all add: next_trace_context_def split: option.split)
  have ts: "req_header req' HdrTracestate = (case (incoming, req_header req HdrTracestate) of
      (Some _, Some (HStr s)) \<Rightarrow> if length s \<le> 512 then Some (HStr s) else None | _ \<Rightarrow> None)"
    using ids(3)
    by (auto simp: req_header_def header_of_def header_name.simps hook(4) keep_tracestate_def
        max_tracestate_length_def split: option.split hval.split)
  show ?thesis
    using v parse_format [OF v] ids ts
    by (intro exI [of _ "fst ?ctx"]) (auto simp: tp hook(3,4))
qed

subsection \<open>Concrete requests\<close>

definition sample_random :: random_source where
  "sample_random = \<lparr>trace_bytes = replicate 16 171, span_bytes = replicate 8 205\<rparr>"

definition traced_request :: request where
  "traced_request = (sample_request ''GET''
     [(HdrRequestId, ''bad id''), (HdrCorrelationId, ''order-7''), (HdrTracestate, ''a=b''),
      (HdrTraceparent, ''00-0af7651916cd43dd8448eb211c80319c-b7ad6b7169203331-01'')])
     \<lparr>req_id := ''uuid-1''\<rparr>"

lemma traced_headers:
  "req_header traced_request HdrRequestId = Some (HStr ''bad id'')"
  "req_header traced_request HdrCorrelationId = Some (HStr ''order-7'')"
  "req_header traced_request HdrTracestate = Some (HStr ''a=b'')"
  "req_header traced_request HdrTraceparent
     = Some (HStr ''00-0af7651916cd43dd8448eb211c80319c-b7ad6b7169203331-01'')"
  by (simp_all add: traced_request_def req_header_def sample_request_def)

lemma sample_random_good: "good_random sample_random"
  by (simp add: good_random_def sample_random_def)

theorem correlation_ids_safe_witness:
  "req_id (fst (request_context_hook sample_random traced_request fresh_reply)) = ''uuid-1''
    \<and> correlation_id (fst (request_context_hook sample_random traced_request fresh_reply)) = ''order-7''"
proof -
  have u: "safe_header_id ''uuid-1''" and o: "safe_header_id ''order-7''"
    and b: "\<not> safe_header_id ''bad id''"
    by code_simp+
  have rid: "req_id traced_request = ''uuid-1''" by (simp add: traced_request_def)
  have "req_id traced_request = gen_req_id ''uuid-1'' (req_headers traced_request)"
    using traced_headers(1) b by (simp add: gen_req_id_def rid req_header_def)
  from correlation_ids_safe [OF u this, of sample_random fresh_reply]
  have "correlation_id (fst (request_context_hook sample_random traced_request fresh_reply)) = ''order-7''"
    using o traced_headers(2) by (metis prod.collapse)
  then show ?thesis by (simp add: hook_unfold rid)
qed

theorem trace_propagation_witness:
  "trace_id (fst (request_context_hook sample_random traced_request fresh_reply))
      = ''0af7651916cd43dd8448eb211c80319c''
    \<and> req_header (fst (request_context_hook sample_random traced_request fresh_reply)) HdrTracestate
      = Some (HStr ''a=b'')"
proof -
  obtain req' reply' where h: "request_context_hook sample_random traced_request fresh_reply = (req', reply')"
    by (cases "request_context_hook sample_random traced_request fresh_reply") auto
  have p: "parse_traceparent (Some ''00-0af7651916cd43dd8448eb211c80319c-b7ad6b7169203331-01'')
      = Some \<lparr>tc_trace_id = ''0af7651916cd43dd8448eb211c80319c'', tc_span_id = ''b7ad6b7169203331'',
          tc_flags = ''01''\<rparr>"
    by code_simp
  have "length ''a=b'' \<le> 512" by simp
  with trace_propagation [OF sample_random_good h]
  have "trace_id req' = ''0af7651916cd43dd8448eb211c80319c''
      \<and> req_header req' HdrTracestate = Some (HStr ''a=b'')"
    unfolding traced_headers string_header.simps p option.case prod.case hval.case
      trace_context.select_convs by (elim exE conjE) (simp only: if_True)
  with h show ?thesis by simp
qed

text \<open>Any version but \<open>ff\<close> is accepted, and the forwarded header says version 00.\<close>

lemma other_versions_accepted:
  "map_option format_traceparent
      (parse_traceparent (Some ''cc-0af7651916cd43dd8448eb211c80319c-b7ad6b7169203331-01''))
    = Some ''00-0af7651916cd43dd8448eb211c80319c-b7ad6b7169203331-01''"
  by code_simp

end
