(* ===== verification/IpList.thy ===== *)
theory IpList
  imports Http Config
begin

section \<open>IP lists and the IP filter\<close>

text \<open>
  \<open>utils/ip-list.util.ts\<close> and \<open>plugins/ip-filter.ts\<close> over the parts of Node's \<open>net\<close> module they
  use: the textual forms \<open>isIP\<close> accepts, and the \<open>BlockList\<close>, which compares IPv4 and IPv6
  addresses with each other through the IPv4-mapped range \<open>::ffff:0:0/96\<close>. Addresses are 32- and
  128-bit words. A text that is not an address is on no list: \<open>BlockList.check\<close> returns false for it.
\<close>

unbundle bit_operations_syntax

subsection \<open>Addresses\<close>

datatype ip_address = V4 "32 word" | V6 "128 word"

definition v4_segment :: "string \<Rightarrow> int option" where
  "v4_segment s =
     (if s \<noteq> [] \<and> length s \<le> 3 \<and> list_all is_digit s \<and> (length s = 1 \<or> hd s \<noteq> CHR ''0'')
         \<and> nat_of_digits s \<le> 255
      then Some (int (nat_of_digits s)) else None)"

definition parse_ipv4 :: "string \<Rightarrow> 32 word option" where
  "parse_ipv4 s =
     (case map v4_segment (split_on (CHR ''.'') s) of
        [Some a, Some b, Some c, Some d] \<Rightarrow>
          Some (word_of_int (((a * 256 + b) * 256 + c) * 256 + d))
      | _ \<Rightarrow> None)"

definition hex_number :: "string \<Rightarrow> int" where
  "hex_number s = foldl (\<lambda>n c. n * 16 + int (radix_digit c)) 0 s"

definition hex_group :: "string \<Rightarrow> int option" where
  "hex_group s =
     (if s \<noteq> [] \<and> length s \<le> 4 \<and> list_all is_hex s then Some (hex_number s) else None)"

text \<open>Groups of 16 bits; a dotted IPv4 address may stand for the last two.\<close>

fun v6_groups :: "bool \<Rightarrow> string list \<Rightarrow> int list option" where
  "v6_groups dotted [] = Some []"
| "v6_groups dotted [p] =
     (case hex_group p of Some g \<Rightarrow> Some [g]
      | None \<Rightarrow>
          if dotted then (case parse_ipv4 p of None \<Rightarrow> None
            | Some w \<Rightarrow> Some [uint w div 65536, uint w mod 65536])
          else None)"
| "v6_groups dotted (p # q # ps) =
     (case (hex_group p, v6_groups dotted (q # ps)) of
        (Some g, Some gs) \<Rightarrow> Some (g # gs) | _ \<Rightarrow> None)"

definition v6_side :: "bool \<Rightarrow> string \<Rightarrow> int list option" where
  "v6_side dotted s = (if s = [] then Some [] else v6_groups dotted (split_on (CHR '':'') s))"

text \<open>The text around the first double colon.\<close>

fun split_dcolon :: "string \<Rightarrow> (string \<times> string) option" where
  "split_dcolon (a # b # s) =
     (if a = CHR '':'' \<and> b = CHR '':'' then Some ([], s)
      else map_option (\<lambda>(l, r). (a # l, r)) (split_dcolon (b # s)))"
| "split_dcolon _ = None"

definition word_of_groups :: "int list \<Rightarrow> 128 word" where
  "word_of_groups gs = word_of_int (foldl (\<lambda>acc g. acc * 65536 + g) 0 gs)"

definition zone_char :: "char \<Rightarrow> bool" where
  "zone_char c \<longleftrightarrow> is_digit c \<or> is_upper c \<or> is_lower c \<or> c \<in> {CHR ''-'', CHR ''.'', CHR '':''}"

definition zone_ok :: "string \<Rightarrow> bool" where
  "zone_ok z \<longleftrightarrow> z = [] \<or> (tl z \<noteq> [] \<and> list_all zone_char (tl z))"

definition parse_ipv6 :: "string \<Rightarrow> 128 word option" where
  "parse_ipv6 s =
     (let core = takeWhile (\<lambda>c. c \<noteq> CHR ''%'') s; zone = dropWhile (\<lambda>c. c \<noteq> CHR ''%'') s
      in if \<not> zone_ok zone then None
         else case split_dcolon core of
           None \<Rightarrow> (case v6_side True core of None \<Rightarrow> None
              | Some gs \<Rightarrow> if length gs = 8 then Some (word_of_groups gs) else None)
         | Some (l, r) \<Rightarrow>
             (case (v6_side False l, v6_side True r) of
                (Some ls, Some rs) \<Rightarrow>
                  if length ls + length rs \<le> 7
                  then Some (word_of_groups (ls @ replicate (8 - length ls - length rs) 0 @ rs))
                  else None
              | _ \<Rightarrow> None))"

definition is_ip :: "string \<Rightarrow> nat" where
  "is_ip s = (if parse_ipv4 s \<noteq> None then 4 else if parse_ipv6 s \<noteq> None then 6 else 0)"

datatype family = Ipv4 | Ipv6

fun parse_as :: "family \<Rightarrow> string \<Rightarrow> ip_address option" where
  "parse_as Ipv4 s = map_option V4 (parse_ipv4 s)"
| "parse_as Ipv6 s = map_option V6 (parse_ipv6 s)"

subsection \<open>The block list\<close>

datatype list_rule = AddressRule ip_address | SubnetRule ip_address nat

definition v4_mapped :: "32 word \<Rightarrow> 128 word" where
  "v4_mapped a = push_bit 32 0xFFFF OR ucast a"

fun as_v6 :: "ip_address \<Rightarrow> 128 word" where
  "as_v6 (V4 a) = v4_mapped a"
| "as_v6 (V6 a) = a"

fun v6_bits :: "ip_address \<Rightarrow> nat \<Rightarrow> nat" where
  "v6_bits (V4 _) n = 96 + n"
| "v6_bits (V6 _) n = n"

definition same_network :: "nat \<Rightarrow> 128 word \<Rightarrow> 128 word \<Rightarrow> bool" where
  "same_network bits a b \<longleftrightarrow> drop_bit (128 - bits) a = drop_bit (128 - bits) b"

fun rule_matches :: "ip_address \<Rightarrow> list_rule \<Rightarrow> bool" where
  "rule_matches ip (AddressRule a) = (as_v6 ip = as_v6 a)"
| "rule_matches ip (SubnetRule net bits) = same_network (v6_bits net bits) (as_v6 ip) (as_v6 net)"

type_synonym block_list = "list_rule list"

definition list_check :: "block_list \<Rightarrow> string \<Rightarrow> family \<Rightarrow> bool" where
  "list_check rules ip fam =
     (case parse_as fam ip of
        None \<Rightarrow> False
      | Some a \<Rightarrow> list_ex (rule_matches a) rules)"

subsection \<open>\<open>buildIpList\<close>\<close>

definition invalid_entry_message :: "string \<Rightarrow> string" where
  "invalid_entry_message item =
     ''Invalid IP list entry \"'' @ item @ ''\"; expected an IP or CIDR range''"

definition invalid_prefix_message :: "string \<Rightarrow> string" where
  "invalid_prefix_message item = ''Invalid CIDR prefix in IP list entry \"'' @ item @ ''\"''"

fun max_bits :: "family \<Rightarrow> int" where
  "max_bits Ipv4 = 32"
| "max_bits Ipv6 = 128"

definition entry_family :: "string \<Rightarrow> family option" where
  "entry_family address =
     (if is_ip address = 4 then Some Ipv4 else if is_ip address = 6 then Some Ipv6 else None)"

definition prefix_bits :: "family \<Rightarrow> string \<Rightarrow> nat option" where
  "prefix_bits fam text =
     (case js_number_of text of
        Decimal m e \<Rightarrow>
          if \<not> decimal_integer m e \<or> decimal_int m e < 0 \<or> max_bits fam < decimal_int m e then None
          else Some (nat (decimal_int m e))
      | _ \<Rightarrow> None)"

definition item_rule :: "string \<Rightarrow> list_rule result" where
  "item_rule item =
     (let parts = split_on (CHR ''/'') item; address = hd parts; others = tl parts
      in case entry_family address of
           None \<Rightarrow> Inl (Error (invalid_entry_message item))
         | Some fam \<Rightarrow>
             if 1 < length others then Inl (Error (invalid_entry_message item))
             else (case others of
                [] \<Rightarrow> Inr (AddressRule (the (parse_as fam address)))
              | prefix_text # _ \<Rightarrow>
                  (case prefix_bits fam prefix_text of
                     None \<Rightarrow> Inl (Error (invalid_prefix_message item))
                   | Some bits \<Rightarrow> Inr (SubnetRule (the (parse_as fam address)) bits))))"

fun build_rules :: "string list \<Rightarrow> block_list \<Rightarrow> block_list result" where
  "build_rules [] rules = Inr rules"
| "build_rules (item # items) rules =
     bind_result (item_rule item) (\<lambda>rule. build_rules items (rules @ [rule]))"

definition list_items :: "string \<Rightarrow> string list" where
  "list_items entries = filter (\<lambda>s. s \<noteq> []) (map js_trim (split_on (CHR '','') entries))"

definition build_ip_list :: "string \<Rightarrow> block_list option result" where
  "build_ip_list entries =
     (let items = list_items entries
      in if items = [] then Inr None else bind_result (build_rules items []) (\<lambda>rules. Inr (Some rules)))"

definition dotted_digits :: "string \<Rightarrow> bool" where
  "dotted_digits s \<longleftrightarrow> (let ps = split_on (CHR ''.'') s
     in length ps = 4 \<and> list_all (\<lambda>p. p \<noteq> [] \<and> list_all is_digit p) ps)"

definition normalize_ip :: "string \<Rightarrow> string" where
  "normalize_ip ip =
     (let rest = drop 7 ip
      in if prefix_ci ''::ffff:'' ip \<and> dotted_digits rest \<and> is_ip rest = 4 then rest else ip)"

subsection \<open>The filter\<close>

record ip_filter =
  filter_allow :: "block_list option"
  filter_deny :: "block_list option"

text \<open>\<open>None\<close>: both lists are empty and no hook is added.\<close>

definition ip_filter_plugin :: "gateway_config \<Rightarrow> ip_filter option result" where
  "ip_filter_plugin config =
     bind_result (build_ip_list (IP_ALLOW_LIST config)) (\<lambda>allow.
     bind_result (build_ip_list (IP_DENY_LIST config)) (\<lambda>deny.
       Inr (if allow = None \<and> deny = None then None
            else Some \<lparr>filter_allow = allow, filter_deny = deny\<rparr>)))"

definition ip_blocked :: "ip_filter \<Rightarrow> string \<Rightarrow> bool" where
  "ip_blocked f raw =
     (let ip = normalize_ip raw; fam = (if is_ip ip = 6 then Ipv6 else Ipv4)
      in (case filter_deny f of None \<Rightarrow> False | Some rules \<Rightarrow> list_check rules ip fam)
        \<or> (case filter_allow f of None \<Rightarrow> False | Some rules \<Rightarrow> \<not> list_check rules ip fam))"

definition ip_filter_hook :: "ip_filter \<Rightarrow> request \<Rightarrow> reply \<Rightarrow> request \<times> reply" where
  "ip_filter_hook f req reply =
     (if route_ip_filter (req_route req) = Some False then (req, reply)
      else if ip_blocked f (req_ip req) then
        (log_req LogWarn [(''ip'', LogText (normalize_ip (req_ip req)))] ''request blocked by ip filter'' req,
         reply_send (ErrorPayload (error_body_of (req_id req) (error_message MsgForbidden)))
           (reply_code (http_status StForbidden) reply))
      else (req, reply))"

subsection \<open>Networks as arithmetic\<close>

lemma uint_v4_mapped: "uint (v4_mapped a) = 65535 * 2 ^ 32 + uint a"
proof -
  have "push_bit 32 (0xFFFF :: 128 word) AND ucast a = 0"
    by (rule bit_word_eqI, unfold bit_and_iff bit_push_bit_iff bit_unsigned_iff)
      (auto dest: bit_imp_le_length)
  then have "v4_mapped a = push_bit 32 0xFFFF + ucast a"
    unfolding v4_mapped_def by (simp add: disjunctive_add_eq_or)
  moreover have "push_bit 32 (0xFFFF :: 128 word) = word_of_int (65535 * 2 ^ 32)"
    by (simp add: push_bit_eq_mult)
  moreover have "ucast a = (word_of_int (uint a) :: 128 word)" by simp
  ultimately have "v4_mapped a = word_of_int (65535 * 2 ^ 32 + uint a)"
    by (simp only: of_int_add)
  moreover have "uint a < 2 ^ 32" "0 \<le> uint a" using uint_lt2p [of a] by simp_all
  then have "(65535 * 2 ^ 32 + uint a) mod 2 ^ 128 = 65535 * 2 ^ 32 + uint a"
    by (intro mod_pos_pos_trivial) simp_all
  ultimately show ?thesis
    by (simp only: uint_word_of_int len_num1 len_bit0 len_bit1) simp
qed

lemma v4_mapped_inj [simp]: "v4_mapped a = v4_mapped b \<longleftrightarrow> a = b"
  using uint_v4_mapped [of a] uint_v4_mapped [of b] by (metis add_left_cancel word_uint_eqI)

lemma uint_drop: "uint (drop_bit n (a :: 'a::len word)) = uint a div 2 ^ n"
  by (subst unsigned_drop_bit_eq) (simp only: bintr_uint [OF order_refl] drop_bit_eq_div)

lemma same_network_div:
  "same_network bits a b \<longleftrightarrow> uint a div 2 ^ (128 - bits) = uint b div 2 ^ (128 - bits)"
  unfolding same_network_def by (metis uint_drop word_uint_eqI)

lemma v4_network:
  assumes "bits \<le> 32"
  shows "same_network (96 + bits) (v4_mapped a) (v4_mapped b)
    \<longleftrightarrow> uint a div 2 ^ (32 - bits) = uint b div 2 ^ (32 - bits)"
proof -
  have k: "128 - (96 + bits) = 32 - bits" by simp
  have p: "(2 :: int) ^ 32 = 2 ^ bits * 2 ^ (32 - bits)"
    using assms by (simp flip: power_add)
  have d: "(65535 * 2 ^ 32 + x) div 2 ^ (32 - bits) = 65535 * 2 ^ bits + x div 2 ^ (32 - bits)" for x :: int
    unfolding p by (simp add: mult.assoc [symmetric])
  show ?thesis unfolding same_network_div k uint_v4_mapped d by simp
qed

lemma in_mapped_range:
  "(\<exists>a. x = v4_mapped a) \<longleftrightarrow> uint x div 2 ^ 32 = 65535"
proof
  assume "\<exists>a. x = v4_mapped a"
  then obtain a where x: "x = v4_mapped a" by blast
  have "uint a < 2 ^ 32" "0 \<le> uint a" using uint_lt2p [of a] by simp_all
  then have "uint a div 2 ^ 32 = 0" by simp
  then show "uint x div 2 ^ 32 = 65535"
    using x div_mult_self3 [of "2 ^ 32 :: int" 65535 "uint a"] by (simp only: uint_v4_mapped) simp
next
  assume h: "uint x div 2 ^ 32 = 65535"
  let ?a = "word_of_int (uint x mod 2 ^ 32) :: 32 word"
  have "uint ?a = uint x mod 2 ^ 32" by (simp add: uint_word_of_int)
  moreover have "uint x = 65535 * 2 ^ 32 + uint x mod 2 ^ 32"
    using h div_mult_mod_eq [of "uint x" "2 ^ 32"] by simp
  ultimately have "uint (v4_mapped ?a) = uint x" by (simp only: uint_v4_mapped)
  then have "x = v4_mapped ?a" by (simp only: word_uint_eq_iff)
  then show "\<exists>a. x = v4_mapped a" ..
qed

subsection \<open>IPv4-mapped addresses\<close>

lemma cc_js_lower:
  "cc (js_lower c) = (if is_upper c \<or> 192 \<le> cc c \<and> cc c \<le> 222 \<and> cc c \<noteq> 215 then cc c + 32 else cc c)"
  by (auto simp: js_lower_def is_upper_def)

lemma cc_eq_iff: "c = d \<longleftrightarrow> cc c = cc d"
  by simp

lemma js_lower_colon: "js_lower c = CHR '':'' \<longleftrightarrow> c = CHR '':''"
  unfolding cc_eq_iff cc_js_lower is_upper_def by auto

lemma js_lower_f: "js_lower c = CHR ''f'' \<longleftrightarrow> c = CHR ''f'' \<or> c = CHR ''F''"
  unfolding cc_eq_iff cc_js_lower is_upper_def by auto

lemma length_seven:
  "length xs = 7 \<Longrightarrow> \<exists>x1 x2 a b c d x3. xs = [x1, x2, a, b, c, d, x3]"
  by (auto simp: length_Suc_conv numeral_eq_Suc)

lemma radix_f: "c \<in> {CHR ''f'', CHR ''F''} \<Longrightarrow> radix_digit c = 15 \<and> is_hex c"
  by (auto simp: radix_digit_def is_hex_def is_hex_lower_def is_digit_def)

lemma mapped_prefix:
  assumes "prefix_ci ''::ffff:'' ip"
  obtains a b c d where "ip = '':'' @ '':'' @ [a, b, c, d] @ '':'' @ drop 7 ip"
    and "{a, b, c, d} \<subseteq> {CHR ''f'', CHR ''F''}"
proof -
  have m: "map js_lower (take 7 ip) = ''::ffff:''"
  proof -
    have "length ''::ffff:'' = 7" by simp
    with assms show ?thesis unfolding prefix_ci_def by (simp only:)
  qed
  then have "length (map js_lower (take 7 ip)) = length ''::ffff:''" by (simp only:)
  then have "length (take 7 ip) = 7" unfolding length_map by simp
  then obtain x1 x2 a b c d x3 where t: "take 7 ip = [x1, x2, a, b, c, d, x3]"
    using length_seven by metis
  with m have "x1 = CHR '':''" "x2 = CHR '':''" "x3 = CHR '':''"
    "{a, b, c, d} \<subseteq> {CHR ''f'', CHR ''F''}"
    by (simp_all add: js_lower_colon js_lower_f)
  with t append_take_drop_id [of 7 ip] show thesis
    by (intro that [of a b c d]) simp_all
qed

lemma v4_segment_chars:
  "v4_segment s = Some n \<Longrightarrow> s \<noteq> [] \<and> list_all is_digit s \<and> 0 \<le> n \<and> n \<le> 255"
  by (auto simp: v4_segment_def split: if_splits)

lemma parse_ipv4_parts:
  assumes "parse_ipv4 s = Some w"
  obtains p1 p2 p3 p4 where "split_on (CHR ''.'') s = [p1, p2, p3, p4]"
    and "\<forall>p \<in> {p1, p2, p3, p4}. p \<noteq> [] \<and> list_all is_digit p"
proof -
  from assms obtain a b c d where
    m: "map v4_segment (split_on (CHR ''.'') s) = [Some a, Some b, Some c, Some d]"
    by (auto simp: parse_ipv4_def split: list.splits option.splits)
  then obtain p1 p2 p3 p4 where p: "split_on (CHR ''.'') s = [p1, p2, p3, p4]"
    by (auto simp: map_eq_Cons_conv)
  with m show thesis by (auto intro!: that dest!: v4_segment_chars)
qed

lemma parse_ipv4_text:
  assumes "parse_ipv4 s = Some w"
  shows "set s \<subseteq> {c. is_digit c} \<union> {CHR ''.''}" and "CHR ''.'' \<in> set s" and "dotted_digits s"
proof -
  obtain p1 p2 p3 p4 where p: "split_on (CHR ''.'') s = [p1, p2, p3, p4]"
    "\<forall>p \<in> {p1, p2, p3, p4}. p \<noteq> [] \<and> list_all is_digit p"
    by (rule parse_ipv4_parts [OF assms])
  then have s: "s = p1 @ ''.'' @ p2 @ ''.'' @ p3 @ ''.'' @ p4"
    using join_split_on [of "CHR ''.''" s] by simp
  from p(2) show "set s \<subseteq> {c. is_digit c} \<union> {CHR ''.''}" "CHR ''.'' \<in> set s"
    unfolding s by (auto simp: list_all_iff)
  from p show "dotted_digits s" by (simp add: dotted_digits_def)
qed

lemma dot_not_hex: "CHR ''.'' \<in> set s \<Longrightarrow> hex_group s = None"
  by (force simp: hex_group_def list_all_iff is_hex_def is_hex_lower_def is_digit_def
      dest: bspec [of _ _ "CHR ''.''"])

lemma v6_of_v4:
  assumes "parse_ipv4 s = Some w" and "prefix_ci ''::ffff:'' ip" and "drop 7 ip = s"
  shows "parse_ipv6 ip = Some (v4_mapped w)" and "parse_ipv4 ip = None"
proof -
  obtain a b c d where ip: "ip = '':'' @ '':'' @ [a, b, c, d] @ '':'' @ s"
    and f: "{a, b, c, d} \<subseteq> {CHR ''f'', CHR ''F''}"
    using mapped_prefix [OF assms(2)] unfolding assms(3) by blast
  note chars = parse_ipv4_text [OF assms(1)]
  have ns: "CHR ''%'' \<notin> set s" "CHR '':'' \<notin> set s"
    using chars(1) by (auto simp: is_digit_def)
  have "CHR ''%'' \<notin> set ip" using ns f unfolding ip by auto
  then have core: "takeWhile (\<lambda>c. c \<noteq> CHR ''%'') ip = ip" "dropWhile (\<lambda>c. c \<noteq> CHR ''%'') ip = []"
    by (auto simp: takeWhile_eq_all_conv)
  have dc: "split_dcolon ip = Some ([], [a, b, c, d] @ CHR '':'' # s)"
    unfolding ip by simp
  have "split_on (CHR '':'') ([a, b, c, d] @ CHR '':'' # s) = [[a, b, c, d], s]"
    using f ns(2) by (subst split_on_append) (auto simp: split_on_no_sep)
  moreover have "hex_group [a, b, c, d] = Some 65535"
    using f by (simp add: hex_group_def hex_number_def radix_f)
  ultimately have side: "v6_side True ([a, b, c, d] @ CHR '':'' # s)
      = Some [65535, uint w div 65536, uint w mod 65536]"
    using dot_not_hex [OF chars(2)] assms(1) by (simp add: v6_side_def)
  have "word_of_groups (replicate 5 0 @ [65535, uint w div 65536, uint w mod 65536])
      = word_of_int (65535 * 2 ^ 32 + uint w)"
    by (simp add: word_of_groups_def numeral_eq_Suc)
  also have "\<dots> = v4_mapped w" by (metis uint_v4_mapped word_of_int_uint)
  finally have word: "word_of_groups (replicate 5 0 @ [65535, uint w div 65536, uint w mod 65536])
      = v4_mapped w" .
  have left: "v6_side False [] = Some []" by (simp add: v6_side_def)
  have "parse_ipv6 ip = Some (word_of_groups
      (replicate (8 - length [65535, uint w div 65536, uint w mod 65536]) 0
        @ [65535, uint w div 65536, uint w mod 65536]))"
    unfolding parse_ipv6_def core dc side left Let_def option.case prod.case
    by (simp del: replicate.simps add: zone_ok_def)
  also have "\<dots> = Some (v4_mapped w)" unfolding word [symmetric] by simp
  finally show "parse_ipv6 ip = Some (v4_mapped w)" .
  show "parse_ipv4 ip = None"
  proof (rule ccontr)
    assume "parse_ipv4 ip \<noteq> None"
    then obtain x where "parse_ipv4 ip = Some x" by blast
    from parse_ipv4_text(1) [OF this] show False unfolding ip by (simp add: is_digit_def)
  qed
qed


definition client_address :: "string \<Rightarrow> ip_address option" where
  "client_address s =
     (case parse_ipv4 s of Some w \<Rightarrow> Some (V4 w) | None \<Rightarrow> map_option V6 (parse_ipv6 s))"

definition ip_family :: "string \<Rightarrow> family" where
  "ip_family ip = (if is_ip ip = 6 then Ipv6 else Ipv4)"

lemma parse_family: "parse_as (ip_family ip) ip = client_address ip"
  by (auto simp: ip_family_def is_ip_def client_address_def split: option.split)

lemma normalize_cases:
  "normalize_ip ip = ip \<or>
    (\<exists>w. parse_ipv4 (normalize_ip ip) = Some w \<and> parse_ipv4 ip = None
       \<and> parse_ipv6 ip = Some (v4_mapped w))"
proof (cases "prefix_ci ''::ffff:'' ip \<and> dotted_digits (drop 7 ip) \<and> is_ip (drop 7 ip) = 4")
  case True
  then obtain w where w: "parse_ipv4 (drop 7 ip) = Some w"
    by (auto simp: is_ip_def split: if_splits)
  with v6_of_v4 [OF w] True show ?thesis by (simp add: normalize_ip_def Let_def)
qed (auto simp: normalize_ip_def Let_def)

lemma normalize_address:
  "map_option as_v6 (client_address (normalize_ip ip)) = map_option as_v6 (client_address ip)"
  using normalize_cases [of ip]
proof
  assume "normalize_ip ip = ip"
  then show ?thesis by (simp only:)
qed (auto simp: client_address_def)

lemma rule_matches_v6: "as_v6 a = as_v6 b \<Longrightarrow> rule_matches a r = rule_matches b r"
  by (cases r) auto

lemma list_check_normalized:
  "list_check rules (normalize_ip raw) (ip_family (normalize_ip raw))
    = (case client_address raw of None \<Rightarrow> False | Some a \<Rightarrow> list_ex (rule_matches a) rules)"
proof (cases "client_address raw")
  case None
  then show ?thesis using normalize_address [of raw] by (simp add: list_check_def parse_family)
next
  case (Some a)
  then obtain b where b: "client_address (normalize_ip raw) = Some b" "as_v6 b = as_v6 a"
    using normalize_address [of raw] by auto
  have "rule_matches b = rule_matches a"
    by (rule ext) (rule rule_matches_v6 [OF b(2)])
  with Some b show ?thesis by (simp add: list_check_def parse_family)
qed

subsection \<open>What a list holds\<close>

lemma build_rules_spec:
  "build_rules items rules = Inr rules' \<longleftrightarrow>
     (\<exists>new. map item_rule items = map Inr new \<and> rules' = rules @ new)"
  by (induction items arbitrary: rules) (auto simp: Cons_eq_map_conv)

definition listed :: "string \<Rightarrow> ip_address \<Rightarrow> bool" where
  "listed entries a \<longleftrightarrow>
     (\<exists>item \<in> set (list_items entries). \<exists>rule. item_rule item = Inr rule \<and> rule_matches a rule)"

lemma build_list_spec:
  assumes "build_ip_list entries = Inr l"
  shows "(l = None \<longleftrightarrow> list_items entries = [])
    \<and> (\<forall>rules. l = Some rules \<longrightarrow> (\<forall>a. list_ex (rule_matches a) rules \<longleftrightarrow> listed entries a))"
proof (cases "list_items entries = []")
  case True
  then show ?thesis using assms by (simp add: build_ip_list_def)
next
  case False
  with assms obtain new where m: "map item_rule (list_items entries) = map Inr new" "l = Some new"
    by (auto simp: build_ip_list_def build_rules_spec)
  have s: "item_rule ` set (list_items entries) = Inr ` set new"
    using arg_cong [OF m(1), of set] by simp
  have "list_ex (rule_matches a) new \<longleftrightarrow> listed entries a" for a
  proof -
    have "listed entries a
        \<longleftrightarrow> (\<exists>x \<in> item_rule ` set (list_items entries). \<exists>rule. x = Inr rule \<and> rule_matches a rule)"
      unfolding listed_def by blast
    then show ?thesis unfolding s list_ex_iff by blast
  qed
  with False m(2) show ?thesis by simp
qed


lemma build_rules_error:
  "build_rules items rules = Inl e \<Longrightarrow> \<exists>item \<in> set items. item_rule item = Inl e"
  by (induction items arbitrary: rules) (auto simp: bind_result_Inl_iff)

lemma build_rules_ok:
  "\<forall>item \<in> set items. \<exists>rule. item_rule item = Inr rule \<Longrightarrow> \<exists>rules'. build_rules items rules = Inr rules'"
  by (induction items arbitrary: rules) auto

text \<open>The entries \<open>buildIpList\<close> accepts: an address, or an address, one slash and a prefix length.\<close>

definition valid_entry :: "string \<Rightarrow> bool" where
  "valid_entry item \<longleftrightarrow>
     (\<exists>a fam. entry_family a = Some fam \<and>
        (split_on (CHR ''/'') item = [a]
         \<or> (\<exists>p n. split_on (CHR ''/'') item = [a, p] \<and> prefix_bits fam p = Some n)))"

lemma item_rule_ok_iff: "(\<exists>rule. item_rule item = Inr rule) \<longleftrightarrow> valid_entry item"
proof -
  obtain a others where s: "split_on (CHR ''/'') item = a # others"
    by (cases "split_on (CHR ''/'') item") auto
  show ?thesis
    unfolding item_rule_def valid_entry_def s Let_def
    by (cases others rule: list.exhaust; cases "tl others")
      (auto split: option.split)
qed

text \<open>A typo never changes what is blocked silently: an IP list boots exactly when every one of its
  entries is an address, optionally with one slash and an integer prefix length in range, and then
  the filter holds precisely those networks. Otherwise the boot fails on a wrong entry.\<close>
theorem ip_list_boots_iff:
  "(case build_ip_list entries of
      Inl e \<Rightarrow> \<exists>item \<in> set (list_items entries). \<not> valid_entry item \<and> item_rule item = Inl e
    | Inr None \<Rightarrow> list_items entries = []
    | Inr (Some rules) \<Rightarrow> list_items entries \<noteq> [] \<and> list_all valid_entry (list_items entries)
        \<and> (\<forall>a. list_ex (rule_matches a) rules \<longleftrightarrow> listed entries a))"
proof (cases "build_ip_list entries")
  case (Inl e)
  then have "build_rules (list_items entries) [] = Inl e"
    by (auto simp: build_ip_list_def Let_def bind_result_Inl_iff split: if_splits)
  from build_rules_error [OF this] Inl show ?thesis
    by (force simp: item_rule_ok_iff [symmetric])
next
  case (Inr l)
  show ?thesis
  proof (cases l)
    case None
    then show ?thesis using Inr build_list_spec [OF Inr] by simp
  next
    case (Some rules)
    with Inr obtain new where m: "map item_rule (list_items entries) = map Inr new"
      by (auto simp: build_ip_list_def Let_def build_rules_spec split: if_splits)
    have "\<exists>rule. item_rule item = Inr rule" if "item \<in> set (list_items entries)" for item
      using that arg_cong [OF m, of set] by (metis imageE imageI set_map)
    then show ?thesis using Inr Some build_list_spec [OF Inr]
      by (simp add: list_all_iff item_rule_ok_iff)
  qed
qed

lemma v4_range_mapped:
  assumes "bits \<le> 32" and "rule_matches (V6 x) (SubnetRule (V4 n) bits)"
  shows "uint x div 2 ^ 32 = 65535"
proof -
  from assms(2) have "uint x div 2 ^ (32 - bits) = uint (v4_mapped n) div 2 ^ (32 - bits)"
    by (simp add: same_network_div)
  then have "uint x div 2 ^ (32 - bits) div 2 ^ bits
      = uint (v4_mapped n) div 2 ^ (32 - bits) div 2 ^ bits"
    by simp
  moreover have "(2 :: int) ^ (32 - bits) * 2 ^ bits = 2 ^ 32"
    using assms(1) by (simp flip: power_add)
  ultimately have "uint x div 2 ^ 32 = uint (v4_mapped n) div 2 ^ 32"
    by (simp only: zdiv_zmult2_eq [symmetric] zero_le_power zero_le_numeral)
  also have "\<dots> = 65535" using in_mapped_range by blast
  finally show ?thesis .
qed

text \<open>CIDR arithmetic: an IPv4 range \<open>n/bits\<close> holds exactly the addresses that agree with \<open>n\<close> in
  the leading \<open>bits\<close> bits, whether the client appears as IPv4 or as IPv4-mapped IPv6, and no other
  IPv6 address; an IPv6 range compares the leading bits of 128-bit values.\<close>
theorem cidr_membership:
  assumes "bits \<le> 32"
  shows "(rule_matches (V4 a) (SubnetRule (V4 n) bits)
      \<longleftrightarrow> uint a div 2 ^ (32 - bits) = uint n div 2 ^ (32 - bits))
    \<and> (rule_matches (V6 (v4_mapped a)) (SubnetRule (V4 n) bits)
      \<longleftrightarrow> rule_matches (V4 a) (SubnetRule (V4 n) bits))
    \<and> (rule_matches (V6 x) (SubnetRule (V4 n) bits) \<longrightarrow> uint x div 2 ^ 32 = 65535)
    \<and> (rule_matches (V6 x) (SubnetRule (V6 y) w)
      \<longleftrightarrow> uint x div 2 ^ (128 - w) = uint y div 2 ^ (128 - w))"
proof (intro conjI impI)
  assume "rule_matches (V6 x) (SubnetRule (V4 n) bits)"
  then show "uint x div 2 ^ 32 = 65535" by (rule v4_range_mapped [OF assms])
qed (simp_all add: v4_network [OF assms], simp add: same_network_div)

theorem cidr_membership_witness:
  "rule_matches (V4 167838211) (SubnetRule (V4 167772160) 8)
    \<and> \<not> rule_matches (V4 184549377) (SubnetRule (V4 167772160) 8)"
  using cidr_membership [of 8 167838211 167772160 0 0 0] cidr_membership [of 8 184549377 167772160 0 0 0]
  by simp

text \<open>C29. The filter decides by the lists as configured: a client on the deny list, or off a non-empty
  allow list, gets the uniform 403; everyone else, and every exempt route, passes untouched. Deny
  wins, and an IPv4 client gets the same verdict in every spelling of its address. An address that
  does not read as one is on no list: only a non-empty allow list keeps it out.\<close>
theorem ip_filter_decision:
  fixes req :: request
  assumes "ip_filter_plugin config = Inr (Some f)" and "sent reply = None"
  defines "blocked \<equiv> route_ip_filter (req_route req) \<noteq> Some False
    \<and> (case client_address (req_ip req) of
         None \<Rightarrow> list_items (IP_ALLOW_LIST config) \<noteq> []
       | Some a \<Rightarrow> listed (IP_DENY_LIST config) a
           \<or> list_items (IP_ALLOW_LIST config) \<noteq> [] \<and> \<not> listed (IP_ALLOW_LIST config) a)"
  shows "\<exists>req' reply'. ip_filter_hook f req reply = (req', reply')
    \<and> (if blocked then rejected_with 403 ''Forbidden'' req reply' else req' = req \<and> reply' = reply)"
proof -
  from assms(1) obtain allow deny where
    b: "build_ip_list (IP_ALLOW_LIST config) = Inr allow" "build_ip_list (IP_DENY_LIST config) = Inr deny"
    and f: "f = \<lparr>filter_allow = allow, filter_deny = deny\<rparr>"
    by (auto simp: ip_filter_plugin_def split: if_splits)
  note check = list_check_normalized [of _ "req_ip req", unfolded ip_family_def]
  have "ip_blocked f (req_ip req) = (case client_address (req_ip req) of
         None \<Rightarrow> list_items (IP_ALLOW_LIST config) \<noteq> []
       | Some a \<Rightarrow> listed (IP_DENY_LIST config) a
           \<or> list_items (IP_ALLOW_LIST config) \<noteq> [] \<and> \<not> listed (IP_ALLOW_LIST config) a)"
    unfolding ip_blocked_def Let_def f ip_filter.select_convs check
    using build_list_spec [OF b(1)] build_list_spec [OF b(2)]
    by (cases allow; cases deny; cases "client_address (req_ip req)") (auto simp: listed_def)
  then show ?thesis
    unfolding ip_filter_hook_def blocked_def using assms(2) by (simp add: rejected_with_def)
qed

subsection \<open>A configured filter\<close>

definition filter_config :: gateway_config where
  "filter_config = default_config\<lparr>IP_ALLOW_LIST := ''203.0.113.0/24, 2001:db8::/32'',
     IP_DENY_LIST := ''203.0.113.66''\<rparr>"

definition sample_filter :: ip_filter where
  "sample_filter = \<lparr>filter_allow = Some [SubnetRule (V4 3405803776) 24,
       SubnetRule (V6 42540766411282592856903984951653826560) 32],
     filter_deny = Some [AddressRule (V4 3405803842)]\<rparr>"

lemma sample_filter_booted: "ip_filter_plugin filter_config = Inr (Some sample_filter)"
proof -
  have c: "IP_ALLOW_LIST filter_config = ''203.0.113.0/24, 2001:db8::/32''"
    "IP_DENY_LIST filter_config = ''203.0.113.66''"
    by (simp_all add: filter_config_def)
  have "build_ip_list ''203.0.113.0/24, 2001:db8::/32'' = Inr (filter_allow sample_filter)"
    "build_ip_list ''203.0.113.66'' = Inr (filter_deny sample_filter)"
    by code_simp+
  then show ?thesis unfolding ip_filter_plugin_def c by (simp add: sample_filter_def)
qed

definition client_request :: "string \<Rightarrow> request" where
  "client_request ip = (sample_request ''GET'' [])\<lparr>req_ip := ip\<rparr>"

theorem ip_filter_decision_witness:
  "\<exists>req' reply'. ip_filter_hook sample_filter (client_request ''::ffff:203.0.113.66'') fresh_reply
      = (req', reply')
    \<and> rejected_with 403 ''Forbidden'' (client_request ''::ffff:203.0.113.66'') reply'"
proof -
  have "client_address ''::ffff:203.0.113.66'' = Some (V6 (v4_mapped 3405803842))" by code_simp
  then have a: "client_address (req_ip (client_request ''::ffff:203.0.113.66''))
      = Some (V6 (v4_mapped 3405803842))"
    by (simp add: client_request_def)
  have i: "list_items ''203.0.113.66'' = [''203.0.113.66'']"
    "item_rule ''203.0.113.66'' = Inr (AddressRule (V4 3405803842))"
    by code_simp+
  have c: "IP_DENY_LIST filter_config = ''203.0.113.66''" by (simp add: filter_config_def)
  have "listed (IP_DENY_LIST filter_config) (V6 (v4_mapped 3405803842))"
    unfolding c listed_def i(1) by (simp add: i(2))
  moreover have "route_ip_filter (req_route (client_request ''::ffff:203.0.113.66'')) \<noteq> Some False"
    by (simp add: client_request_def sample_request_def)
  ultimately show ?thesis
    using ip_filter_decision [OF sample_filter_booted fresh_unsent,
        of "client_request ''::ffff:203.0.113.66''"] a by simp
qed

text \<open>With a deny list alone, a client whose address does not read passes.\<close>

lemma unreadable_address_passes:
  "\<not> ip_blocked \<lparr>filter_allow = None, filter_deny = Some rules\<rparr> ''unknown''"
  "ip_blocked \<lparr>filter_allow = Some rules, filter_deny = deny\<rparr> ''unknown''"
proof -
  have "client_address ''unknown'' = None" by code_simp
  then show "\<not> ip_blocked \<lparr>filter_allow = None, filter_deny = Some rules\<rparr> ''unknown''"
    "ip_blocked \<lparr>filter_allow = Some rules, filter_deny = deny\<rparr> ''unknown''"
    unfolding ip_blocked_def Let_def ip_family_def [symmetric] list_check_normalized by simp_all
qed

text \<open>
  An empty prefix length reads as the number zero, so an entry with a trailing slash is accepted and
  holds every IPv4 address.
\<close>

lemma empty_prefix_holds_all:
  "build_ip_list ''10.0.0.0/'' = Inr (Some [SubnetRule (V4 167772160) 0])"
  "rule_matches (V4 a) (SubnetRule (V4 167772160) 0)"
proof -
  show "build_ip_list ''10.0.0.0/'' = Inr (Some [SubnetRule (V4 167772160) 0])" by code_simp
  have "uint a < 2 ^ 32" "0 \<le> uint a" using uint_lt2p [of a] by simp_all
  then show "rule_matches (V4 a) (SubnetRule (V4 167772160) 0)"
    using v4_network [of 0 a 167772160] by simp
qed

end
