(* ===== verification/ErrorHandler.thy ===== *)
theory ErrorHandler
  imports Http
begin

section \<open>Errors and unknown routes\<close>

text \<open>
  \<open>plugins/error-handler.ts\<close>: the status an error is answered with, the message the client sees
  and the two handlers. An error is what the code reads of it: its code, its message and the status
  its thrower attached.
\<close>

record fastify_error =
  err_code :: "string option"
  err_message :: string
  err_status :: "nat option"

definition upstream_timeout_codes :: "string set" where
  "upstream_timeout_codes =
     {''UND_ERR_HEADERS_TIMEOUT'', ''UND_ERR_BODY_TIMEOUT'', ''UND_ERR_CONNECT_TIMEOUT'', ''ETIMEDOUT''}"

definition upstream_connection_codes :: "string set" where
  "upstream_connection_codes =
     {''ECONNREFUSED'', ''ECONNRESET'', ''ENOTFOUND'', ''EAI_AGAIN'', ''EPIPE'', ''UND_ERR_SOCKET'',
      ''UND_ERR_CLOSED'', ''UND_ERR_DESTROYED''}"

definition reply_from_wrapper_code :: string where
  "reply_from_wrapper_code = ''FST_REPLY_FROM_INTERNAL_SERVER_ERROR''"

definition resolve_status :: "fastify_error \<Rightarrow> nat" where
  "resolve_status err =
     (case err_code err of
        Some code \<Rightarrow>
          if code \<noteq> [] \<and> code \<in> upstream_timeout_codes then http_status StGatewayTimeout
          else if code \<noteq> [] \<and> code \<in> upstream_connection_codes then http_status StBadGateway
          else if code = reply_from_wrapper_code then
            (if contains_ci ''timeout'' (err_message err) then http_status StGatewayTimeout
             else http_status StBadGateway)
          else (case err_status err of Some s \<Rightarrow> s | None \<Rightarrow> http_status StInternalServerError)
      | None \<Rightarrow> (case err_status err of Some s \<Rightarrow> s | None \<Rightarrow> http_status StInternalServerError))"

definition client_message :: "nat \<Rightarrow> fastify_error \<Rightarrow> string" where
  "client_message status err =
     (if status = http_status StGatewayTimeout then error_message MsgUpstreamTimeout
      else if status = http_status StBadGateway \<or> status = http_status StServiceUnavailable
      then error_message MsgUpstreamUnavailable
      else if http_status StInternalServerError \<le> status then error_message MsgInternalError
      else err_message err)"

definition handle_error :: "fastify_error \<Rightarrow> request \<Rightarrow> reply \<Rightarrow> request \<times> reply" where
  "handle_error err req reply =
     (let status = resolve_status err;
          req = (if http_status StInternalServerError \<le> status
            then log_req LogError [(''err'', LogThrown)] ''request failed'' req
            else log_req LogInfo [(''err'', LogObject [(''message'', LogText (err_message err)),
              (''statusCode'', LogInt (int status))])] ''request rejected'' req)
      in (req, reply_send (ErrorPayload (error_body_of (req_id req) (client_message status err)))
                 (reply_code status reply)))"

definition handle_not_found :: "request \<Rightarrow> reply \<Rightarrow> reply" where
  "handle_not_found req reply =
     reply_send (ErrorPayload (error_body_of (req_id req) (error_message MsgNotFound)))
       (reply_code (http_status StNotFound) reply)"

subsection \<open>Properties\<close>

lemma handle_error_reply:
  "sent reply = None \<Longrightarrow> handle_error err req reply = (req', reply') \<Longrightarrow>
     rejected_with (resolve_status err) (client_message (resolve_status err) err) req reply'
     \<and> reply_headers reply' = reply_headers reply"
  by (auto simp: handle_error_def rejected_with_def Let_def)

lemma server_error_messages:
  "500 \<le> status \<Longrightarrow> client_message status err
     \<in> {''Upstream timeout'', ''Upstream unavailable'', ''Internal gateway error''}"
  by (auto simp: client_message_def)

text \<open>C30. Internal details never reach the client: every 5xx answer is the uniform body with the request
  id and one of three fixed messages, chosen by the status alone, so two errors answered with the
  same 5xx status are indistinguishable to the client; the failure is logged at error level.\<close>
theorem server_errors_opaque:
  assumes "sent reply = None" and "500 \<le> resolve_status err"
    and "handle_error err req reply = (req', reply')"
  shows "(\<exists>msg \<in> {''Upstream timeout'', ''Upstream unavailable'', ''Internal gateway error''}.
      rejected_with (resolve_status err) msg req reply')
    \<and> (\<forall>other. resolve_status other = resolve_status err
        \<longrightarrow> snd (handle_error other req reply) = reply')
    \<and> req' = log_req LogError [(''err'', LogThrown)] ''request failed'' req"
proof (intro conjI allI impI)
  from handle_error_reply [OF assms(1,3)] server_error_messages [OF assms(2)]
  show "\<exists>msg \<in> {''Upstream timeout'', ''Upstream unavailable'', ''Internal gateway error''}.
      rejected_with (resolve_status err) msg req reply'"
    by blast
  fix other assume "resolve_status other = resolve_status err"
  moreover have "client_message (resolve_status err) other = client_message (resolve_status err) err"
    using assms(2) by (simp add: client_message_def)
  ultimately show "snd (handle_error other req reply) = reply'"
    using assms(2,3) by (auto simp: handle_error_def Let_def)
next
  show "req' = log_req LogError [(''err'', LogThrown)] ''request failed'' req"
    using assms(2,3) by (auto simp: handle_error_def Let_def)
qed

text \<open>Upstream failures map to gateway statuses, whatever status the thrown error carries: a timeout
  code gives 504, a connection code 502, the proxy library's wrapper 504 or 502 by its message; any
  other error keeps its own status, or is a 500. Only below 500 does the client see the message.\<close>
theorem error_statuses:
  "resolve_status err =
    (if err_code err \<in> Some ` upstream_timeout_codes then 504
     else if err_code err \<in> Some ` upstream_connection_codes then 502
     else if err_code err = Some ''FST_REPLY_FROM_INTERNAL_SERVER_ERROR'' then
       if contains_ci ''timeout'' (err_message err) then 504 else 502
     else case err_status err of Some s \<Rightarrow> s | None \<Rightarrow> 500)
   \<and> (client_message (resolve_status err) err = err_message err
      \<or> 500 \<le> resolve_status err)"
  by (auto simp: resolve_status_def client_message_def upstream_timeout_codes_def
      upstream_connection_codes_def reply_from_wrapper_code_def split: option.split)

theorem server_errors_opaque_witness:
  "rejected_with 504 ''Upstream timeout'' (sample_request ''GET'' [])
     (snd (handle_error \<lparr>err_code = Some ''ETIMEDOUT'', err_message = ''connect 10.0.0.7:5432'',
        err_status = Some 500\<rparr> (sample_request ''GET'' []) fresh_reply))"
proof -
  let ?err = "\<lparr>err_code = Some ''ETIMEDOUT'', err_message = ''connect 10.0.0.7:5432'',
    err_status = Some 500\<rparr>"
  let ?req = "sample_request ''GET'' []"
  obtain req' reply' where h: "handle_error ?err ?req fresh_reply = (req', reply')"
    by (cases "handle_error ?err ?req fresh_reply") auto
  have s: "resolve_status ?err = 504" by (simp add: resolve_status_def upstream_timeout_codes_def)
  then have "500 \<le> resolve_status ?err" by simp
  note o = server_errors_opaque [OF fresh_unsent this h]
  have "client_message 504 ?err = ''Upstream timeout''" by (simp add: client_message_def)
  with handle_error_reply [OF fresh_unsent h] o h s show ?thesis by simp
qed

text \<open>A thrown 5xx keeps its own status; only the message is replaced.\<close>

lemma thrown_status_kept:
  "resolve_status \<lparr>err_code = None, err_message = m, err_status = Some 507\<rparr> = 507"
  "client_message 507 err = ''Internal gateway error''"
  by (simp_all add: resolve_status_def client_message_def)

end
