(* ===== verification/Alerts.thy ===== *)
theory Alerts
  imports Http Json Config
begin

section \<open>Chat alerts\<close>

text \<open>
  \<open>plugins/alerts.ts\<close>, \<open>utils/alert-channels.util.ts\<close> and \<open>utils/alert-level.util.ts\<close>: the
  selection of the channel, the threshold, the throttle (whose only state is the time of the last
  alert) and the webhook call. \<open>alert_run\<close> is the \<open>onResponse\<close> hook over a sequence of responses.
  Retrying is done by \<open>p-retry\<close>, a parameter of \<open>deliver\<close>.
\<close>

subsection \<open>Channels and levels\<close>

record alert_channel =
  channel_name :: alert_channel_kind
  channel_url :: string
  channel_format :: "string \<Rightarrow> json"

definition slack_channel :: "string \<Rightarrow> alert_channel" where
  "slack_channel url = \<lparr>channel_name = ChannelSlack, channel_url = url,
     channel_format = (\<lambda>m. JObj [(jtext ''text'', JStr (js_codes m))])\<rparr>"

definition discord_channel :: "string \<Rightarrow> alert_channel" where
  "discord_channel url = \<lparr>channel_name = ChannelDiscord, channel_url = url,
     channel_format = (\<lambda>m. JObj [(jtext ''content'', JStr (js_codes m))])\<rparr>"

definition select_alert_channel :: "string \<Rightarrow> string \<Rightarrow> string \<Rightarrow> alert_channel option" where
  "select_alert_channel channel slack_url discord_url =
     (if channel = alert_channel_value ChannelSlack then
        (if slack_url \<noteq> [] then Some (slack_channel slack_url) else None)
      else if channel = alert_channel_value ChannelDiscord then
        (if discord_url \<noteq> [] then Some (discord_channel discord_url) else None)
      else None)"

definition alert_threshold :: "string \<Rightarrow> nat" where
  "alert_threshold level =
     (if level = alert_level_value AlertWarn then http_status StBadRequest
      else http_status StInternalServerError)"

definition severity_for_status :: "nat \<Rightarrow> string" where
  "severity_for_status status =
     (if http_status StInternalServerError \<le> status then ''error'' else ''warning'')"

subsection \<open>The plugin\<close>

record alerts =
  al_channel :: alert_channel
  al_throttle_ms :: int
  al_retries :: int
  al_threshold :: nat

definition no_channel_message :: string where
  "no_channel_message =
     ''ALERTS_ENABLED but ALERT_CHANNEL is not set to a channel with a configured webhook URL''"

definition alerts_boot :: "gateway_config \<Rightarrow> alert_channel \<Rightarrow> logger \<Rightarrow> logger" where
  "alerts_boot config channel app_log =
     log_at LogInfo [(''channel'', LogText (alert_channel_value (channel_name channel))), (''level'', LogText (ALERT_LEVEL config))]
       ''chat alerting enabled'' app_log"

definition alerts_plugin :: "gateway_config \<Rightarrow> logger \<Rightarrow> alerts option \<times> logger" where
  "alerts_plugin config app_log =
     (if \<not> ALERTS_ENABLED config then (None, app_log)
      else case select_alert_channel (ALERT_CHANNEL config) (SLACK_WEBHOOK_URL config)
          (DISCORD_WEBHOOK_URL config) of
        None \<Rightarrow> (None, log_at LogWarn [] no_channel_message app_log)
      | Some channel \<Rightarrow>
          (Some \<lparr>al_channel = channel, al_throttle_ms = ALERT_THROTTLE_MS config,
             al_retries = ALERT_RETRIES config, al_threshold = alert_threshold (ALERT_LEVEL config)\<rparr>,
           alerts_boot config channel app_log))"

definition alert_message :: "request \<Rightarrow> reply \<Rightarrow> string" where
  "alert_message req reply =
     (let severity = severity_for_status (status_code reply);
          icon = (if severity = ''error'' then '':rotating_light:'' else '':warning:'');
          route = (case route_url (req_route req) of Some url \<Rightarrow> url | None \<Rightarrow> req_url req)
      in icon @ '' fastify-gateway ['' @ severity @ '']: '' @ show_nat (status_code reply) @ '' on ''
         @ req_method req @ '' '' @ route @ '' (requestId '' @ req_id req @ '')'')"

text \<open>The hook: the new time of the last alert, and the message to deliver, if any.\<close>

definition alert_hook :: "alerts \<Rightarrow> int \<Rightarrow> int \<Rightarrow> request \<Rightarrow> reply \<Rightarrow> int \<times> string option" where
  "alert_hook al now last_sent req reply =
     (if status_code reply < al_threshold al then (last_sent, None)
      else if now - last_sent < al_throttle_ms al then (last_sent, None)
      else (now, Some (alert_message req reply)))"

subsection \<open>Delivery\<close>

datatype webhook_answer = WebhookRejected | WebhookStatus nat

definition webhook_attempt :: "webhook_answer \<Rightarrow> unit result" where
  "webhook_attempt answer =
     (case answer of WebhookRejected \<Rightarrow> Inl (Error ''fetch failed'')
      | WebhookStatus s \<Rightarrow>
          if 200 \<le> s \<and> s \<le> 299 then Inr () else Inl (Error (''webhook responded '' @ show_nat s)))"

record retry_options =
  retry_count :: int
  retry_min_timeout :: int
  retry_factor :: int

definition webhook_body :: "alerts \<Rightarrow> string \<Rightarrow> codes" where
  "webhook_body al message = json_stringify (channel_format (al_channel al) message)"

type_synonym p_retry =
  "(webhook_answer \<Rightarrow> unit result) \<Rightarrow> retry_options \<Rightarrow> webhook_answer list \<Rightarrow> unit result"

definition deliver :: "p_retry \<Rightarrow> alerts \<Rightarrow> webhook_answer list \<Rightarrow> unit result" where
  "deliver retry al answers = retry webhook_attempt
     \<lparr>retry_count = al_retries al, retry_min_timeout = 200, retry_factor = 2\<rparr> answers"

text \<open>What the hook makes of a delivery, which it does not await.\<close>

definition alert_delivery :: "p_retry \<Rightarrow> alerts \<Rightarrow> webhook_answer list \<Rightarrow> logger \<Rightarrow> logger" where
  "alert_delivery retry al answers app_log =
     (case deliver retry al answers of
        Inr _ \<Rightarrow> app_log
      | Inl _ \<Rightarrow> log_at LogError [(''err'', LogThrown), (''channel'', LogText (alert_channel_value (channel_name (al_channel al))))]
          ''alert delivery failed after retries'' app_log)"

subsection \<open>A sequence of responses\<close>

record response =
  resp_time :: int
  resp_request :: request
  resp_reply :: reply

fun alert_run :: "alerts \<Rightarrow> int \<Rightarrow> response list \<Rightarrow> (int \<times> string) list" where
  "alert_run al last_sent [] = []"
| "alert_run al last_sent (r # rs) =
     (case alert_hook al (resp_time r) last_sent (resp_request r) (resp_reply r) of
        (last_sent, None) \<Rightarrow> alert_run al last_sent rs
      | (last_sent, Some message) \<Rightarrow> (resp_time r, message) # alert_run al last_sent rs)"

fun spaced :: "int \<Rightarrow> int \<Rightarrow> int list \<Rightarrow> bool" where
  "spaced gap t0 [] = True"
| "spaced gap t0 (t # ts) = (t0 + gap \<le> t \<and> spaced gap t ts)"

lemma alert_run_spaced: "spaced (al_throttle_ms al) t0 (map fst (alert_run al t0 rs))"
  by (induction rs arbitrary: t0) (auto simp: alert_hook_def)

lemma spaced_nth:
  "spaced gap l ts \<Longrightarrow> Suc i < length ts \<Longrightarrow> ts ! i + gap \<le> ts ! Suc i"
proof (induction ts arbitrary: l i)
  case (Cons t ts)
  then show ?case by (cases i; cases ts) auto
qed simp

lemma alert_run_append:
  "alert_run al t0 (rs @ rs') = alert_run al t0 rs
     @ alert_run al (if alert_run al t0 rs = [] then t0 else fst (List.last (alert_run al t0 rs))) rs'"
  by (induction rs arbitrary: t0) (auto simp: alert_hook_def)

text \<open>Alerts never flood the channel: over any sequence of responses, however many fail and in
  whatever order their clocks read, consecutive alerts are at least \<open>ALERT_THROTTLE_MS\<close> apart.\<close>
theorem alerts_throttled:
  assumes "Suc i < length (alert_run al t0 rs)"
  shows "fst (alert_run al t0 rs ! i) + al_throttle_ms al \<le> fst (alert_run al t0 rs ! Suc i)"
proof -
  have "length (map fst (alert_run al t0 rs)) = length (alert_run al t0 rs)" by simp
  with spaced_nth [OF alert_run_spaced, of i al t0 rs] assms show ?thesis by simp
qed

text \<open>No failure is dropped but by the throttle: in any sequence, a response is alerted exactly when
  its status reaches the threshold and the last alert before it (or the start of the process) is
  at least the throttle away.\<close>
theorem alerted_iff:
  "alert_run al t0 (rs @ [r]) = alert_run al t0 rs @
     (if al_threshold al \<le> status_code (resp_reply r)
         \<and> (if alert_run al t0 rs = [] then t0 else fst (List.last (alert_run al t0 rs)))
             + al_throttle_ms al \<le> resp_time r
      then [(resp_time r, alert_message (resp_request r) (resp_reply r))] else [])"
  by (auto simp: alert_run_append alert_hook_def)

text \<open>An alert names the route, never the URL: for a matched route the message depends only on the
  status, the method, the route pattern and the request id, so no query string reaches the channel.\<close>
theorem alert_hides_url:
  assumes "route_url (req_route a) = Some route" and "route_url (req_route b) = Some route"
    and "req_method a = req_method b" and "req_id a = req_id b" and "status_code r = status_code s"
  shows "alert_message a r = alert_message b s"
  using assms by (simp add: alert_message_def)

text \<open>Alerting is on exactly when the flag is set and the selected channel has a webhook URL, and it
  then posts to that channel; the threshold is 400 at level \<open>warn\<close> and 500 otherwise.\<close>
theorem alerting_enabled_iff:
  "(\<exists>al. fst (alerts_plugin config app_log) = Some al \<and> channel_name (al_channel al) = kind
        \<and> channel_url (al_channel al) = url
        \<and> al_threshold al = (if ALERT_LEVEL config = ''warn'' then 400 else 500))
    \<longleftrightarrow> ALERTS_ENABLED config \<and> url \<noteq> []
        \<and> (ALERT_CHANNEL config = ''slack'' \<and> kind = ChannelSlack \<and> url = SLACK_WEBHOOK_URL config
           \<or> ALERT_CHANNEL config = ''discord'' \<and> kind = ChannelDiscord
             \<and> url = DISCORD_WEBHOOK_URL config)"
  by (auto simp: alerts_plugin_def select_alert_channel_def slack_channel_def discord_channel_def
      alert_threshold_def split: if_splits)

subsection \<open>A burst of failures\<close>

definition sample_alerts :: alerts where
  "sample_alerts = \<lparr>al_channel = slack_channel ''https://hooks/slack'', al_throttle_ms = 60000,
     al_retries = 2, al_threshold = 500\<rparr>"

definition failure_at :: "int \<Rightarrow> response" where
  "failure_at t = \<lparr>resp_time = t, resp_request = sample_request ''GET'' [],
     resp_reply = reply_code 502 fresh_reply\<rparr>"

lemma burst_times:
  "map fst (alert_run sample_alerts 0 (map failure_at [100000, 100001, 159999, 160000, 170000]))
     = [100000, 160000]"
  by (simp add: failure_at_def sample_alerts_def alert_hook_def)

theorem alerts_throttled_witness:
  "fst (alert_run sample_alerts 0 (map failure_at [100000, 100001, 160000]) ! 0) + 60000
    \<le> fst (alert_run sample_alerts 0 (map failure_at [100000, 100001, 160000]) ! 1)"
proof -
  have "length (alert_run sample_alerts 0 (map failure_at [100000, 100001, 160000])) = 2"
    by (simp add: failure_at_def sample_alerts_def alert_hook_def)
  then show ?thesis
    using alerts_throttled [of 0 sample_alerts 0 "map failure_at [100000, 100001, 160000]"]
    by (simp add: sample_alerts_def)
qed

theorem alert_hides_url_witness:
  "alert_message (sample_request ''GET'' []) (reply_code 502 fresh_reply)
    = alert_message ((sample_request ''GET'' [])\<lparr>req_url := ''/api/public/items?token=abc''\<rparr>)
        (reply_code 502 fresh_reply)"
  by (rule alert_hides_url [of _ "''/api/public/*''"]) (simp_all add: sample_request_def)

end
