(* ===== verification/Limits.thy ===== *)
theory Limits
  imports Http Config
begin

section \<open>CORS, load shedding, rate limiting and the Redis client\<close>

text \<open>
  \<open>plugins/security.ts\<close>, \<open>plugins/pressure.ts\<close>, \<open>plugins/rate-limit.ts\<close> and
  \<open>plugins/redis.ts\<close>. Each registers a third-party plugin; what the gateway contributes is the
  options it passes and the handlers it supplies, and those are the definitions here. The Redis
  client and \<open>@fastify/under-pressure\<close>'s sampling are not modelled.
\<close>

subsection \<open>Security headers and CORS\<close>

datatype cors_origin = AnyOrigin | OriginList "string list"

record cors_options =
  cors_origin :: cors_origin
  cors_credentials :: bool

definition wildcard_credentials_message :: string where
  "wildcard_credentials_message =
     ''CORS_ALLOW_CREDENTIALS=true cannot be combined with wildcard CORS_ORIGINS; ''
       @ ''set an explicit origin allow-list''"

definition cors_origins :: "gateway_config \<Rightarrow> string list" where
  "cors_origins config = map js_trim (split_on (CHR '','') (CORS_ORIGINS config))"

definition security_plugin :: "gateway_config \<Rightarrow> cors_options result" where
  "security_plugin config =
     (let origins = cors_origins config; allow_any = ''*'' \<in> set origins
      in if allow_any \<and> CORS_ALLOW_CREDENTIALS config then Inl (Error wildcard_credentials_message)
         else Inr \<lparr>cors_origin = (if allow_any then AnyOrigin else OriginList origins),
                cors_credentials = CORS_ALLOW_CREDENTIALS config\<rparr>)"

text \<open>Credentials are never offered to arbitrary origins: whatever the configuration, the CORS plugin
  either stops the boot, exactly when a wildcard meets credentials, or runs with credentials only
  beside an explicit origin list, which is the configured one without a wildcard.\<close>
theorem cors_credentials_need_list:
  "(case security_plugin config of
      Inl e \<Rightarrow> ''*'' \<in> set (cors_origins config) \<and> CORS_ALLOW_CREDENTIALS config
    | Inr options \<Rightarrow>
        (cors_origin options = OriginList (cors_origins config) \<and> ''*'' \<notin> set (cors_origins config)
         \<or> cors_origin options = AnyOrigin \<and> \<not> CORS_ALLOW_CREDENTIALS config)
        \<and> (cors_credentials options = CORS_ALLOW_CREDENTIALS config))"
  by (auto simp: security_plugin_def Let_def)

subsection \<open>Load shedding\<close>

record pressure_options =
  max_event_loop_delay :: int
  max_event_loop_utilization :: "int \<times> int"
  max_heap_used_bytes :: int
  max_rss_bytes :: int
  sample_interval :: int

definition pressure_options_of :: "gateway_config \<Rightarrow> pressure_options" where
  "pressure_options_of config =
     \<lparr>max_event_loop_delay = PRESSURE_MAX_EVENT_LOOP_DELAY_MS config,
      max_event_loop_utilization = PRESSURE_MAX_EVENT_LOOP_UTILIZATION config,
      max_heap_used_bytes = PRESSURE_MAX_HEAP_USED_BYTES config,
      max_rss_bytes = PRESSURE_MAX_RSS_BYTES config,
      sample_interval = PRESSURE_SAMPLE_INTERVAL_MS config\<rparr>"

definition pressure_handler :: "gateway_config \<Rightarrow> request \<Rightarrow> reply \<Rightarrow> request \<times> reply" where
  "pressure_handler config req reply =
     (if route_shed (req_route req) = Some False then (req, reply)
      else let req = log_req LogWarn [(''type'', LogForeign), (''value'', LogForeign)] ''request shed under pressure'' req
        in (req, reply_send (ErrorPayload (error_body_of (req_id req) (error_message MsgOverloaded)))
             (reply_code (http_status StServiceUnavailable)
               (reply_header HdrRetryAfter (show_int (PRESSURE_RETRY_AFTER_SECONDS config)) reply))))"

lemma pressure_handler_spec:
  assumes "sent reply = None" and "pressure_handler config req reply = (req', reply')"
  shows "if route_shed (req_route req) = Some False then req' = req \<and> reply' = reply
    else rejected_with 503 ''Gateway overloaded'' req reply'
      \<and> header_of (reply_headers reply') HdrRetryAfter
          = Some (HStr (show_int (PRESSURE_RETRY_AFTER_SECONDS config)))"
  using assms by (auto simp: pressure_handler_def rejected_with_def Let_def)

subsection \<open>Redis and rate limiting\<close>

record redis_options =
  redis_url :: string
  redis_close_client :: bool
  redis_max_retries :: "int option"
  redis_offline_queue :: bool

definition redis_plugin :: "gateway_config \<Rightarrow> redis_options option" where
  "redis_plugin config =
     (if REDIS_URL config = [] then None
      else Some \<lparr>redis_url = REDIS_URL config, redis_close_client = True, redis_max_retries = None,
        redis_offline_queue = False\<rparr>)"

definition redis_error_listener :: "logger \<Rightarrow> logger" where
  "redis_error_listener app_log = log_at LogError [(''err'', LogThrown)] ''redis client error'' app_log"

record rate_limit_options =
  rl_max :: int
  rl_time_window :: int
  rl_ban :: "int option"
  rl_key :: "request \<Rightarrow> string"
  rl_redis :: "redis_options option"
  rl_skip_on_error :: bool

definition rate_limit_plugin :: "gateway_config \<Rightarrow> rate_limit_options" where
  "rate_limit_plugin config =
     \<lparr>rl_max = RATE_LIMIT_MAX config,
      rl_time_window = RATE_LIMIT_WINDOW_MS config,
      rl_ban = (if 0 < RATE_LIMIT_BAN config then Some (RATE_LIMIT_BAN config) else None),
      rl_key = req_ip,
      rl_redis = (if REDIS_URL config \<noteq> [] then redis_plugin config else None),
      rl_skip_on_error = True\<rparr>"

text \<open>A store is shared exactly when Redis is configured, its client then never queues commands while
  disconnected, and the limiter lets requests through on store errors.\<close>

lemma rate_limit_store:
  "rl_redis (rate_limit_plugin config) = redis_plugin config"
  "rl_skip_on_error (rate_limit_plugin config)"
  "rl_redis (rate_limit_plugin config) = Some r \<Longrightarrow> \<not> redis_offline_queue r \<and> redis_url r \<noteq> []"
  by (auto simp: rate_limit_plugin_def redis_plugin_def split: if_splits)

end
