(* ===== verification/App.thy ===== *)
theory App
  imports ServiceGateway Tracing IpList Cache ErrorHandler Alerts Limits Observability
begin

section \<open>The application\<close>

text \<open>
  \<open>app.ts\<close> and the decorators of \<open>types/fastify.d.ts\<close>: the options of the Fastify factory, the
  registration of every plugin, route and service in order (\<open>build_app\<close>, where the first error stops
  the boot), and what a request passes on its way: the hooks in the order the registrations put
  them (\<open>entry_hooks\<close>, \<open>service_hooks\<close>, \<open>route_hooks\<close>).

  Fastify is a parameter: \<open>run\<close> runs a list of hooks on an exchange, with its documented law
  (\<open>lifecycle\<close>): in order, stopping at the first hook that replies, and answering through the
  application's error handler when a hook throws. \<open>@fastify/env\<close>, \<open>@fastify/redis\<close>,
  \<open>@fastify/under-pressure\<close> and \<open>@fastify/rate-limit\<close> are parameters too (\<open>platform\<close>, \<open>world\<close>).
\<close>

subsection \<open>The factory\<close>

record factory_options =
  fo_logger :: logger_config
  fo_disable_request_logging :: bool
  fo_body_limit :: js_number
  fo_keep_alive_timeout :: js_number
  fo_request_timeout :: js_number
  fo_trust_proxy :: bool

definition factory_options_of :: "environment \<Rightarrow> factory_options result" where
  "factory_options_of env =
     bind_result (env_boolean env ''TRUST_PROXY'' True) (\<lambda>trust_proxy.
     bind_result (env_enum env ''LOG_REQUEST_STYLE''
         (map log_request_style_value [StyleFastify, StyleSingle, StyleOff])
         (log_request_style_value StyleFastify)) (\<lambda>style.
     bind_result (build_logger_options env) (\<lambda>logging.
     bind_result (env_number env ''BODY_LIMIT'' 1048576 1) (\<lambda>body_limit.
     bind_result (env_number env ''KEEP_ALIVE_TIMEOUT_MS'' 72000 0) (\<lambda>keep_alive.
     bind_result (env_number env ''REQUEST_TIMEOUT_MS'' 30000 0) (\<lambda>request_timeout.
       Inr \<lparr>fo_logger = logging,
            fo_disable_request_logging = (style \<noteq> log_request_style_value StyleFastify),
            fo_body_limit = body_limit, fo_keep_alive_timeout = keep_alive,
            fo_request_timeout = request_timeout, fo_trust_proxy = trust_proxy\<rparr>))))))"

subsection \<open>Registration\<close>

text \<open>What the platform provides: SHA-256, the URL parser, \<open>@fastify/env\<close>, the Redis plugin's connection,
  and whether each library the boot hands options to accepts them. Fastify's factory builds the logger,
  so pino refuses an unknown \<open>LOG_LEVEL\<close> or a bad rotation setting there; the proxy library parses the
  upstream's URL.\<close>

datatype registration =
    RegFastify factory_options
  | RegCors cors_options
  | RegPressure pressure_options
  | RegRateLimit rate_limit_options
  | RegProxy string

record platform =
  pf_sha256 :: hash
  pf_url_parses :: "string \<Rightarrow> bool"
  pf_urls :: url_lib
  pf_validate :: "environment \<Rightarrow> settings result"
  pf_connect :: "redis_options \<Rightarrow> unit result"
  pf_register :: "registration \<Rightarrow> unit result"

definition registers :: "platform \<Rightarrow> registration \<Rightarrow> bool" where
  "registers pf r \<longleftrightarrow> pf_register pf r = Inr ()"

text \<open>The decorated instance (\<open>types/fastify.d.ts\<close>) with what the plugins registered on it.\<close>

record app =
  app_config :: gateway_config
  app_instance :: instance_state
  app_trust_proxy :: bool
  app_metrics :: registry
  app_strategies :: auth_registry
  app_has_cache :: bool
  app_factory :: factory_options
  app_cors :: cors_options
  app_logging :: logging_hooks
  app_ip_filter :: "ip_filter option"
  app_pressure :: pressure_options
  app_redis :: "redis_options option"
  app_rate_limit :: rate_limit_options
  app_alerts :: "alerts option"
  app_mounts :: "mount list"
  app_boot_log :: logger

definition instance_of_app :: "gateway_config \<Rightarrow> bool \<Rightarrow> auth_registry \<Rightarrow> bool \<Rightarrow> gateway_instance" where
  "instance_of_app config trust_proxy strategies has_cache =
     \<lparr>inst_config = config, inst_trust_proxy = trust_proxy, inst_strategies = strategies,
      inst_has_cache = has_cache\<rparr>"

definition register_redis :: "platform \<Rightarrow> gateway_config \<Rightarrow> redis_options option result" where
  "register_redis pf config =
     (case redis_plugin config of None \<Rightarrow> Inr None
      | Some options \<Rightarrow> bind_result (pf_connect pf options) (\<lambda>_. Inr (Some options)))"

fun mount_services :: "platform \<Rightarrow> gateway_instance \<Rightarrow> service_gateway list \<Rightarrow> mount list result" where
  "mount_services pf inst [] = Inr []"
| "mount_services pf inst (service # services) =
     bind_result (to_plugin (pf_urls pf) service inst) (\<lambda>m.
     bind_result (pf_register pf (RegProxy (mount_upstream m))) (\<lambda>_.
     bind_result (mount_services pf inst services) (\<lambda>ms. Inr (m # ms))))"

definition empty_registry :: registry where
  "empty_registry = \<lparr>requests_total = (\<lambda>_. 0), durations = []\<rparr>"

text \<open>What the plugins log as they start.\<close>

definition ip_filter_boot :: "ip_filter option \<Rightarrow> logger \<Rightarrow> logger" where
  "ip_filter_boot f app_log =
     (case f of None \<Rightarrow> app_log
      | Some f \<Rightarrow> log_at LogInfo [(''allowList'', LogBool (filter_allow f \<noteq> None)),
            (''denyList'', LogBool (filter_deny f \<noteq> None))] ''ip filtering enabled'' app_log)"

definition rate_limit_boot :: "gateway_config \<Rightarrow> logger \<Rightarrow> logger" where
  "rate_limit_boot config app_log =
     log_at LogInfo [(''store'', LogText (if rl_redis (rate_limit_plugin config) \<noteq> None then ''redis'' else ''in-memory''))]
       ''rate limiting configured'' app_log"

definition cache_boot :: "gateway_config \<Rightarrow> bool \<Rightarrow> logger \<Rightarrow> logger" where
  "cache_boot config has_cache app_log =
     (if has_cache then log_at LogInfo [(''maxTtlMs'', LogInt (CACHE_MAX_TTL_MS config)),
          (''defaultTtlMs'', LogInt (CACHE_DEFAULT_TTL_MS config))] ''response caching enabled'' app_log
      else app_log)"

definition build_app :: "platform \<Rightarrow> environment \<Rightarrow> app result" where
  "build_app pf env =
     bind_result (factory_options_of env) (\<lambda>factory.
     bind_result (pf_register pf (RegFastify factory)) (\<lambda>_.
     bind_result (pf_validate pf env) (\<lambda>settings.
     let config = typed_config settings; trust_proxy = fo_trust_proxy factory;
         boot_log = \<lparr>bindings = [], log_lines = []\<rparr>
     in
     bind_result (security_plugin config) (\<lambda>cors.
     bind_result (pf_register pf (RegCors cors)) (\<lambda>_.
     bind_result (logging_plugin env config) (\<lambda>logging.
     bind_result (ip_filter_plugin config) (\<lambda>ip_filter.
     bind_result (pf_register pf (RegPressure (pressure_options_of config))) (\<lambda>_.
     bind_result (auth_plugin (pf_sha256 pf) (pf_url_parses pf) config) (\<lambda>strategies.
     bind_result (register_redis pf config) (\<lambda>redis.
     let boot_log = rate_limit_boot config (ip_filter_boot ip_filter boot_log) in
     bind_result (pf_register pf (RegRateLimit (rate_limit_plugin config))) (\<lambda>_.
     bind_result (cache_plugin config) (\<lambda>has_cache.
     let (alerts, boot_log) = alerts_plugin config (cache_boot config has_cache boot_log);
         boot_log = metrics_boot config boot_log
     in
     bind_result (mount_services pf
         (instance_of_app config trust_proxy strategies has_cache) service_gateways) (\<lambda>mounts.
       Inr \<lparr>app_config = config,
            app_instance = \<lparr>shutting_down = False, under_pressure = False\<rparr>,
            app_trust_proxy = trust_proxy,
            app_metrics = empty_registry,
            app_strategies = strategies,
            app_has_cache = has_cache,
            app_factory = factory,
            app_cors = cors,
            app_logging = logging,
            app_ip_filter = ip_filter,
            app_pressure = pressure_options_of config,
            app_redis = redis,
            app_rate_limit = rate_limit_plugin config,
            app_alerts = alerts,
            app_mounts = mounts,
            app_boot_log = boot_log\<rparr>)))))))))))))"

text \<open>What a booted application consists of.\<close>

lemma build_app_parts:
  assumes "build_app pf env = Inr app"
  shows "factory_options_of env = Inr (app_factory app)"
    and "\<exists>st. pf_validate pf env = Inr st \<and> app_config app = typed_config st"
    and "app_trust_proxy app = fo_trust_proxy (app_factory app)"
    and "security_plugin (app_config app) = Inr (app_cors app)"
    and "logging_plugin env (app_config app) = Inr (app_logging app)"
    and "ip_filter_plugin (app_config app) = Inr (app_ip_filter app)"
    and "auth_plugin (pf_sha256 pf) (pf_url_parses pf) (app_config app) = Inr (app_strategies app)"
    and "register_redis pf (app_config app) = Inr (app_redis app)"
    and "cache_plugin (app_config app) = Inr (app_has_cache app)"
    and "app_pressure app = pressure_options_of (app_config app)"
    and "app_rate_limit app = rate_limit_plugin (app_config app)"
    and "mount_services pf (instance_of_app (app_config app) (app_trust_proxy app)
        (app_strategies app) (app_has_cache app)) service_gateways = Inr (app_mounts app)"
    and "app_instance app = \<lparr>shutting_down = False, under_pressure = False\<rparr>"
    and "list_all (registers pf) [RegFastify (app_factory app), RegCors (app_cors app),
        RegPressure (app_pressure app), RegRateLimit (app_rate_limit app)]"
  using assms by (auto simp: build_app_def registers_def Let_def split_beta)

subsection \<open>When the gateway boots\<close>

lemma mount_services_ok_iff:
  "(\<exists>ms. mount_services pf inst services = Inr ms) \<longleftrightarrow>
     (\<forall>service \<in> set services. \<exists>m. to_plugin (pf_urls pf) service inst = Inr m
        \<and> registers pf (RegProxy (mount_upstream m)))"
  by (induction services) (auto simp: registers_def)

lemma mount_services_mem:
  "mount_services pf inst services = Inr ms \<Longrightarrow> m \<in> set ms
    \<Longrightarrow> \<exists>service \<in> set services. to_plugin (pf_urls pf) service inst = Inr m"
  by (induction services arbitrary: ms) auto

lemma services_always_plug:
  assumes "auth_plugin sha256 url_parses config = Inr strategies" and "service \<in> set service_gateways"
  shows "\<exists>m. to_plugin lib service (instance_of_app config tp strategies has_cache) = Inr m
    \<and> mount_upstream m = upstream_of service config"
proof -
  let ?inst = "instance_of_app config tp strategies has_cache"
  from auth_plugin_registry [OF assms(1)] obtain users jwt where
    "auth_strategy strategies =
      [AuthApiKey \<mapsto> create_api_key_strategy sha256 (GATEWAY_API_KEY config),
       AuthBasic \<mapsto> create_basic_auth_strategy sha256 users,
       AuthJwt \<mapsto> jwt,
       AuthBearer \<mapsto> create_bearer_auth_strategy sha256 (bearer_options_of config)]"
    by blast
  then have "\<exists>m. to_plugin lib service ?inst = Inr m"
    using assms(2) unfolding to_plugin_ok_iff by (auto simp: service_gateways_def instance_of_app_def)
  then obtain m where m: "to_plugin lib service ?inst = Inr m" by blast
  with to_plugin_spec [OF m] show ?thesis by (simp add: instance_of_app_def)
qed

lemma services_mount_iff:
  assumes "auth_plugin sha256 url_parses config = Inr strategies"
  shows "(\<exists>ms. mount_services pf (instance_of_app config tp strategies has_cache) service_gateways = Inr ms)
    \<longleftrightarrow> (\<forall>service \<in> set service_gateways. registers pf (RegProxy (upstream_of service config)))"
proof -
  have "(\<exists>m. to_plugin (pf_urls pf) service (instance_of_app config tp strategies has_cache) = Inr m
      \<and> registers pf (RegProxy (mount_upstream m))) \<longleftrightarrow> registers pf (RegProxy (upstream_of service config))"
    if s: "service \<in> set service_gateways" for service
  proof -
    obtain m where "to_plugin (pf_urls pf) service (instance_of_app config tp strategies has_cache) = Inr m"
      "mount_upstream m = upstream_of service config"
      using services_always_plug [OF assms s] by blast
    then show ?thesis by simp
  qed
  then show ?thesis unfolding mount_services_ok_iff by blast
qed

lemma build_ip_list_ok_iff:
  "(\<exists>l. build_ip_list entries = Inr l) \<longleftrightarrow> list_all valid_entry (list_items entries)"
proof -
  have "(\<exists>new. map item_rule items = map Inr new) \<longleftrightarrow> list_all valid_entry items" for items
    by (induction items) (auto simp: Cons_eq_map_conv item_rule_ok_iff [symmetric])
  then show ?thesis by (auto simp: build_ip_list_def Let_def build_rules_spec)
qed

text \<open>The conditions on a configuration, one per plugin that can refuse it, and the libraries' own.\<close>

definition config_accepted :: "platform \<Rightarrow> gateway_config \<Rightarrow> bool" where
  "config_accepted pf config \<longleftrightarrow>
     \<not> (''*'' \<in> set (cors_origins config) \<and> CORS_ALLOW_CREDENTIALS config)
     \<and> list_all valid_entry (list_items (IP_ALLOW_LIST config))
     \<and> list_all valid_entry (list_items (IP_DENY_LIST config))
     \<and> (\<exists>users. parse_user_list (BASIC_AUTH_USERS config) = Inr users)
     \<and> (JWT_JWKS_URI config = [] \<or> pf_url_parses pf (JWT_JWKS_URI config))
     \<and> (\<forall>options. redis_plugin config = Some options \<longrightarrow> (\<exists>u. pf_connect pf options = Inr u))
     \<and> (CACHE_ENABLED config \<longrightarrow> REDIS_URL config \<noteq> [])
     \<and> (\<forall>cors. security_plugin config = Inr cors \<longrightarrow> registers pf (RegCors cors))
     \<and> registers pf (RegPressure (pressure_options_of config))
     \<and> registers pf (RegRateLimit (rate_limit_plugin config))
     \<and> (\<forall>service \<in> set service_gateways. registers pf (RegProxy (upstream_of service config)))"

lemma env_enum_style:
  "(\<exists>style. env_enum env ''LOG_REQUEST_STYLE'' (map log_request_style_value [StyleFastify, StyleSingle, StyleOff])
      (log_request_style_value StyleFastify) = Inr style)
    \<longleftrightarrow> (\<exists>hooks. logging_plugin env config = Inr hooks)"
  by (auto simp: logging_plugin_def)

lemma accepted_parts:
  assumes "config_accepted pf config"
  obtains cors ip_filter strategies redis has_cache where "security_plugin config = Inr cors"
    and "ip_filter_plugin config = Inr ip_filter"
    and "auth_plugin (pf_sha256 pf) (pf_url_parses pf) config = Inr strategies"
    and "register_redis pf config = Inr redis" and "cache_plugin config = Inr has_cache"
proof -
  note c = assms [unfolded config_accepted_def]
  have "\<exists>cors. security_plugin config = Inr cors"
    using c by (simp add: security_plugin_def Let_def)
  moreover have "\<exists>f. ip_filter_plugin config = Inr f"
  proof -
    obtain allow deny where "build_ip_list (IP_ALLOW_LIST config) = Inr allow"
      "build_ip_list (IP_DENY_LIST config) = Inr deny"
      using c unfolding build_ip_list_ok_iff [symmetric] by blast
    then show ?thesis unfolding ip_filter_plugin_def by (simp only: bind_result.simps) blast
  qed
  moreover have "\<exists>s. auth_plugin (pf_sha256 pf) (pf_url_parses pf) config = Inr s"
    unfolding auth_plugin_boots using c by blast
  moreover have "\<exists>r. register_redis pf config = Inr r"
    using c by (auto simp: register_redis_def split: option.split)
  moreover have "\<exists>b. cache_plugin config = Inr b"
    using c by (cases "CACHE_ENABLED config") (auto simp: cache_plugin_def)
  ultimately show thesis using that by blast
qed

lemma parts_accepted:
  assumes "build_app pf env = Inr app" shows "config_accepted pf (app_config app)"
proof -
  note p = build_app_parts [OF assms]
  have "list_all valid_entry (list_items (IP_ALLOW_LIST (app_config app)))"
    "list_all valid_entry (list_items (IP_DENY_LIST (app_config app)))"
    using p(6) unfolding build_ip_list_ok_iff [symmetric] ip_filter_plugin_def by auto
  moreover have "\<not> (''*'' \<in> set (cors_origins (app_config app)) \<and> CORS_ALLOW_CREDENTIALS (app_config app))"
    using p(4) by (auto simp: security_plugin_def Let_def)
  moreover have "(\<exists>users. parse_user_list (BASIC_AUTH_USERS (app_config app)) = Inr users)
      \<and> (JWT_JWKS_URI (app_config app) = [] \<or> pf_url_parses pf (JWT_JWKS_URI (app_config app)))"
    unfolding auth_plugin_boots [of "pf_sha256 pf", symmetric] using p(7) by blast
  moreover have "\<forall>options. redis_plugin (app_config app) = Some options
      \<longrightarrow> (\<exists>u. pf_connect pf options = Inr u)"
    using p(8) by (auto simp: register_redis_def)
  moreover have "CACHE_ENABLED (app_config app) \<longrightarrow> REDIS_URL (app_config app) \<noteq> []"
    using p(9) by (auto simp: cache_plugin_def)
  moreover have "\<forall>service \<in> set service_gateways. registers pf (RegProxy (upstream_of service (app_config app)))"
    using p(12) services_mount_iff [OF p(7)] by blast
  ultimately show ?thesis using p(4,10,11,14) by (simp add: config_accepted_def)
qed

lemma build_app_ok:
  assumes "factory_options_of env = Inr factory" and "registers pf (RegFastify factory)"
    and "pf_validate pf env = Inr settings" and "config_accepted pf (typed_config settings)"
  shows "\<exists>app. build_app pf env = Inr app \<and> app_config app = typed_config settings"
proof -
  from assms(1) have "\<exists>logging. logging_plugin env (typed_config settings) = Inr logging"
    unfolding env_enum_style [symmetric] factory_options_of_def bind_result_Inr_iff by blast
  then obtain logging where logging: "logging_plugin env (typed_config settings) = Inr logging"
    by blast
  obtain cors ip_filter strategies redis has_cache where
    parts: "security_plugin (typed_config settings) = Inr cors"
    "ip_filter_plugin (typed_config settings) = Inr ip_filter"
    "auth_plugin (pf_sha256 pf) (pf_url_parses pf) (typed_config settings) = Inr strategies"
    "register_redis pf (typed_config settings) = Inr redis"
    "cache_plugin (typed_config settings) = Inr has_cache"
    using accepted_parts [OF assms(4)] by blast
  have regs: "registers pf (RegCors cors)" "registers pf (RegPressure (pressure_options_of (typed_config settings)))"
    "registers pf (RegRateLimit (rate_limit_plugin (typed_config settings)))"
    "\<forall>service \<in> set service_gateways. registers pf (RegProxy (upstream_of service (typed_config settings)))"
    using assms(4) parts(1) by (simp_all add: config_accepted_def)
  obtain mounts where "mount_services pf (instance_of_app (typed_config settings)
      (fo_trust_proxy factory) strategies has_cache) service_gateways = Inr mounts"
    using regs(4) services_mount_iff [OF parts(3)] by blast
  with assms(1-3) logging parts regs(1-3) show ?thesis
    by (simp add: build_app_def registers_def Let_def split_beta)
qed

text \<open>C17. The gateway boots exactly on a sound environment: the factory's variables are well formed and
  Fastify, with its logger, accepts what is made of them; the schema validates; no wildcard origin meets
  credentials, both IP lists and the user list parse, the JWKS endpoint is a URL, Redis (when
  configured) is reachable, caching has a Redis to use; and the libraries accept the CORS, pressure and
  limiter options and the URL of every upstream. Nothing of the gateway's own code stops it beyond
  that: given these, every built-in strategy registers and every service mounts. And it boots with the
  configuration that was validated.\<close>
theorem build_app_boots_iff:
  "(\<exists>app. build_app pf env = Inr app \<and> app_config app = config) \<longleftrightarrow>
     (\<exists>factory. factory_options_of env = Inr factory \<and> registers pf (RegFastify factory))
     \<and> (\<exists>settings. pf_validate pf env = Inr settings \<and> config = typed_config settings)
     \<and> config_accepted pf config"
proof
  assume "\<exists>app. build_app pf env = Inr app \<and> app_config app = config"
  then obtain app where app: "build_app pf env = Inr app" "app_config app = config" by blast
  with build_app_parts(1,2,14) [OF app(1)] parts_accepted [OF app(1)]
  show "(\<exists>factory. factory_options_of env = Inr factory \<and> registers pf (RegFastify factory))
     \<and> (\<exists>settings. pf_validate pf env = Inr settings \<and> config = typed_config settings)
     \<and> config_accepted pf config" by auto
qed (use build_app_ok in blast)

lemma mount_services_list:
  "mount_services pf inst services = Inr ms
    \<Longrightarrow> list_all2 (\<lambda>service m. to_plugin (pf_urls pf) service inst = Inr m) services ms"
  by (induction services arbitrary: ms) auto

lemma to_plugin_prefix: "to_plugin lib service inst = Inr m \<Longrightarrow> mount_prefix m = service_prefix service"
  by (auto simp: to_plugin_def Let_def split: if_splits)

text \<open>C40. A booted application is well formed, given that \<open>@fastify/env\<close> hands over what the schema
  allows: its three routes are mounted at their prefixes, each to an \<open>http(s)\<close> upstream and never
  with both a guard and the shared cache; the alert settings are among the enumerated ones; the
  cache exists only over a connected Redis, which the rate limiter then shares; and it starts out
  serving, not draining.\<close>
theorem booted_app_well_formed:
  assumes "build_app pf env = Inr app" and "\<forall>st. pf_validate pf env = Inr st \<longrightarrow> conforms st"
  shows "map mount_prefix (app_mounts app) = [''/api/users'', ''/api/orders'', ''/api/public'']
    \<and> (\<forall>m \<in> set (app_mounts app). http_url (mount_upstream m) \<and> (mount_guard m = None \<or> mount_hooks m = []))
    \<and> (\<exists>level. ALERT_LEVEL (app_config app) = alert_level_value level)
    \<and> (\<exists>kind. ALERT_CHANNEL (app_config app) = alert_channel_value kind)
    \<and> (app_has_cache app \<longrightarrow> app_redis app \<noteq> None)
    \<and> rl_redis (app_rate_limit app) = app_redis app
    \<and> \<not> shutting_down (app_instance app)"
proof (intro conjI ballI)
  note parts = build_app_parts [OF assms(1)]
  from parts(2) assms(2) obtain st where st: "conforms st" "app_config app = typed_config st" by blast
  let ?inst = "instance_of_app (app_config app) (app_trust_proxy app) (app_strategies app) (app_has_cache app)"
  from mount_services_list [OF parts(12)]
  have mounts: "list_all2 (\<lambda>service m. to_plugin (pf_urls pf) service ?inst = Inr m)
    service_gateways (app_mounts app)" .
  then have "list_all2 (\<lambda>service m. service_prefix service = mount_prefix m) service_gateways (app_mounts app)"
    by (rule list_all2_mono) (simp add: to_plugin_prefix)
  then have "map service_prefix service_gateways = map mount_prefix (app_mounts app)"
    by (simp add: list_all2_map1 list_all2_map2 list_all2_eq)
  moreover have "map service_prefix service_gateways = [''/api/users'', ''/api/orders'', ''/api/public'']"
    by (simp add: service_gateways_def users_gateway_def orders_gateway_def public_gateway_def
        base_gateway_def)
  ultimately show "map mount_prefix (app_mounts app) = [''/api/users'', ''/api/orders'', ''/api/public'']"
    by simp
  show "\<exists>level. ALERT_LEVEL (app_config app) = alert_level_value level"
    "\<exists>kind. ALERT_CHANNEL (app_config app) = alert_channel_value kind"
    unfolding st(2) by (rule alert_settings_known [OF st(1)])+
  have redis: "app_redis app = redis_plugin (app_config app)"
    using parts(8) by (auto simp: register_redis_def split: option.splits)
  then show "rl_redis (app_rate_limit app) = app_redis app"
    by (simp add: parts(11) rate_limit_store(1))
  show "app_has_cache app \<longrightarrow> app_redis app \<noteq> None"
    using parts(9) by (auto simp: redis cache_plugin_def redis_plugin_def split: if_splits)
  show "\<not> shutting_down (app_instance app)" by (simp add: parts(13))
  fix m assume "m \<in> set (app_mounts app)"
  with mount_services_mem [OF parts(12)] obtain service where
    s: "service \<in> set service_gateways" "to_plugin (pf_urls pf) service ?inst = Inr m" by blast
  note spec = to_plugin_spec [OF s(2)]
  have "mount_upstream m = upstream_of service (typed_config st)"
    using spec by (simp add: instance_of_app_def st(2))
  with s(1) service_urls_http [OF st(1)] show "http_url (mount_upstream m)"
    by (auto simp: service_gateways_def)
  show "mount_guard m = None \<or> mount_hooks m = []" using spec by auto
qed

subsection \<open>The way of a request\<close>

record exchange =
  ex_request :: request
  ex_reply :: reply
  ex_tokens :: token_cache
  ex_log :: logger

type_synonym hook = "exchange \<Rightarrow> fastify_error + exchange"

text \<open>What a request meets outside the code: random bytes, the pressure sampling, the rate limiter, what
  the guards and the cache see. The hooks of \<open>plugins/security.ts\<close>, which is registered before all
  others, have run: they leave a reply with headers of their own (theory \<open>SecurityHooks\<close>).\<close>

record world =
  w_random :: random_source
  w_overloaded :: "pressure_options \<Rightarrow> bool"
  w_limit :: "rate_limit_options \<Rightarrow> hook"
  w_auth :: auth_env
  w_cache :: cache_env

text \<open>A thrown \<open>Error\<close> has no status and no code.\<close>

definition thrown :: "js_error \<Rightarrow> fastify_error" where
  "thrown e = \<lparr>err_code = None, err_message = err_text e, err_status = None\<rparr>"

definition context_hook :: "random_source \<Rightarrow> hook" where
  "context_hook rnd ex =
     (let (req, reply) = request_context_hook rnd (ex_request ex) (ex_reply ex)
      in Inr (ex\<lparr>ex_request := req, ex_reply := reply\<rparr>))"

definition filter_hook :: "ip_filter \<Rightarrow> hook" where
  "filter_hook f ex =
     (let (req, reply) = ip_filter_hook f (ex_request ex) (ex_reply ex)
      in Inr (ex\<lparr>ex_request := req, ex_reply := reply\<rparr>))"

definition shed_hook :: "gateway_config \<Rightarrow> bool \<Rightarrow> hook" where
  "shed_hook config overloaded ex =
     (if \<not> overloaded then Inr ex
      else let (req, reply) = pressure_handler config (ex_request ex) (ex_reply ex)
        in Inr (ex\<lparr>ex_request := req, ex_reply := reply\<rparr>))"

text \<open>The hooks every request passes, in registration order.\<close>

definition entry_hooks :: "world \<Rightarrow> app \<Rightarrow> hook list" where
  "entry_hooks w app =
     [context_hook (w_random w)]
     @ (case app_ip_filter app of None \<Rightarrow> [] | Some f \<Rightarrow> [filter_hook f])
     @ [shed_hook (app_config app) (w_overloaded w (app_pressure app))]"

definition cache_serve_hook :: "hash \<Rightarrow> cache_env \<Rightarrow> string \<Rightarrow> hook" where
  "cache_serve_hook sha256 env service ex =
     (case serve_hook sha256 env service (ex_log ex) (ex_request ex) (ex_reply ex) of
        Inl e \<Rightarrow> Inl (thrown e)
      | Inr (lg, req, reply) \<Rightarrow> Inr (ex\<lparr>ex_log := lg, ex_request := req, ex_reply := reply\<rparr>))"

text \<open>The hooks of the service's own scope, and of its route: the limiter, then the guard.\<close>

definition service_hooks :: "hash \<Rightarrow> world \<Rightarrow> mount \<Rightarrow> hook list" where
  "service_hooks sha256 w m =
     List.map_filter (\<lambda>h. case h of ServeHook name \<Rightarrow> Some (cache_serve_hook sha256 (w_cache w) name)
       | StoreHook _ \<Rightarrow> None) (mount_hooks m)"

definition guard_hook :: "auth_env \<Rightarrow> strategy \<Rightarrow> hook" where
  "guard_hook env guard ex =
     (let (st, req, reply) = guard env (ex_tokens ex) (ex_request ex) (ex_reply ex)
      in Inr (ex\<lparr>ex_tokens := st, ex_request := req, ex_reply := reply\<rparr>))"

definition route_hooks :: "world \<Rightarrow> app \<Rightarrow> mount \<Rightarrow> hook list" where
  "route_hooks w app m =
     [w_limit w (app_rate_limit app)]
     @ (case mount_guard m of None \<Rightarrow> [] | Some guard \<Rightarrow> [guard_hook (w_auth w) guard])"

definition error_reply :: "fastify_error \<Rightarrow> exchange \<Rightarrow> exchange" where
  "error_reply err ex =
     (let (req, reply) = handle_error err (ex_request ex) (ex_reply ex)
      in ex\<lparr>ex_request := req, ex_reply := reply\<rparr>)"

definition handle_request ::
    "(hook list \<Rightarrow> exchange \<Rightarrow> exchange) \<Rightarrow> (headers \<Rightarrow> headers) \<Rightarrow> hash \<Rightarrow> world \<Rightarrow> app \<Rightarrow> mount
       \<Rightarrow> exchange \<Rightarrow> exchange \<times> route_outcome" where
  "handle_request run base sha256 w app m ex =
     (let ex = run (entry_hooks w app @ service_hooks sha256 w m @ route_hooks w app m) ex
      in (ex, if sent (ex_reply ex) \<noteq> None then Answered (ex_reply ex)
              else Forwarded (mount_upstream m)
                (mount_rewriter m (ex_request ex) (base (req_headers (ex_request ex))))))"

text \<open>A request of a mounted service's route carries no opt-out.\<close>

definition service_request :: "exchange \<Rightarrow> bool" where
  "service_request ex \<longleftrightarrow> sent (ex_reply ex) = None
     \<and> route_shed (req_route (ex_request ex)) \<noteq> Some False
     \<and> route_ip_filter (req_route (ex_request ex)) \<noteq> Some False"

subsection \<open>What the gateway relies on\<close>

text \<open>Fastify runs the hooks in order, stops at the first that replies, and answers a thrown error
  through the error handler.\<close>

definition lifecycle :: "(hook list \<Rightarrow> exchange \<Rightarrow> exchange) \<Rightarrow> bool" where
  "lifecycle run \<longleftrightarrow> (\<forall>ex. run [] ex = ex)
     \<and> (\<forall>h hs ex. run (h # hs) ex = (case h ex of Inl err \<Rightarrow> error_reply err ex
          | Inr ex' \<Rightarrow> if sent (ex_reply ex') = None then run hs ex' else ex'))"

text \<open>The limiter lets a request through with its own headers added, or throws; it leaves routes that
  opt out alone.\<close>

definition correlation_keys :: "header_key set" where
  "correlation_keys = {HdrRequestId, HdrCorrelationId}"

definition limiter_law :: "(rate_limit_options \<Rightarrow> hook) \<Rightarrow> bool" where
  "limiter_law limit \<longleftrightarrow> (\<forall>options ex.
     (route_rate_limit (req_route (ex_request ex)) = Some False \<longrightarrow> limit options ex = Inr ex)
     \<and> (\<forall>ex'. limit options ex = Inr ex' \<longrightarrow> ex_request ex' = ex_request ex
          \<and> ex_tokens ex' = ex_tokens ex \<and> sent (ex_reply ex') = sent (ex_reply ex)
          \<and> (\<forall>k \<in> correlation_keys.
               header_of (reply_headers (ex_reply ex')) k = header_of (reply_headers (ex_reply ex)) k)))"

text \<open>Redis hands out only values that were set, and only the gateway's store hook sets them (under its key
  prefix): whichever instance, configuration, request and response it was.\<close>

definition gateway_written :: "cache_env \<Rightarrow> bool" where
  "gateway_written env \<longleftrightarrow> (\<forall>key v. redis_get env key = RedisValue (Some v) \<longrightarrow>
     (\<exists>config req reply p reply' p' c. store_hook config req reply p = (reply', p', Some c) \<and> v = set_value c))"

text \<open>So what a lookup finds are entries with stored headers only.\<close>

definition own_entries :: "cache_env \<Rightarrow> bool" where
  "own_entries env \<longleftrightarrow> (\<forall>key j hit. found env key = Some j \<longrightarrow> entry_of_json j = Some hit
     \<longrightarrow> fst ` set (cr_headers hit) \<subseteq> header_name ` set stored_headers)"

lemma kept_stored: "fst ` set (kept_headers reply) \<subseteq> header_name ` set stored_headers"
proof
  fix n assume "n \<in> fst ` set (kept_headers reply)"
  then have "map_of (kept_headers reply) n \<noteq> None" by (simp add: map_of_eq_None_iff)
  then show "n \<in> header_name ` set stored_headers" by (simp add: kept_headers_map split: if_splits)
qed

lemma stored_command:
  assumes "store_hook config req reply p = (reply', p', Some c)"
  shows "status_code reply = 200 \<and> (\<exists>ttl body. c = store_entry req reply ttl body)"
  using assms by (cases p) (auto simp: store_hook_def Let_def store_entry_def split: if_splits)

lemma gateway_written_own: "gateway_written env \<Longrightarrow> own_entries env"
  unfolding own_entries_def
proof (intro allI impI)
  fix key j hit assume w: "gateway_written env" and j: "found env key = Some j" "entry_of_json j = Some hit"
  from j(1) obtain v where v: "redis_get env key = RedisValue (Some v)" "json_parse v = Some j"
    by (auto simp: found_def lookup_entry_def split: if_splits redis_answer.splits option.splits)
  with w obtain config req reply p reply' p' c where "store_hook config req reply p = (reply', p', Some c)"
    "v = set_value c" unfolding gateway_written_def by blast
  with stored_command obtain ttl body where ok: "status_code reply = 200" "v = set_value (store_entry req reply ttl body)"
    by blast
  from cached_value [OF ok(1), of req ttl body] v(2) j(2) ok(2) have "cr_headers hit = kept_headers reply" by auto
  then show "fst ` set (cr_headers hit) \<subseteq> header_name ` set stored_headers" by (simp add: kept_stored)
qed

subsection \<open>Running hooks\<close>

lemma run_Nil: "lifecycle run \<Longrightarrow> run [] ex = ex"
  by (simp add: lifecycle_def)

lemma run_Cons: "lifecycle run \<Longrightarrow> run (h # hs) ex = (case h ex of Inl err \<Rightarrow> error_reply err ex
    | Inr ex' \<Rightarrow> if sent (ex_reply ex') = None then run hs ex' else ex')"
  unfolding lifecycle_def by blast

lemma error_reply_sent: "sent (ex_reply (error_reply err ex)) \<noteq> None"
  by (auto simp: error_reply_def handle_error_def Let_def split: option.split)

fun survive :: "hook list \<Rightarrow> exchange \<Rightarrow> exchange option" where
  "survive [] ex = Some ex"
| "survive (h # hs) ex = (case h ex of Inl _ \<Rightarrow> None
     | Inr ex' \<Rightarrow> if sent (ex_reply ex') = None then survive hs ex' else None)"

lemma survive_append: "survive (as @ bs) ex = Option.bind (survive as ex) (survive bs)"
  by (induction as arbitrary: ex) (auto split: sum.split)

lemma run_survives:
  assumes "lifecycle run" and "sent (ex_reply (run hs ex)) = None"
  shows "survive hs ex = Some (run hs ex)"
  using assms(2)
proof (induction hs arbitrary: ex)
  case Nil
  then show ?case by (simp add: run_Nil [OF assms(1)])
next
  case (Cons h hs)
  show ?case
  proof (cases "h ex")
    case (Inl err)
    then have "run (h # hs) ex = error_reply err ex" by (simp add: run_Cons [OF assms(1)])
    with Cons.prems error_reply_sent [of err ex] show ?thesis by simp
  next
    case (Inr ex')
    then have "sent (ex_reply ex') = None" "run (h # hs) ex = run hs ex'"
      using Cons.prems by (auto simp: run_Cons [OF assms(1)] split: if_splits)
    with Inr Cons.IH [of ex'] Cons.prems show ?thesis by simp
  qed
qed

lemma run_keeps:
  assumes "lifecycle run" and "sent (ex_reply ex) = None" and "P ex"
    and "\<And>h x x'. h \<in> set hs \<Longrightarrow> sent (ex_reply x) = None \<Longrightarrow> P x \<Longrightarrow> h x = Inr x' \<Longrightarrow> P x'"
    and "\<And>err x. sent (ex_reply x) = None \<Longrightarrow> P x \<Longrightarrow> P (error_reply err x)"
  shows "P (run hs ex)"
  using assms(2-4)
proof (induction hs arbitrary: ex)
  case Nil
  then show ?case by (simp add: run_Nil [OF assms(1)])
next
  case (Cons h hs)
  show ?case
  proof (cases "h ex")
    case (Inl err)
    then show ?thesis using assms(5) Cons.prems(1,2) by (simp add: run_Cons [OF assms(1)])
  next
    case (Inr ex')
    then have "P ex'" using Cons.prems(3) [of h ex ex'] Cons.prems(1,2) by simp
    have rest: "P x'" if "g \<in> set hs" "sent (ex_reply x) = None" "P x" "g x = Inr x'" for g x x'
      using Cons.prems(3) [of g x x'] that by simp
    show ?thesis
    proof (cases "sent (ex_reply ex') = None")
      case True
      have "P (run hs ex')"
        by (rule Cons.IH [OF True \<open>P ex'\<close> rest])
      then show ?thesis using Inr True by (simp add: run_Cons [OF assms(1)])
    next
      case False
      then show ?thesis using Inr \<open>P ex'\<close> by (auto simp: run_Cons [OF assms(1)])
    qed
  qed
qed

subsection \<open>Passing a hook\<close>

lemma context_pass:
  "context_hook rnd ex = Inr (ex\<lparr>ex_request := fst (request_context_hook rnd (ex_request ex) (ex_reply ex)),
     ex_reply := snd (request_context_hook rnd (ex_request ex) (ex_reply ex))\<rparr>)"
  by (simp add: context_hook_def split: prod.split)

lemma filter_pass:
  assumes "filter_hook f ex = Inr ex'" and "sent (ex_reply ex') = None"
    and "route_ip_filter (req_route (ex_request ex)) \<noteq> Some False"
  shows "ex' = ex \<and> \<not> ip_blocked f (req_ip (ex_request ex))"
  using assms
  by (auto simp: filter_hook_def ip_filter_hook_def split: if_splits option.splits)

lemma shed_pass:
  assumes "shed_hook config overloaded ex = Inr ex'" and "sent (ex_reply ex') = None"
    and "route_shed (req_route (ex_request ex)) \<noteq> Some False"
  shows "ex' = ex \<and> \<not> overloaded"
  using assms by (auto simp: shed_hook_def pressure_handler_def Let_def split: if_splits option.splits)

lemma replay_hit_sent: "sent (replay_hit hit reply) \<noteq> None"
  by (auto simp: replay_hit_def split: option.split)

lemma serve_pass:
  assumes "cache_serve_hook sha256 env service ex = Inr ex'" and "sent (ex_reply ex') = None"
  shows "(\<exists>key. ex_request ex' = (ex_request ex)\<lparr>cache_key := key\<rparr>) \<and> ex_tokens ex' = ex_tokens ex"
proof (cases "may_serve (ex_request ex)")
  case False
  have "(ex_request ex)\<lparr>cache_key := cache_key (ex_request ex)\<rparr> = ex_request ex" by simp
  with False assms(1) show ?thesis
    by (auto simp: cache_serve_hook_def serve_not_allowed intro: exI [of _ "cache_key (ex_request ex)"])
next
  case True
  obtain lg where "serve_hook sha256 env service (ex_log ex) (ex_request ex) (ex_reply ex) =
    (if has_word ''no-cache'' (header_text (req_header (ex_request ex) HdrCacheControl))
     then Inr (lg, (ex_request ex)\<lparr>cache_key := cache_key_of sha256 service (ex_request ex)\<rparr>, ex_reply ex)
     else case found env (cache_key_of sha256 service (ex_request ex)) of
        None \<Rightarrow> Inr (lg, (ex_request ex)\<lparr>cache_key := cache_key_of sha256 service (ex_request ex)\<rparr>, ex_reply ex)
      | Some j \<Rightarrow>
          if json_falsy j
          then Inr (lg, (ex_request ex)\<lparr>cache_key := cache_key_of sha256 service (ex_request ex)\<rparr>, ex_reply ex)
          else (case entry_of_json j of
              None \<Rightarrow> Inl (Error ''malformed cache entry'')
            | Some hit \<Rightarrow> Inr (lg, (ex_request ex)\<lparr>cache_key := []\<rparr>, replay_hit hit (ex_reply ex))))"
    using serve_allowed [OF True, of sha256 env service "ex_log ex" "ex_reply ex"] by blast
  with assms show ?thesis
    using replay_hit_sent
    by (auto simp: cache_serve_hook_def split: if_splits option.splits)
qed

lemma context_fields [simp]:
  "req_route (fst (request_context_hook rnd req reply)) = req_route req"
  "req_ip (fst (request_context_hook rnd req reply)) = req_ip req"
  "sent (snd (request_context_hook rnd req reply)) = sent reply"
  by (simp_all add: request_context_hook_def Let_def split: prod.split)

lemma entry_pass:
  assumes "survive (entry_hooks w app) ex = Some ex'" and "service_request ex"
  shows "ex' = ex\<lparr>ex_request := fst (request_context_hook (w_random w) (ex_request ex) (ex_reply ex)),
      ex_reply := snd (request_context_hook (w_random w) (ex_request ex) (ex_reply ex))\<rparr>"
    and "\<forall>f. app_ip_filter app = Some f \<longrightarrow> \<not> ip_blocked f (req_ip (ex_request ex))"
    and "\<not> w_overloaded w (app_pressure app)"
proof -
  define ex1 where "ex1 = ex\<lparr>
    ex_request := fst (request_context_hook (w_random w) (ex_request ex) (ex_reply ex)),
    ex_reply := snd (request_context_hook (w_random w) (ex_request ex) (ex_reply ex))\<rparr>"
  let ?shed = "shed_hook (app_config app) (w_overloaded w (app_pressure app))"
  have fields: "req_ip (ex_request ex1) = req_ip (ex_request ex)"
    "route_shed (req_route (ex_request ex1)) \<noteq> Some False"
    "route_ip_filter (req_route (ex_request ex1)) \<noteq> Some False" "sent (ex_reply ex1) = None"
    using assms(2) by (simp_all add: ex1_def service_request_def)
  have c: "context_hook (w_random w) ex = Inr ex1" by (simp add: context_pass ex1_def)
  have shed: "x = y \<and> \<not> w_overloaded w (app_pressure app)"
    if "survive [?shed] x = Some y" "x = ex1" for x y
    using that fields(2) by (auto split: sum.splits if_splits dest!: shed_pass)
  have "ex' = ex1 \<and> (\<forall>f. app_ip_filter app = Some f \<longrightarrow> \<not> ip_blocked f (req_ip (ex_request ex)))
    \<and> \<not> w_overloaded w (app_pressure app)"
  proof (cases "app_ip_filter app")
    case None
    with assms(1) c fields(4) have "survive [?shed] ex1 = Some ex'"
      by (simp add: entry_hooks_def)
    from shed [OF this] None show ?thesis by simp
  next
    case (Some f)
    with assms(1) c fields(4) obtain ex2 where f: "filter_hook f ex1 = Inr ex2"
      "sent (ex_reply ex2) = None" "survive [?shed] ex2 = Some ex'"
      by (auto simp: entry_hooks_def split: sum.splits if_splits)
    from filter_pass [OF f(1,2) fields(3)] have "ex2 = ex1"
      "\<not> ip_blocked f (req_ip (ex_request ex))" by (simp_all add: fields(1))
    with shed [OF f(3)] Some show ?thesis by simp
  qed
  then show "ex' = ex\<lparr>ex_request := fst (request_context_hook (w_random w) (ex_request ex) (ex_reply ex)),
      ex_reply := snd (request_context_hook (w_random w) (ex_request ex) (ex_reply ex))\<rparr>"
    "\<forall>f. app_ip_filter app = Some f \<longrightarrow> \<not> ip_blocked f (req_ip (ex_request ex))"
    "\<not> w_overloaded w (app_pressure app)"
    by (simp_all add: ex1_def)
qed

lemma serve_hooks_pass:
  assumes "survive (List.map_filter (\<lambda>h. case h of
      ServeHook name \<Rightarrow> Some (cache_serve_hook sha256 env name) | StoreHook _ \<Rightarrow> None) hs) ex = Some ex'"
  shows "(\<exists>key. ex_request ex' = (ex_request ex)\<lparr>cache_key := key\<rparr>) \<and> ex_tokens ex' = ex_tokens ex"
  using assms
proof (induction hs arbitrary: ex)
  case Nil
  have "ex_request ex = (ex_request ex)\<lparr>cache_key := cache_key (ex_request ex)\<rparr>" by simp
  with Nil show ?case by (auto simp: List.map_filter_def intro: exI [of _ "cache_key (ex_request ex)"])
next
  case (Cons h hs)
  show ?case
  proof (cases h)
    case (ServeHook name)
    with Cons.prems obtain ex1 where e: "cache_serve_hook sha256 env name ex = Inr ex1"
      "sent (ex_reply ex1) = None" and rest: "survive (List.map_filter (\<lambda>h. case h of
        ServeHook name \<Rightarrow> Some (cache_serve_hook sha256 env name) | StoreHook _ \<Rightarrow> None) hs) ex1 = Some ex'"
      by (auto simp: List.map_filter_simps split: sum.splits if_splits)
    from serve_pass [OF e] Cons.IH [OF rest] show ?thesis by auto
  next
    case (StoreHook name)
    with Cons show ?thesis by (simp add: List.map_filter_simps)
  qed
qed

lemma service_pass:
  assumes "survive (service_hooks sha256 w m) ex = Some ex'"
  shows "(\<exists>key. ex_request ex' = (ex_request ex)\<lparr>cache_key := key\<rparr>) \<and> ex_tokens ex' = ex_tokens ex
    \<and> (mount_hooks m = [] \<longrightarrow> ex' = ex)"
  using assms serve_hooks_pass [of sha256 "w_cache w" "mount_hooks m" ex ex']
  by (auto simp: service_hooks_def List.map_filter_def)

lemma guard_admits:
  assumes "tagging_guard guard" and "guard_hook env guard ex = Inr ex'"
    and "sent (ex_reply ex) = None" and "sent (ex_reply ex') = None"
  shows "ex_request ex' = ex_request ex \<and> admits guard env (ex_tokens ex) (ex_request ex)"
proof -
  obtain st req reply where g: "guard env (ex_tokens ex) (ex_request ex) (ex_reply ex) = (st, req, reply)"
    by (cases "guard env (ex_tokens ex) (ex_request ex) (ex_reply ex)") auto
  with assms(2,4) have e: "ex_request ex' = req" "sent reply = None"
    by (auto simp: guard_hook_def)
  from auth_guard.sent_iff_refused [OF tagging_guard.axioms(1) [OF assms(1)] assms(3) g] e(2)
    auth_guard.outcome [OF tagging_guard.axioms(1) [OF assms(1)] assms(3) g]
  have "req = ex_request ex" by (auto simp: passes_def)
  moreover have "admits guard env (ex_tokens ex) (ex_request ex)"
    using tagging_guard.verdict [OF assms(1,3) fresh_unsent, of env "ex_tokens ex" "ex_request ex"] g e(2)
    by (simp add: admits_def)
  ultimately show ?thesis using e(1) by simp
qed

lemma route_pass:
  assumes "survive (route_hooks w app m) ex = Some ex'" and "limiter_law (w_limit w)"
    and "\<And>guard. mount_guard m = Some guard \<Longrightarrow> tagging_guard guard"
  shows "ex_request ex' = ex_request ex
    \<and> (\<forall>guard. mount_guard m = Some guard \<longrightarrow> admits guard (w_auth w) (ex_tokens ex) (ex_request ex))"
proof -
  from assms(1) obtain ex1 where l: "w_limit w (app_rate_limit app) ex = Inr ex1"
    "sent (ex_reply ex1) = None"
    and rest: "survive (case mount_guard m of None \<Rightarrow> [] | Some guard \<Rightarrow> [guard_hook (w_auth w) guard]) ex1
      = Some ex'"
    by (auto simp: route_hooks_def split: sum.splits if_splits)
  from assms(2) l(1) have same: "ex_request ex1 = ex_request ex" "ex_tokens ex1 = ex_tokens ex"
    unfolding limiter_law_def by blast+
  show ?thesis
  proof (cases "mount_guard m")
    case None then show ?thesis using rest same by simp
  next
    case (Some guard)
    with rest have "guard_hook (w_auth w) guard ex1 = Inr ex'" "sent (ex_reply ex') = None"
      by (auto split: sum.splits if_splits)
    from guard_admits [OF assms(3) [OF Some] this(1) l(2) this(2)] Some same show ?thesis by simp
  qed
qed

lemma mounted:
  assumes "build_app pf env = Inr app" and "m \<in> set (app_mounts app)"
  obtains service where "service \<in> set service_gateways"
    and "to_plugin (pf_urls pf) service (instance_of_app (app_config app) (app_trust_proxy app)
        (app_strategies app) (app_has_cache app)) = Inr m"
  using mount_services_mem [OF build_app_parts(12) [OF assms(1)] assms(2)] by blast

lemma mounted_guard:
  assumes "build_app pf env = Inr app" and "m \<in> set (app_mounts app)" and "mount_guard m = Some guard"
  shows "tagging_guard guard \<and> mount_hooks m = []"
proof -
  obtain service where s: "to_plugin (pf_urls pf) service (instance_of_app (app_config app)
      (app_trust_proxy app) (app_strategies app) (app_has_cache app)) = Inr m"
    by (rule mounted [OF assms(1,2)])
  note spec = to_plugin_spec [OF s]
  from spec assms(3) have "auth_strategy (app_strategies app) (service_auth service) = Some guard"
    "service_auth service \<noteq> AuthNone"
    by (auto simp: instance_of_app_def split: if_splits)
  with registered_tagging [OF build_app_parts(7) [OF assms(1)]] spec show ?thesis by blast
qed

lemma header_rewriter_key:
  "create_header_rewriter service ua tp (req\<lparr>cache_key := key\<rparr>) hs
    = create_header_rewriter service ua tp req hs"
  by (cases "remote_address req") (simp_all add: create_header_rewriter_def peer_of_def Let_def)

lemma rewriter_ignores_key:
  assumes "build_app pf env = Inr app" and "m \<in> set (app_mounts app)"
  shows "mount_rewriter m (req\<lparr>cache_key := key\<rparr>) hs = mount_rewriter m req hs"
proof -
  obtain service where s: "to_plugin (pf_urls pf) service (instance_of_app (app_config app)
      (app_trust_proxy app) (app_strategies app) (app_has_cache app)) = Inr m"
    by (rule mounted [OF assms])
  then have "mount_rewriter m = create_header_rewriter service
      (map_option encode_basic_auth (truthy (upstream_credentials service (app_config app))))
      (app_trust_proxy app)"
    using to_plugin_spec [OF s] by (simp add: instance_of_app_def)
  then show ?thesis by (simp only: header_rewriter_key)
qed

lemma forwarded_gates:
  assumes "lifecycle run" and "limiter_law (w_limit w)" and "build_app pf env = Inr app"
    and "m \<in> set (app_mounts app)" and "service_request ex"
    and "snd (handle_request run base (pf_sha256 pf) w app m ex) = Forwarded up hs"
  defines "traced \<equiv> fst (request_context_hook (w_random w) (ex_request ex) (ex_reply ex))"
  shows "(\<forall>f. app_ip_filter app = Some f \<longrightarrow> \<not> ip_blocked f (req_ip (ex_request ex)))
    \<and> \<not> w_overloaded w (app_pressure app)
    \<and> (\<forall>guard. mount_guard m = Some guard \<longrightarrow> admits guard (w_auth w) (ex_tokens ex) traced)
    \<and> up = mount_upstream m \<and> hs = mount_rewriter m traced (base (req_headers traced))"
proof -
  let ?hooks = "entry_hooks w app @ service_hooks (pf_sha256 pf) w m @ route_hooks w app m"
  from assms(6) have unsent: "sent (ex_reply (run ?hooks ex)) = None"
    and out: "up = mount_upstream m" "hs = mount_rewriter m (ex_request (run ?hooks ex))
      (base (req_headers (ex_request (run ?hooks ex))))"
    by (auto simp: handle_request_def Let_def split: if_splits)
  from run_survives [OF assms(1) unsent] obtain ex1 ex2 where
    entry: "survive (entry_hooks w app) ex = Some ex1"
    and service: "survive (service_hooks (pf_sha256 pf) w m) ex1 = Some ex2"
    and route: "survive (route_hooks w app m) ex2 = Some (run ?hooks ex)"
    by (auto simp: survive_append bind_eq_Some_conv)
  note e = entry_pass [OF entry assms(5)] and s = service_pass [OF service]
  have r: "ex_request (run ?hooks ex) = ex_request ex2
    \<and> (\<forall>guard. mount_guard m = Some guard \<longrightarrow> admits guard (w_auth w) (ex_tokens ex2) (ex_request ex2))"
    using route_pass [OF route assms(2)] mounted_guard [OF assms(3,4)] by blast
  from e(1) have t: "ex_request ex1 = traced" "ex_tokens ex1 = ex_tokens ex"
    by (simp_all add: traced_def)
  from s r t obtain key where k: "ex_request (run ?hooks ex) = traced\<lparr>cache_key := key\<rparr>" by auto
  have "hs = mount_rewriter m traced (base (req_headers traced))"
    using out(2) by (simp add: k rewriter_ignores_key [OF assms(3,4)])
  moreover have "admits guard (w_auth w) (ex_tokens ex) traced" if "mount_guard m = Some guard" for guard
    using r s t mounted_guard [OF assms(3,4) that] that by simp
  ultimately show ?thesis using e(2,3) out(1) by blast
qed

text \<open>C1. Nothing reaches an upstream without passing every gate: for a booted application, on any
  mounted service and in any world, a forwarded request comes from an address the IP filter does
  not block, was not shed, and is admitted by the service's guard as it stands after the trace
  context was attached; the upstream is the service's own, and it sees exactly the rewritten headers
  of that request. No hook in between changes them.\<close>
theorem forwarded_passed_every_gate:
  assumes "lifecycle run" and "limiter_law (w_limit w)" and "build_app pf env = Inr app"
    and "m \<in> set (app_mounts app)" and "service_request ex"
    and "snd (handle_request run base (pf_sha256 pf) w app m ex) = Forwarded up hs"
  defines "traced \<equiv> fst (request_context_hook (w_random w) (ex_request ex) (ex_reply ex))"
  shows "(\<forall>f. app_ip_filter app = Some f \<longrightarrow> \<not> ip_blocked f (req_ip (ex_request ex)))
    \<and> \<not> w_overloaded w (app_pressure app)
    \<and> (\<forall>guard. mount_guard m = Some guard \<longrightarrow> admits guard (w_auth w) (ex_tokens ex) traced)
    \<and> up = mount_upstream m \<and> hs = mount_rewriter m traced (base (req_headers traced))"
  unfolding traced_def using forwarded_gates [OF assms(1-6)] .

subsection \<open>Cheap rejections\<close>

lemma run_stop:
  assumes "lifecycle run" and "survive hs ex = None"
  shows "run (hs @ hs') ex = run hs ex"
  using assms(2)
  by (induction hs arbitrary: ex) (auto simp: run_Cons [OF assms(1)] split: sum.splits)

definition gate_status :: "app \<Rightarrow> string \<Rightarrow> nat" where
  "gate_status app ip =
     (case app_ip_filter app of None \<Rightarrow> 503 | Some f \<Rightarrow> if ip_blocked f ip then 403 else 503)"

definition gate_message :: "app \<Rightarrow> string \<Rightarrow> string" where
  "gate_message app ip = (if gate_status app ip = 403 then ''Forbidden'' else ''Gateway overloaded'')"

definition gated :: "world \<Rightarrow> app \<Rightarrow> string \<Rightarrow> bool" where
  "gated w app ip \<longleftrightarrow> (\<exists>f. app_ip_filter app = Some f \<and> ip_blocked f ip)
     \<or> w_overloaded w (app_pressure app)"

lemma filter_verdicts:
  assumes "sent (ex_reply ex) = None" and "route_ip_filter (req_route (ex_request ex)) \<noteq> Some False"
  shows "if ip_blocked f (req_ip (ex_request ex))
    then (\<exists>ex'. filter_hook f ex = Inr ex' \<and> rejected_with 403 ''Forbidden'' (ex_request ex) (ex_reply ex')
        \<and> ex_tokens ex' = ex_tokens ex)
    else filter_hook f ex = Inr ex"
  using assms by (auto simp: filter_hook_def ip_filter_hook_def rejected_with_def)

lemma shed_verdict:
  assumes "sent (ex_reply ex) = None" and "route_shed (req_route (ex_request ex)) \<noteq> Some False"
  shows "\<exists>ex'. shed_hook config True ex = Inr ex'
    \<and> rejected_with 503 ''Gateway overloaded'' (ex_request ex) (ex_reply ex') \<and> ex_tokens ex' = ex_tokens ex"
  using assms by (simp add: shed_hook_def pressure_handler_def rejected_with_def Let_def)

lemma rejected_sent: "rejected_with status msg req reply \<Longrightarrow> sent reply \<noteq> None"
  by (simp add: rejected_with_def)

lemma run_gated:
  assumes "lifecycle run" and "service_request ex" and "gated w app (req_ip (ex_request ex))"
  shows "rejected_with (gate_status app (req_ip (ex_request ex))) (gate_message app (req_ip (ex_request ex)))
      (ex_request ex) (ex_reply (run (entry_hooks w app) ex))
    \<and> ex_tokens (run (entry_hooks w app) ex) = ex_tokens ex"
proof -
  note step = run_Cons [OF assms(1)] run_Nil [OF assms(1)]
  define ex1 where "ex1 = ex\<lparr>
    ex_request := fst (request_context_hook (w_random w) (ex_request ex) (ex_reply ex)),
    ex_reply := snd (request_context_hook (w_random w) (ex_request ex) (ex_reply ex))\<rparr>"
  let ?shed = "shed_hook (app_config app) (w_overloaded w (app_pressure app))"
  have ex1: "req_ip (ex_request ex1) = req_ip (ex_request ex)" "sent (ex_reply ex1) = None"
    "route_shed (req_route (ex_request ex1)) \<noteq> Some False"
    "route_ip_filter (req_route (ex_request ex1)) \<noteq> Some False" "ex_tokens ex1 = ex_tokens ex"
    using assms(2) by (simp_all add: ex1_def service_request_def)
  have same: "rejected_with status msg (ex_request ex1) = rejected_with status msg (ex_request ex)" for status msg
    by (rule ext) (simp add: rejected_with_def ex1_def hook_unfold(1))
  have c: "context_hook (w_random w) ex = Inr ex1" by (simp add: context_pass ex1_def)
  have shed: "rejected_with 503 ''Gateway overloaded'' (ex_request ex) (ex_reply (run [?shed] ex1))
      \<and> ex_tokens (run [?shed] ex1) = ex_tokens ex" if "w_overloaded w (app_pressure app)"
    using shed_verdict [OF ex1(2,3), of "app_config app"] that ex1(5) rejected_sent same by (auto simp: step)
  show ?thesis
  proof (cases "app_ip_filter app")
    case None
    then have "run (entry_hooks w app) ex = run [?shed] ex1"
      by (simp add: entry_hooks_def step c ex1(2))
    with None shed assms(3) show ?thesis by (simp add: gate_status_def gate_message_def gated_def)
  next
    case (Some f)
    then have r: "run (entry_hooks w app) ex = run [filter_hook f, ?shed] ex1"
      by (simp add: entry_hooks_def step(1) [of "context_hook (w_random w)"] c ex1(2))
    note v = filter_verdicts [OF ex1(2,4), of f, unfolded ex1(1) same]
    show ?thesis
    proof (cases "ip_blocked f (req_ip (ex_request ex))")
      case True
      with v obtain ex2 where ex2: "filter_hook f ex1 = Inr ex2"
        "rejected_with 403 ''Forbidden'' (ex_request ex) (ex_reply ex2)" "ex_tokens ex2 = ex_tokens ex"
        using ex1(5) by auto
      obtain p where "sent (ex_reply ex2) = Some p" using rejected_sent [OF ex2(2)] by blast
      with ex2(1) have "run [filter_hook f, ?shed] ex1 = ex2" by (simp add: step)
      with ex2 r True Some show ?thesis by (simp add: gate_status_def gate_message_def)
    next
      case False
      with v have "run [filter_hook f, ?shed] ex1 = run [?shed] ex1"
        by (simp add: step(1) [of "filter_hook f"] ex1(2))
      with r False Some shed assms(3) show ?thesis by (simp add: gate_status_def gate_message_def gated_def)
    qed
  qed
qed

lemma gated_requests:
  assumes "lifecycle run" and "service_request ex" and "gated w app (req_ip (ex_request ex))"
  shows "handle_request run base sha256 (w\<lparr>w_limit := limit, w_auth := auth, w_cache := cache\<rparr>) app m ex
      = handle_request run base sha256 w app m ex
    \<and> ex_tokens (fst (handle_request run base sha256 w app m ex)) = ex_tokens ex
    \<and> (\<exists>r. snd (handle_request run base sha256 w app m ex) = Answered r
         \<and> rejected_with (gate_status app (req_ip (ex_request ex))) (gate_message app (req_ip (ex_request ex)))
             (ex_request ex) r)"
proof -
  have stop: "run (entry_hooks w app @ hs) ex = run (entry_hooks w app) ex" for hs
  proof (rule run_stop [OF assms(1)])
    show "survive (entry_hooks w app) ex = None"
      using entry_pass(2,3) [OF _ assms(2)] assms(3) unfolding gated_def
      by (cases "survive (entry_hooks w app) ex") blast+
  qed
  have same: "entry_hooks (w\<lparr>w_limit := limit, w_auth := auth, w_cache := cache\<rparr>) app = entry_hooks w app"
    by (simp add: entry_hooks_def)
  from run_gated [OF assms] show ?thesis
    using rejected_sent unfolding handle_request_def same stop Let_def by auto
qed

text \<open>C19. Blocked and shed traffic is rejected on the cheapest path: when the IP filter blocks the
  address or the instance is overloaded, the answer (403 \<open>Forbidden\<close>, else 503 \<open>Gateway overloaded\<close>, in
  the uniform body under the request's id) is the gateway's, and the rate limiter, the guard with its
  token introspection and the cache are never consulted: whatever they would do, the whole exchange is
  the same.\<close>
theorem cheap_rejections:
  assumes "lifecycle run" and "service_request ex" and "gated w app (req_ip (ex_request ex))"
  shows "handle_request run base sha256 (w\<lparr>w_limit := limit, w_auth := auth, w_cache := cache\<rparr>) app m ex
      = handle_request run base sha256 w app m ex
    \<and> ex_tokens (fst (handle_request run base sha256 w app m ex)) = ex_tokens ex
    \<and> (\<exists>r. snd (handle_request run base sha256 w app m ex) = Answered r
         \<and> rejected_with (gate_status app (req_ip (ex_request ex))) (gate_message app (req_ip (ex_request ex)))
             (ex_request ex) r)"
  using assms by (rule gated_requests)

subsection \<open>Probes\<close>

text \<open>A route the gateway answers itself: the entry hooks, the limiter, then the handler.\<close>

definition handle_own_route ::
    "(hook list \<Rightarrow> exchange \<Rightarrow> exchange) \<Rightarrow> world \<Rightarrow> app \<Rightarrow> (request \<Rightarrow> reply \<Rightarrow> reply) \<Rightarrow> exchange \<Rightarrow> reply" where
  "handle_own_route run w app handler ex =
     ex_reply (run (entry_hooks w app @ [w_limit w (app_rate_limit app),
       \<lambda>ex. Inr (ex\<lparr>ex_reply := handler (ex_request ex) (ex_reply ex)\<rparr>)]) ex)"

lemma own_route_exempt:
  assumes "lifecycle run" and "limiter_law (w_limit w)"
    and "req_route (ex_request ex) = probe_options url" and "sent (ex_reply ex) = None"
  shows "handle_own_route run w app handler ex
    = handler (fst (request_context_hook (w_random w) (ex_request ex) (ex_reply ex)))
        (snd (request_context_hook (w_random w) (ex_request ex) (ex_reply ex)))"
proof -
  note step = run_Cons [OF assms(1)] run_Nil [OF assms(1)]
  define ex1 where "ex1 = ex\<lparr>
    ex_request := fst (request_context_hook (w_random w) (ex_request ex) (ex_reply ex)),
    ex_reply := snd (request_context_hook (w_random w) (ex_request ex) (ex_reply ex))\<rparr>"
  have c: "context_hook (w_random w) ex = Inr ex1" by (simp add: context_pass ex1_def)
  have ex1: "req_route (ex_request ex1) = probe_options url" "sent (ex_reply ex1) = None"
    by (simp_all add: ex1_def assms(3,4))
  have f: "filter_hook f ex1 = Inr ex1" for f
    by (simp add: filter_hook_def ip_filter_hook_def ex1(1) probe_options_def)
  have s: "shed_hook config ovl ex1 = Inr ex1" for config ovl
    by (simp add: shed_hook_def pressure_handler_def ex1(1) probe_options_def)
  have l: "w_limit w options ex1 = Inr ex1" for options
    using assms(2) ex1(1) unfolding limiter_law_def by (auto simp: probe_options_def)
  have "handle_own_route run w app handler ex = handler (ex_request ex1) (ex_reply ex1)"
    by (cases "app_ip_filter app")
      (simp_all add: handle_own_route_def entry_hooks_def step c f s l ex1(2))
  then show ?thesis by (simp add: ex1_def)
qed

text \<open>C39. The probes answer whatever happens to the traffic: from a blocked address, on an overloaded
  instance and past any rate limit, liveness is 200, and readiness is 503 exactly while the instance
  drains or is under pressure, 200 otherwise. So an overload or an IP list never fails a liveness
  probe and never restarts the instance.\<close>
theorem probes_always_answer:
  assumes "lifecycle run" and "limiter_law (w_limit w)"
    and "req_route (ex_request ex) = probe_options url" and "sent (ex_reply ex) = None"
    and "status_code (ex_reply ex) = 200"
  shows "status_code (handle_own_route run w app (\<lambda>_. healthz) ex) = 200
    \<and> sent (handle_own_route run w app (\<lambda>_. healthz) ex) = Some (StatusPayload ''ok'')
    \<and> status_code (handle_own_route run w app (\<lambda>_. readyz st) ex)
        = (if shutting_down st \<or> under_pressure st then 503 else 200)"
proof -
  have "status_code (snd (request_context_hook (w_random w) (ex_request ex) (ex_reply ex))) = 200"
    using assms(5) by (simp add: request_context_hook_def Let_def split: prod.split)
  then show ?thesis
    by (simp add: own_route_exempt [OF assms(1-4)] healthz_def readyz_def assms(4))
qed

subsection \<open>Correlation\<close>

definition correlated :: "string \<Rightarrow> string \<Rightarrow> exchange \<Rightarrow> bool" where
  "correlated rid cid ex \<longleftrightarrow> req_id (ex_request ex) = rid
     \<and> header_of (reply_headers (ex_reply ex)) HdrRequestId = Some (HStr rid)
     \<and> header_of (reply_headers (ex_reply ex)) HdrCorrelationId = Some (HStr cid)
     \<and> (\<forall>body. sent (ex_reply ex) = Some (ErrorPayload body) \<longrightarrow> eb_request_id body = rid)"

lemma correlated_error:
  "sent (ex_reply ex) = None \<Longrightarrow> correlated rid cid ex \<Longrightarrow> correlated rid cid (error_reply err ex)"
  by (auto simp: correlated_def error_reply_def handle_error_def Let_def error_body_of_def)

lemma correlated_filter:
  "filter_hook f ex = Inr ex' \<Longrightarrow> sent (ex_reply ex) = None \<Longrightarrow> correlated rid cid ex
    \<Longrightarrow> correlated rid cid ex'"
  by (auto simp: correlated_def filter_hook_def ip_filter_hook_def error_body_of_def split: if_splits)

lemma correlated_shed:
  "shed_hook config ovl ex = Inr ex' \<Longrightarrow> sent (ex_reply ex) = None \<Longrightarrow> correlated rid cid ex
    \<Longrightarrow> correlated rid cid ex'"
  by (auto simp: correlated_def shed_hook_def pressure_handler_def error_body_of_def Let_def
      split: if_splits)

lemma correlated_limit:
  "limiter_law limit \<Longrightarrow> limit options ex = Inr ex' \<Longrightarrow> correlated rid cid ex \<Longrightarrow> correlated rid cid ex'"
  unfolding limiter_law_def correlated_def correlation_keys_def by (metis insertI1 insertI2)

lemma correlated_guard:
  assumes "tagging_guard guard" and "guard_hook env guard ex = Inr ex'"
    and "sent (ex_reply ex) = None" and "correlated rid cid ex"
  shows "correlated rid cid ex'"
proof -
  obtain st req reply where g: "guard env (ex_tokens ex) (ex_request ex) (ex_reply ex) = (st, req, reply)"
    by (cases "guard env (ex_tokens ex) (ex_request ex) (ex_reply ex)") auto
  from assms(2) g have ex': "ex_request ex' = req" "ex_reply ex' = reply" by (auto simp: guard_hook_def)
  have "header_of (reply_headers reply) k = header_of (reply_headers (ex_reply ex)) k"
    if "k \<noteq> HdrWwwAuthenticate" for k
    using tagging_guard.reply_tags [OF assms(1) g that] .
  moreover have "req_id req = req_id (ex_request ex)
      \<and> (\<forall>body. sent reply = Some (ErrorPayload body) \<longrightarrow> eb_request_id body = req_id (ex_request ex))"
    using auth_guard.outcome [OF tagging_guard.axioms(1) [OF assms(1)] assms(3) g] assms(3)
    by (auto simp: passes_def refuses_def rejected_with_def error_body_of_def)
  ultimately show ?thesis using assms(4) by (simp add: correlated_def ex')
qed

lemma replay_headers_other:
  "n \<notin> fst ` set hs \<Longrightarrow> reply_headers (replay_headers hs reply) n = reply_headers reply n"
proof (induction hs arbitrary: reply)
  case (Cons h hs)
  then show ?case by (cases h) (auto simp: replay_headers_def)
qed (simp add: replay_headers_def)

lemma correlated_hit:
  assumes "fst ` set (cr_headers hit) \<subseteq> header_name ` set stored_headers"
    and "correlated rid cid ex" and "sent (ex_reply ex) = None"
    and "ex_request ex' = (ex_request ex)\<lparr>cache_key := key\<rparr>" and "ex_reply ex' = replay_hit hit (ex_reply ex)"
  shows "correlated rid cid ex'"
proof -
  have "header_name k \<notin> fst ` set (cr_headers hit)" if "k \<in> correlation_keys" for k
    using assms(1) that by (auto simp: correlation_keys_def stored_headers_def header_name.simps)
  then have "header_of (reply_headers (replay_headers (cr_headers hit) (ex_reply ex))) k
      = header_of (reply_headers (ex_reply ex)) k" if "k \<in> correlation_keys" for k
    using that replay_headers_other by (simp add: header_of_def)
  then show ?thesis using assms(2,3)
    by (auto simp: correlated_def assms(4,5) replay_hit_def correlation_keys_def)
qed

lemma correlated_serve:
  assumes "own_entries env" and "cache_serve_hook sha256 env service ex = Inr ex'"
    and "sent (ex_reply ex) = None" and "correlated rid cid ex"
  shows "correlated rid cid ex'"
proof (cases "may_serve (ex_request ex)")
  case False
  then show ?thesis using assms(2,4)
    by (auto simp: cache_serve_hook_def serve_not_allowed correlated_def)
next
  case True
  let ?key = "cache_key_of sha256 service (ex_request ex)"
  have keyed: "correlated rid cid (ex\<lparr>ex_log := lg, ex_request := (ex_request ex)\<lparr>cache_key := key\<rparr>,
      ex_reply := ex_reply ex\<rparr>)" for lg key
    using assms(4) by (simp add: correlated_def)
  obtain lg where "serve_hook sha256 env service (ex_log ex) (ex_request ex) (ex_reply ex) =
    (if has_word ''no-cache'' (header_text (req_header (ex_request ex) HdrCacheControl))
     then Inr (lg, (ex_request ex)\<lparr>cache_key := ?key\<rparr>, ex_reply ex)
     else case found env ?key of
        None \<Rightarrow> Inr (lg, (ex_request ex)\<lparr>cache_key := ?key\<rparr>, ex_reply ex)
      | Some j \<Rightarrow>
          if json_falsy j then Inr (lg, (ex_request ex)\<lparr>cache_key := ?key\<rparr>, ex_reply ex)
          else (case entry_of_json j of
              None \<Rightarrow> Inl (Error ''malformed cache entry'')
            | Some hit \<Rightarrow> Inr (lg, (ex_request ex)\<lparr>cache_key := []\<rparr>, replay_hit hit (ex_reply ex))))"
    using serve_allowed [OF True, of sha256 env service "ex_log ex" "ex_reply ex"] by blast
  then consider key where "ex' = ex\<lparr>ex_log := lg, ex_request := (ex_request ex)\<lparr>cache_key := key\<rparr>,
        ex_reply := ex_reply ex\<rparr>"
    | j hit where "found env ?key = Some j" "entry_of_json j = Some hit"
        "ex_request ex' = (ex_request ex)\<lparr>cache_key := []\<rparr>" "ex_reply ex' = replay_hit hit (ex_reply ex)"
    using assms(2) by (fastforce simp: cache_serve_hook_def split: if_splits option.splits)
  then show ?thesis
  proof cases
    case 1 then show ?thesis using keyed by simp
  next
    case 2
    from assms(1) 2(1,2) have "fst ` set (cr_headers hit) \<subseteq> header_name ` set stored_headers"
      unfolding own_entries_def by blast
    from correlated_hit [OF this assms(4,3) 2(3,4)] show ?thesis .
  qed
qed

lemma context_correlates:
  assumes "context_hook rnd ex = Inr ex'" and "sent (ex_reply ex) = None"
  shows "correlated (req_id (ex_request ex)) (context_correlation_id (ex_request ex)) ex'
    \<and> sent (ex_reply ex') = None"
proof -
  have "ex' = ex\<lparr>ex_request := fst (request_context_hook rnd (ex_request ex) (ex_reply ex)),
      ex_reply := snd (request_context_hook rnd (ex_request ex) (ex_reply ex))\<rparr>"
    using assms(1) context_pass by simp
  then show ?thesis using assms(2)
    by (simp add: correlated_def header_of_def header_name.simps hook_unfold)
qed

lemma request_correlates:
  assumes "lifecycle run" and "limiter_law (w_limit w)" and "own_entries (w_cache w)"
    and "build_app pf env = Inr app" and "m \<in> set (app_mounts app)" and "sent (ex_reply ex) = None"
  shows "correlated (req_id (ex_request ex)) (context_correlation_id (ex_request ex))
    (fst (handle_request run base sha256 w app m ex))"
proof -
  let ?P = "correlated (req_id (ex_request ex)) (context_correlation_id (ex_request ex))"
  let ?rest = "(case app_ip_filter app of None \<Rightarrow> [] | Some f \<Rightarrow> [filter_hook f])
     @ [shed_hook (app_config app) (w_overloaded w (app_pressure app))]
     @ service_hooks sha256 w m @ route_hooks w app m"
  obtain ex1 where c: "context_hook (w_random w) ex = Inr ex1" using context_pass by blast
  note ex1 = context_correlates [OF c assms(6)]
  have "?P (run ?rest ex1)"
  proof (rule run_keeps [OF assms(1)])
    fix h x x'
    assume h: "h \<in> set ?rest" and x: "sent (ex_reply x) = None" "?P x" "h x = Inr x'"
    from h consider f where "h = filter_hook f"
      | "h = shed_hook (app_config app) (w_overloaded w (app_pressure app))"
      | name where "h = cache_serve_hook sha256 (w_cache w) name"
      | "h = w_limit w (app_rate_limit app)"
      | guard where "mount_guard m = Some guard" "h = guard_hook (w_auth w) guard"
      by (cases "app_ip_filter app"; cases "mount_guard m")
        (fastforce simp: service_hooks_def route_hooks_def List.map_filter_def
          split: service_hook.splits if_splits)+
    then show "?P x'"
    proof cases
      case 1 then show ?thesis using correlated_filter x by blast
    next
      case 2 then show ?thesis using correlated_shed x by blast
    next
      case 3 then show ?thesis using correlated_serve [OF assms(3)] x by blast
    next
      case 4 then show ?thesis using correlated_limit [OF assms(2)] x by blast
    next
      case 5 then show ?thesis using correlated_guard mounted_guard [OF assms(4,5)] x by blast
    qed
  qed (use ex1 correlated_error in auto)
  then show ?thesis using ex1
    by (simp add: handle_request_def Let_def entry_hooks_def
        run_Cons [OF assms(1), of "context_hook (w_random w)"] c)
qed

text \<open>Every answer can be traced: whatever a request to a mounted service meets (blocked, shed, limited,
  refused by any guard, failed in a hook, served from the cache, or forwarded), the reply carries
  the request id and the correlation id the upstream would see, and an error body names that same
  request id.\<close>
theorem answers_correlate:
  assumes "lifecycle run" and "limiter_law (w_limit w)" and "own_entries (w_cache w)"
    and "build_app pf env = Inr app" and "m \<in> set (app_mounts app)" and "sent (ex_reply ex) = None"
  shows "correlated (req_id (ex_request ex)) (context_correlation_id (ex_request ex))
    (fst (handle_request run base sha256 w app m ex))"
  using assms by (rule request_correlates)

subsection \<open>A concrete application\<close>

fun run_hooks :: "hook list \<Rightarrow> exchange \<Rightarrow> exchange" where
  "run_hooks [] ex = ex"
| "run_hooks (h # hs) ex = (case h ex of Inl err \<Rightarrow> error_reply err ex
     | Inr ex' \<Rightarrow> if sent (ex_reply ex') = None then run_hooks hs ex' else ex')"

lemma run_hooks_lifecycle: "lifecycle run_hooks"
  by (simp add: lifecycle_def)

definition app_settings :: settings where
  "app_settings = default_settings(''GATEWAY_API_KEY'' \<mapsto> TextValue ''s3cret'',
     ''IP_DENY_LIST'' \<mapsto> TextValue ''192.0.2.0/24'')"

text \<open>A library that knows pino's levels and the \<open>http(s)\<close> upstreams with a host.\<close>

definition pino_levels :: "string list" where
  "pino_levels = [''fatal'', ''error'', ''warn'', ''info'', ''debug'', ''trace'', ''silent'']"

fun sample_register :: "registration \<Rightarrow> unit result" where
  "sample_register (RegFastify options) =
     (if lc_level (fo_logger options) \<in> set pino_levels then Inr () else Inl (Error ''unknown level''))"
| "sample_register (RegProxy up) =
     (if up \<in> {''http://'', ''https://''} then Inl (Error ''Invalid URL'') else Inr ())"
| "sample_register _ = Inr ()"

definition sample_platform :: platform where
  "sample_platform = \<lparr>pf_sha256 = (\<lambda>b. b), pf_url_parses = (\<lambda>_. True), pf_urls = sample_urls,
     pf_validate = (\<lambda>_. Inr app_settings), pf_connect = (\<lambda>_. Inr ()), pf_register = sample_register\<rparr>"

lemma app_settings_values:
  "CORS_ALLOW_CREDENTIALS (typed_config app_settings) = False"
  "IP_ALLOW_LIST (typed_config app_settings) = []"
  "IP_DENY_LIST (typed_config app_settings) = ''192.0.2.0/24''"
  "BASIC_AUTH_USERS (typed_config app_settings) = []"
  "JWT_JWKS_URI (typed_config app_settings) = []"
  "REDIS_URL (typed_config app_settings) = []"
  "CACHE_ENABLED (typed_config app_settings) = False"
  "GATEWAY_API_KEY (typed_config app_settings) = ''s3cret''"
  "USERS_SERVICE_URL (typed_config app_settings) = ''http://localhost:3001''"
  "ORDERS_SERVICE_URL (typed_config app_settings) = ''http://localhost:3002''"
  "PUBLIC_SERVICE_URL (typed_config app_settings) = ''http://localhost:3003''"
  unfolding typed_config_def gateway_config.select_convs app_settings_def
  by code_simp+

definition deny_filter :: ip_filter where
  "deny_filter = \<lparr>filter_allow = None, filter_deny = Some [SubnetRule (V4 3221225984) 24]\<rparr>"

lemma deny_filter_values:
  "ip_filter_plugin (typed_config app_settings) = Inr (Some deny_filter)"
  "\<not> ip_blocked deny_filter ''203.0.113.9''"
  "ip_blocked deny_filter ''192.0.2.7''"
proof -
  have "build_ip_list ''192.0.2.0/24'' = Inr (filter_deny deny_filter)" "build_ip_list [] = Inr None"
    by code_simp+
  then show "ip_filter_plugin (typed_config app_settings) = Inr (Some deny_filter)"
    by (simp add: ip_filter_plugin_def app_settings_values deny_filter_def)
  show "\<not> ip_blocked deny_filter ''203.0.113.9''"
    "ip_blocked deny_filter ''192.0.2.7''"
    by code_simp+
qed

lemma sample_factory:
  "\<exists>factory. factory_options_of Map.empty = Inr factory \<and> registers sample_platform (RegFastify factory)"
proof -
  have n: "destination_names Map.empty = [''console'']" by code_simp
  have "parse_destinations Map.empty = Inr {''console''}"
    unfolding parse_destinations_def n by (simp add: valid_destinations_def)
  moreover obtain target where "log_target_for Map.empty {''console''} (Decimal 0 0) = Inr target"
    by (simp add: log_target_for_def)
  ultimately have "build_logger_options Map.empty
      = Inr \<lparr>lc_level = ''info'', lc_redact = redact_paths, lc_target = target\<rparr>"
    by (simp add: build_logger_options_def env_number_def env_or_def)
  then show ?thesis
    by (auto simp: factory_options_of_def env_boolean_def env_enum_def env_number_def registers_def
        sample_platform_def pino_levels_def)
qed

lemma sample_registers:
  assumes "pf_register pf = sample_register"
    and "{USERS_SERVICE_URL config, ORDERS_SERVICE_URL config, PUBLIC_SERVICE_URL config}
      \<inter> {''http://'', ''https://''} = {}"
  shows "registers pf (RegCors cors)" and "registers pf (RegPressure pressure)"
    and "registers pf (RegRateLimit limit)"
    and "\<forall>service \<in> set service_gateways. registers pf (RegProxy (upstream_of service config))"
proof -
  show "\<forall>service \<in> set service_gateways. registers pf (RegProxy (upstream_of service config))"
    using assms(2) by (auto simp: registers_def assms(1) service_gateways_def)
qed (simp_all add: registers_def assms(1))

lemma sample_accepted: "config_accepted sample_platform (typed_config app_settings)"
proof -
  have "\<exists>l. build_ip_list ''192.0.2.0/24'' = Inr l" "\<exists>l. build_ip_list [] = Inr l"
    using deny_filter_values(1) by (auto simp: ip_filter_plugin_def app_settings_values)
  then have "list_all valid_entry (list_items ''192.0.2.0/24'')" "list_all valid_entry (list_items [])"
    by (simp_all only: build_ip_list_ok_iff)
  moreover have "\<exists>users. parse_user_list [] = Inr users"
    by (simp add: parse_user_list_def)
  ultimately show ?thesis
    using sample_registers [of sample_platform "typed_config app_settings"]
    by (simp add: config_accepted_def app_settings_values sample_platform_def)
qed

lemma mount_services_first:
  "mount_services pf inst (s # ss) = Inr ms \<Longrightarrow> \<exists>m. to_plugin (pf_urls pf) s inst = Inr m \<and> m \<in> set ms"
  by auto

lemma sample_app:
  obtains app m where "build_app sample_platform Map.empty = Inr app"
    and "app_config app = typed_config app_settings" and "app_ip_filter app = Some deny_filter"
    and "m \<in> set (app_mounts app)"
    and "mount_guard m = Some (create_api_key_strategy (\<lambda>b. b) ''s3cret'')"
    and "mount_hooks m = []"
proof -
  obtain factory where "factory_options_of Map.empty = Inr factory" "registers sample_platform (RegFastify factory)"
    using sample_factory by blast
  moreover have "pf_validate sample_platform Map.empty = Inr app_settings"
    by (simp add: sample_platform_def)
  ultimately obtain app where app: "build_app sample_platform Map.empty = Inr app"
    and config: "app_config app = typed_config app_settings"
    using build_app_ok sample_accepted by blast
  note parts = build_app_parts [OF app]
  have filter: "app_ip_filter app = Some deny_filter"
    using parts(6) deny_filter_values(1) by (simp add: config)
  let ?inst = "instance_of_app (app_config app) (app_trust_proxy app) (app_strategies app) (app_has_cache app)"
  from parts(12) obtain m where m: "to_plugin (pf_urls sample_platform) users_gateway ?inst = Inr m"
    "m \<in> set (app_mounts app)"
    using mount_services_first unfolding service_gateways_def by blast
  have "auth_strategy (app_strategies app) AuthApiKey
      = Some (create_api_key_strategy (\<lambda>b. b) ''s3cret'')"
    by (rule auth_plugin_registry [OF parts(7)])
      (simp add: config app_settings_values sample_platform_def)
  with to_plugin_spec [OF m(1)]
  have "mount_guard m = Some (create_api_key_strategy (\<lambda>b. b) ''s3cret'')"
    by (simp add: instance_of_app_def)
  with that app config filter m(2) mounted_guard [OF app m(2)] show thesis by blast
qed

definition sample_world :: world where
  "sample_world = \<lparr>w_random = sample_random, w_overloaded = (\<lambda>_. False),
     w_limit = (\<lambda>_ ex. Inr ex), w_auth = sample_env,
     w_cache = \<lparr>redis_status = ''end'', redis_get = (\<lambda>_. RedisTimedOut)\<rparr>\<rparr>"

definition sample_exchange :: "string \<Rightarrow> exchange" where
  "sample_exchange ip = \<lparr>ex_request = (sample_request ''GET'' [(HdrApiKey, ''s3cret'')])\<lparr>req_ip := ip\<rparr>,
     ex_reply = fresh_reply, ex_tokens = [], ex_log = \<lparr>bindings = [], log_lines = []\<rparr>\<rparr>"

lemma sample_written: "gateway_written (w_cache sample_world)"
  by (simp add: gateway_written_def sample_world_def)

lemma sample_laws:
  "limiter_law (w_limit sample_world)" "own_entries (w_cache sample_world)"
  "sent (ex_reply (sample_exchange ip)) = None" "service_request (sample_exchange ip)"
  "req_ip (ex_request (sample_exchange ip)) = ip"
  by (simp_all add: limiter_law_def own_entries_def sample_world_def found_def lookup_entry_def
      sample_exchange_def service_request_def sample_request_def)

lemma traced_api_key:
  "req_header (fst (request_context_hook rnd (ex_request (sample_exchange ip)) reply)) HdrApiKey
    = Some (HStr ''s3cret'')"
proof -
  have "req_headers (fst (request_context_hook rnd (ex_request (sample_exchange ip)) reply)) ''x-api-key''
      = req_headers (ex_request (sample_exchange ip)) ''x-api-key''"
    by (simp add: hook_unfold)
  then show ?thesis
    by (simp add: req_header_def header_of_def header_name.simps sample_exchange_def sample_request_def
        set_header_def)
qed

lemma sample_forwarded:
  assumes "build_app sample_platform Map.empty = Inr app" and "app_ip_filter app = Some deny_filter"
    and "mount_guard m = Some (create_api_key_strategy (\<lambda>b. b) ''s3cret'')" and "mount_hooks m = []"
  shows "\<exists>up hs. snd (handle_request run_hooks id (pf_sha256 sample_platform) sample_world app m
      (sample_exchange ''203.0.113.9'')) = Forwarded up hs"
proof -
  let ?ex = "sample_exchange ''203.0.113.9''"
  define ex1 where "ex1 = ?ex\<lparr>
    ex_request := fst (request_context_hook sample_random (ex_request ?ex) (ex_reply ?ex)),
    ex_reply := snd (request_context_hook sample_random (ex_request ?ex) (ex_reply ?ex))\<rparr>"
  have c: "context_hook sample_random ?ex = Inr ex1" by (simp add: context_pass ex1_def)
  have unsent: "sent (ex_reply ex1) = None" by (simp add: ex1_def sample_laws(3))
  have "req_ip (ex_request ex1) = ''203.0.113.9''" by (simp add: ex1_def sample_laws(5))
  then have f: "filter_hook deny_filter ex1 = Inr ex1"
    by (simp add: filter_hook_def ip_filter_hook_def deny_filter_values(2))
  have s: "shed_hook config False ex1 = Inr ex1" for config by (simp add: shed_hook_def)
  have "req_header (ex_request ex1) HdrApiKey = Some (HStr ''s3cret'')"
    by (simp add: ex1_def traced_api_key)
  then have "create_api_key_strategy (\<lambda>b. b) ''s3cret'' sample_env (ex_tokens ex1) (ex_request ex1) (ex_reply ex1)
      = (ex_tokens ex1, ex_request ex1, ex_reply ex1)"
    by (simp add: create_api_key_strategy_def)
  then have g: "guard_hook sample_env (create_api_key_strategy (\<lambda>b. b) ''s3cret'') ex1 = Inr ex1"
    by (simp add: guard_hook_def)
  have "service_hooks sha256 sample_world m = []" for sha256
    by (simp add: service_hooks_def assms(4) List.map_filter_def)
  then show ?thesis
    by (simp add: handle_request_def entry_hooks_def route_hooks_def assms(2,3) sample_world_def
        c f s g unsent)
qed

theorem forwarded_passed_every_gate_witness:
  "\<exists>app m hs. build_app sample_platform Map.empty = Inr app \<and> m \<in> set (app_mounts app)
    \<and> snd (handle_request run_hooks id (pf_sha256 sample_platform) sample_world app m
        (sample_exchange ''203.0.113.9'')) = Forwarded (mount_upstream m) hs
    \<and> \<not> ip_blocked deny_filter ''203.0.113.9''"
proof -
  obtain app m where app: "build_app sample_platform Map.empty = Inr app"
    "app_ip_filter app = Some deny_filter" "m \<in> set (app_mounts app)"
    "mount_guard m = Some (create_api_key_strategy (\<lambda>b. b) ''s3cret'')" "mount_hooks m = []"
    using sample_app by blast
  obtain up hs where f: "snd (handle_request run_hooks id (pf_sha256 sample_platform) sample_world app m
      (sample_exchange ''203.0.113.9'')) = Forwarded up hs"
    using sample_forwarded [OF app(1,2,4,5)] by blast
  from forwarded_passed_every_gate [OF run_hooks_lifecycle sample_laws(1) app(1,3) sample_laws(4) f]
  have "up = mount_upstream m" "\<not> ip_blocked deny_filter ''203.0.113.9''"
    using app(2) by (auto simp: sample_laws(5))
  with f app(1,3) show ?thesis by blast
qed

theorem cheap_rejections_witness:
  "\<exists>app m r. build_app sample_platform Map.empty = Inr app
    \<and> snd (handle_request run_hooks id (\<lambda>b. b) sample_world app m (sample_exchange ''192.0.2.7'')) = Answered r
    \<and> rejected_with 403 ''Forbidden'' (ex_request (sample_exchange ''192.0.2.7'')) r"
proof -
  obtain app m where app: "build_app sample_platform Map.empty = Inr app"
    "app_ip_filter app = Some deny_filter"
    using sample_app by blast
  let ?ip = "req_ip (ex_request (sample_exchange ''192.0.2.7''))"
  have g: "gated sample_world app ?ip" and s: "gate_status app ?ip = 403" "gate_message app ?ip = ''Forbidden''"
    by (simp_all add: gated_def gate_status_def gate_message_def app(2) sample_laws(5) deny_filter_values(3))
  from cheap_rejections [OF run_hooks_lifecycle sample_laws(4) g] app(1) show ?thesis
    unfolding s by blast
qed

theorem answers_correlate_witness:
  "\<exists>app m. build_app sample_platform Map.empty = Inr app \<and> m \<in> set (app_mounts app)
    \<and> correlated ''req-1'' ''req-1'' (fst (handle_request run_hooks id (\<lambda>b. b) sample_world app m
        (sample_exchange ''192.0.2.7'')))"
proof -
  obtain app m where app: "build_app sample_platform Map.empty = Inr app" "m \<in> set (app_mounts app)"
    using sample_app by blast
  have "req_id (ex_request (sample_exchange ip)) = ''req-1''"
    "context_correlation_id (ex_request (sample_exchange ip)) = ''req-1''" for ip
    by (simp_all add: sample_exchange_def sample_request_def context_correlation_id_def req_header_def
        header_of_def set_header_def header_name.simps)
  with answers_correlate [OF run_hooks_lifecycle sample_laws(1,2) app sample_laws(3)] app
  show ?thesis by metis
qed

theorem probes_always_answer_witness:
  "\<exists>app. build_app sample_platform Map.empty = Inr app
    \<and> status_code (handle_own_route run_hooks sample_world app (\<lambda>_. healthz)
        ((sample_exchange ''192.0.2.7'')\<lparr>ex_request :=
          (ex_request (sample_exchange ''192.0.2.7''))\<lparr>req_route := probe_options ''/healthz''\<rparr>\<rparr>)) = 200"
proof -
  obtain app where app: "build_app sample_platform Map.empty = Inr app" using sample_app by blast
  show ?thesis
    using probes_always_answer [OF run_hooks_lifecycle sample_laws(1)] app
    by (auto simp: sample_exchange_def fresh_reply_def)
qed

theorem booted_app_well_formed_witness:
  "\<exists>app. build_app sample_platform Map.empty = Inr app
    \<and> map mount_prefix (app_mounts app) = [''/api/users'', ''/api/orders'', ''/api/public'']"
proof -
  obtain app where app: "build_app sample_platform Map.empty = Inr app" using sample_app by blast
  have c: "conforms app_settings" by code_simp
  have v: "pf_validate sample_platform Map.empty = Inr app_settings" by (simp add: sample_platform_def)
  have "\<forall>st. pf_validate sample_platform Map.empty = Inr st \<longrightarrow> conforms st"
    unfolding v sum.inject using c by blast
  note routes = booted_app_well_formed [OF app this, THEN conjunct1]
  show ?thesis by (rule exI, rule conjI, rule app, rule routes)
qed

end
