(* ===== verification/Traffic.thy ===== *)
theory Traffic
  imports App
begin

section \<open>Requests from arrival to completion\<close>

text \<open>
  What follows the hooks of theory \<open>App\<close>: the upstream's answer or failure, the \<open>onSend\<close> hooks of the
  service (\<open>core/service-gateway.ts\<close>, \<open>plugins/cache.ts\<close>), and the \<open>onResponse\<close> hooks of
  \<open>plugins/logging.ts\<close>, \<open>plugins/metrics.ts\<close> and \<open>plugins/alerts.ts\<close> in registration order.
  \<open>serve_request\<close> is one request, \<open>serve_all\<close> the requests of an instance in the order they complete,
  which is the order in which they touch its state (\<open>traffic_state\<close>); every request brings its own
  world, so the state of Redis and of the token cache at its time is free.

  \<open>@fastify/http-proxy\<close> is a parameter: what it makes of a forwarded request, an error or a reply,
  with its documented law (\<open>proxy_law\<close>).
\<close>

subsection \<open>The upstream's answer\<close>

record upstream_answer =
  ua_status :: nat
  ua_headers :: headers
  ua_body :: stream

type_synonym proxy = "string \<Rightarrow> headers \<Rightarrow> exchange \<Rightarrow> fastify_error + reply"

text \<open>The proxy library throws when the upstream fails, and otherwise replies with the upstream's
  status and body stream, the upstream's headers set over those of the reply.\<close>

definition relays :: "upstream_answer \<Rightarrow> reply \<Rightarrow> reply \<Rightarrow> bool" where
  "relays a reply reply' \<longleftrightarrow> status_code reply' = ua_status a
     \<and> sent reply' = Some (StreamPayload (ua_body a))
     \<and> (\<forall>n. reply_headers reply' n =
          (case ua_headers a n of Some v \<Rightarrow> Some v | None \<Rightarrow> reply_headers reply n))"

definition proxy_law :: "proxy \<Rightarrow> bool" where
  "proxy_law px \<longleftrightarrow> (\<forall>up hs ex reply'. sent (ex_reply ex) = None \<longrightarrow> px up hs ex = Inr reply'
     \<longrightarrow> (\<exists>a. relays a (ex_reply ex) reply'))"

definition proxied :: "proxy \<Rightarrow> string \<Rightarrow> headers \<Rightarrow> exchange \<Rightarrow> exchange" where
  "proxied px up hs ex =
     (case px up hs ex of Inl err \<Rightarrow> error_reply err ex | Inr reply \<Rightarrow> ex\<lparr>ex_reply := reply\<rparr>)"

subsection \<open>The hooks after the handler\<close>

text \<open>The \<open>onSend\<close> hooks of the service's scope, with what they ask of Redis.\<close>

fun send_hooks :: "gateway_config \<Rightarrow> service_hook list \<Rightarrow> exchange \<Rightarrow> exchange \<times> store_command list" where
  "send_hooks config [] ex = (ex, [])"
| "send_hooks config (ServeHook _ # hs) ex = send_hooks config hs ex"
| "send_hooks config (StoreHook _ # hs) ex =
     (case sent (ex_reply ex) of
        None \<Rightarrow> send_hooks config hs ex
      | Some p \<Rightarrow>
          (let (reply, p', command) = store_hook config (ex_request ex) (ex_reply ex) p;
               (ex', commands) = send_hooks config hs (ex\<lparr>ex_reply := reply\<lparr>sent := Some p'\<rparr>\<rparr>)
           in (ex', (case command of None \<Rightarrow> [] | Some c \<Rightarrow> [c]) @ commands)))"

text \<open>The state the completed requests of an instance leave: the metrics, the time of the last alert,
  and the alerts handed to delivery.\<close>

record traffic_state =
  tr_metrics :: registry
  tr_last_alert :: int
  tr_alerts :: "(int \<times> string) list"

definition quiet :: traffic_state where
  "quiet = \<lparr>tr_metrics = empty_registry, tr_last_alert = 0, tr_alerts = []\<rparr>"

definition alert_response :: "app \<Rightarrow> int \<Rightarrow> request \<Rightarrow> reply \<Rightarrow> traffic_state \<Rightarrow> traffic_state" where
  "alert_response app now req reply st =
     (case app_alerts app of
        None \<Rightarrow> st
      | Some al \<Rightarrow>
          (case alert_hook al now (tr_last_alert st) req reply of
             (last_sent, message) \<Rightarrow> st\<lparr>tr_last_alert := last_sent,
               tr_alerts := tr_alerts st @ (case message of None \<Rightarrow> [] | Some m \<Rightarrow> [(now, m)])\<rparr>))"

definition on_response :: "app \<Rightarrow> int \<Rightarrow> int \<Rightarrow> exchange \<Rightarrow> traffic_state \<Rightarrow> exchange \<times> traffic_state" where
  "on_response app now elapsed ex st =
     (let req = logging_on_response (app_logging app) elapsed (ex_request ex) (ex_reply ex);
          st = st\<lparr>tr_metrics := metrics_hook elapsed req (ex_reply ex) (tr_metrics st)\<rparr>
      in (ex\<lparr>ex_request := req\<rparr>, alert_response app now req (ex_reply ex) st))"

text \<open>One request on a mounted service.\<close>

record arrival =
  ar_world :: world
  ar_mount :: mount
  ar_proxy :: proxy
  ar_exchange :: exchange
  ar_now :: int
  ar_elapsed :: int

record completed =
  co_outcome :: route_outcome
  co_exchange :: exchange
  co_commands :: "store_command list"
  co_time :: int

text \<open>What follows the hooks of a request, whether they answered it or not.\<close>

definition complete_request ::
    "app \<Rightarrow> arrival \<Rightarrow> exchange \<times> route_outcome \<Rightarrow> traffic_state \<Rightarrow> completed \<times> traffic_state" where
  "complete_request app a handled st =
     (let (ex, outcome) = handled;
          ex = (case outcome of Answered _ \<Rightarrow> ex | Forwarded up hs \<Rightarrow> proxied (ar_proxy a) up hs ex);
          (ex, commands) = send_hooks (app_config app) (mount_hooks (ar_mount a)) ex;
          (ex, st) = on_response app (ar_now a) (ar_elapsed a) ex st
      in (\<lparr>co_outcome = outcome, co_exchange = ex, co_commands = commands, co_time = ar_now a\<rparr>, st))"

definition serve_request ::
    "(hook list \<Rightarrow> exchange \<Rightarrow> exchange) \<Rightarrow> (headers \<Rightarrow> headers) \<Rightarrow> hash \<Rightarrow> app \<Rightarrow> arrival
       \<Rightarrow> traffic_state \<Rightarrow> completed \<times> traffic_state" where
  "serve_request run base sha256 app a =
     complete_request app a (handle_request run base sha256 (ar_world a) app (ar_mount a) (ar_exchange a))"

fun serve_all ::
    "(hook list \<Rightarrow> exchange \<Rightarrow> exchange) \<Rightarrow> (headers \<Rightarrow> headers) \<Rightarrow> hash \<Rightarrow> app \<Rightarrow> arrival list
       \<Rightarrow> traffic_state \<Rightarrow> completed list \<times> traffic_state" where
  "serve_all run base sha256 app [] st = ([], st)"
| "serve_all run base sha256 app (a # as) st =
     (let (c, st) = serve_request run base sha256 app a st;
          (cs, st) = serve_all run base sha256 app as st
      in (c # cs, st))"

subsection \<open>What the completion hooks read\<close>

definition completion :: "completed \<Rightarrow> response" where
  "completion c = \<lparr>resp_time = co_time c, resp_request = ex_request (co_exchange c),
     resp_reply = ex_reply (co_exchange c)\<rparr>"

lemma logging_fields [simp]:
  "req_id (logging_on_response hooks elapsed req reply) = req_id req"
  "req_method (logging_on_response hooks elapsed req reply) = req_method req"
  "req_url (logging_on_response hooks elapsed req reply) = req_url req"
  "req_route (logging_on_response hooks elapsed req reply) = req_route req"
  "req_headers (logging_on_response hooks elapsed req reply) = req_headers req"
  by (simp_all add: logging_on_response_def Let_def split: option.split)

lemma alert_response_simps [simp]:
  "tr_metrics (alert_response app now req reply st) = tr_metrics st"
  by (auto simp: alert_response_def split: option.split prod.split)

lemma on_response_simps:
  "fst (on_response app now elapsed ex st) = ex\<lparr>ex_request :=
     logging_on_response (app_logging app) elapsed (ex_request ex) (ex_reply ex)\<rparr>"
  "tr_metrics (snd (on_response app now elapsed ex st)) = metrics_hook elapsed
     (ex_request (fst (on_response app now elapsed ex st))) (ex_reply ex) (tr_metrics st)"
  "snd (on_response app now elapsed ex st) = alert_response app now
     (ex_request (fst (on_response app now elapsed ex st))) (ex_reply ex)
     (st\<lparr>tr_metrics := tr_metrics (snd (on_response app now elapsed ex st))\<rparr>)"
  by (simp_all add: on_response_def Let_def)

text \<open>The exchange as the handler leaves it, after the upstream.\<close>

definition answered ::
    "(hook list \<Rightarrow> exchange \<Rightarrow> exchange) \<Rightarrow> (headers \<Rightarrow> headers) \<Rightarrow> hash \<Rightarrow> app \<Rightarrow> arrival \<Rightarrow> exchange" where
  "answered run base sha256 app a =
     (let (ex, outcome) = handle_request run base sha256 (ar_world a) app (ar_mount a) (ar_exchange a)
      in case outcome of Answered _ \<Rightarrow> ex | Forwarded up hs \<Rightarrow> proxied (ar_proxy a) up hs ex)"

lemma serve_request_eq:
  "serve_request run base sha256 app a st =
     (let (ex, commands) = send_hooks (app_config app) (mount_hooks (ar_mount a)) (answered run base sha256 app a);
          (ex, st) = on_response app (ar_now a) (ar_elapsed a) ex st
      in (\<lparr>co_outcome = snd (handle_request run base sha256 (ar_world a) app (ar_mount a) (ar_exchange a)),
           co_exchange = ex, co_commands = commands, co_time = ar_now a\<rparr>, st))"
  by (simp add: serve_request_def complete_request_def answered_def split_beta Let_def)

lemma serve_request_parts:
  assumes "send_hooks (app_config app) (mount_hooks (ar_mount a)) (answered run base sha256 app a) = (ex, cs)"
  shows "co_outcome (fst (serve_request run base sha256 app a st))
      = snd (handle_request run base sha256 (ar_world a) app (ar_mount a) (ar_exchange a))"
    and "co_commands (fst (serve_request run base sha256 app a st)) = cs"
    and "co_time (fst (serve_request run base sha256 app a st)) = ar_now a"
    and "co_exchange (fst (serve_request run base sha256 app a st))
      = ex\<lparr>ex_request := logging_on_response (app_logging app) (ar_elapsed a) (ex_request ex) (ex_reply ex)\<rparr>"
    and "snd (serve_request run base sha256 app a st) = snd (on_response app (ar_now a) (ar_elapsed a) ex st)"
  by (simp_all add: serve_request_eq assms split_beta Let_def on_response_simps(1))

lemma serve_request_metrics:
  "tr_metrics (snd (serve_request run base sha256 app a st)) = metrics_hook (ar_elapsed a)
     (ex_request (co_exchange (fst (serve_request run base sha256 app a st))))
     (ex_reply (co_exchange (fst (serve_request run base sha256 app a st)))) (tr_metrics st)
   \<and> co_time (fst (serve_request run base sha256 app a st)) = ar_now a"
proof -
  obtain ex cs where s: "send_hooks (app_config app) (mount_hooks (ar_mount a))
      (answered run base sha256 app a) = (ex, cs)" by fastforce
  show ?thesis by (simp add: serve_request_parts [OF s] on_response_def Let_def)
qed

lemma serve_request_alerts:
  fixes run :: "hook list \<Rightarrow> exchange \<Rightarrow> exchange" and base :: "headers \<Rightarrow> headers" and sha256 :: hash
    and app :: app and a :: arrival and st :: traffic_state
  defines "c \<equiv> completion (fst (serve_request run base sha256 app a st))"
  shows "tr_last_alert (snd (serve_request run base sha256 app a st)) = (case app_alerts app of
        None \<Rightarrow> tr_last_alert st
      | Some al \<Rightarrow> fst (alert_hook al (resp_time c) (tr_last_alert st) (resp_request c) (resp_reply c)))"
    and "tr_alerts (snd (serve_request run base sha256 app a st)) = tr_alerts st @ (case app_alerts app of
        None \<Rightarrow> []
      | Some al \<Rightarrow> (case snd (alert_hook al (resp_time c) (tr_last_alert st) (resp_request c) (resp_reply c))
          of None \<Rightarrow> [] | Some m \<Rightarrow> [(resp_time c, m)]))"
proof -
  obtain ex cs where s: "send_hooks (app_config app) (mount_hooks (ar_mount a))
      (answered run base sha256 app a) = (ex, cs)" by fastforce
  show "tr_last_alert (snd (serve_request run base sha256 app a st)) = (case app_alerts app of
        None \<Rightarrow> tr_last_alert st
      | Some al \<Rightarrow> fst (alert_hook al (resp_time c) (tr_last_alert st) (resp_request c) (resp_reply c)))"
    "tr_alerts (snd (serve_request run base sha256 app a st)) = tr_alerts st @ (case app_alerts app of
        None \<Rightarrow> []
      | Some al \<Rightarrow> (case snd (alert_hook al (resp_time c) (tr_last_alert st) (resp_request c) (resp_reply c))
          of None \<Rightarrow> [] | Some m \<Rightarrow> [(resp_time c, m)]))"
    by (simp_all add: c_def completion_def serve_request_parts [OF s] on_response_def Let_def
        alert_response_def split_beta split: option.split)
qed

subsection \<open>Counting and alerting\<close>

lemma serve_all_alerts:
  "tr_alerts (snd (serve_all run base sha256 app as st)) = tr_alerts st @
     (case app_alerts app of None \<Rightarrow> []
      | Some al \<Rightarrow> alert_run al (tr_last_alert st) (map completion (fst (serve_all run base sha256 app as st))))"
proof (induction as arbitrary: st)
  case Nil
  then show ?case by (simp split: option.split)
next
  case (Cons a as)
  show ?case
    using Cons.IH [of "snd (serve_request run base sha256 app a st)"]
    by (simp add: split_beta Let_def serve_request_alerts split: option.split)
qed

lemma alert_run_sound:
  "list_all (\<lambda>(t, m). \<exists>r \<in> set rs. resp_time r = t \<and> al_threshold al \<le> status_code (resp_reply r)
     \<and> m = alert_message (resp_request r) (resp_reply r)) (alert_run al t0 rs)"
proof (induction rs arbitrary: t0)
  case (Cons r rs)
  then show ?case by (auto simp: alert_hook_def list_all_iff split: prod.splits) blast+
qed simp

text \<open>C16. Alerts follow the final replies: over the whole traffic of an instance, an instance without
  alerting hands nothing to delivery, and one with alerting exactly the run of the throttle over the
  replies the clients got. So every alert names a request whose final status reached the threshold,
  at the time it completed, and consecutive alerts are at least \<open>ALERT_THROTTLE_MS\<close> apart.\<close>
theorem traffic_alerts:
  "case app_alerts app of
     None \<Rightarrow> tr_alerts (snd (serve_all run base sha256 app as quiet)) = []
   | Some al \<Rightarrow>
       tr_alerts (snd (serve_all run base sha256 app as quiet))
         = alert_run al 0 (map completion (fst (serve_all run base sha256 app as quiet)))
       \<and> spaced (al_throttle_ms al) 0 (map fst (tr_alerts (snd (serve_all run base sha256 app as quiet))))
       \<and> list_all (\<lambda>(t, m). \<exists>c \<in> set (fst (serve_all run base sha256 app as quiet)).
            co_time c = t \<and> al_threshold al \<le> status_code (ex_reply (co_exchange c))
            \<and> m = alert_message (ex_request (co_exchange c)) (ex_reply (co_exchange c)))
           (tr_alerts (snd (serve_all run base sha256 app as quiet)))"
proof (cases "app_alerts app")
  case None
  then show ?thesis using serve_all_alerts [of run base sha256 app as quiet] by (simp add: quiet_def)
next
  case (Some al)
  let ?done = "fst (serve_all run base sha256 app as quiet)"
  have e: "tr_alerts (snd (serve_all run base sha256 app as quiet)) = alert_run al 0 (map completion ?done)"
    using serve_all_alerts [of run base sha256 app as quiet] Some by (simp add: quiet_def)
  have "list_all (\<lambda>(t, m). \<exists>c \<in> set ?done. co_time c = t
      \<and> al_threshold al \<le> status_code (ex_reply (co_exchange c))
      \<and> m = alert_message (ex_request (co_exchange c)) (ex_reply (co_exchange c)))
    (alert_run al 0 (map completion ?done))"
    using alert_run_sound [of "map completion ?done" al 0] by (simp add: completion_def)
  with Some e alert_run_spaced show ?thesis by simp
qed

subsection \<open>What the client receives\<close>

lemma store_hook_reply:
  assumes "store_hook config req reply p = (reply', p', c)"
  shows "p' = p \<and> status_code reply' = status_code reply
    \<and> (\<forall>n. n \<noteq> ''x-cache'' \<longrightarrow> reply_headers reply' n = reply_headers reply n)"
  using assms
  by (cases p) (auto simp: store_hook_def Let_def header_name.simps split: if_splits)

lemma send_hooks_keep:
  assumes "send_hooks config hs ex = (ex', cs)"
  shows "ex_request ex' = ex_request ex \<and> status_code (ex_reply ex') = status_code (ex_reply ex)
    \<and> sent (ex_reply ex') = sent (ex_reply ex)
    \<and> (\<forall>n. n \<noteq> ''x-cache'' \<longrightarrow> reply_headers (ex_reply ex') n = reply_headers (ex_reply ex) n)"
  using assms
proof (induction config hs ex arbitrary: ex' cs rule: send_hooks.induct)
  case (1 config ex)
  then have "ex' = ex" "cs = []" by (simp_all only: send_hooks.simps prod.inject)
  then show ?case by simp
next
  case (2 config name hs ex)
  show ?case by (rule "2.IH") (use 2 in simp)
next
  case (3 config name hs ex)
  show ?case
  proof (cases "sent (ex_reply ex)")
    case (Some p)
    obtain reply p' c where h: "store_hook config (ex_request ex) (ex_reply ex) p = (reply, p', c)"
      by (metis prod_cases3)
    obtain cs' where r: "send_hooks config hs (ex\<lparr>ex_reply := reply\<lparr>sent := Some p'\<rparr>\<rparr>) = (ex', cs')"
      using 3(3) Some h by (auto simp: Let_def split: prod.splits)
    from 3(2) [OF Some h [symmetric] refl refl r] store_hook_reply [OF h] Some show ?thesis by auto
  next
    case None
    with 3(3) have "send_hooks config hs ex = (ex', cs)" by simp
    from 3(1) [OF None this] show ?thesis .
  qed
qed

text \<open>No status but 200 is ever stored.\<close>

lemma send_hooks_status:
  assumes "send_hooks config hs ex = (ex', cs)" and "status_code (ex_reply ex) \<noteq> 200"
  shows "cs = []"
  using assms
proof (induction config hs ex arbitrary: ex' cs rule: send_hooks.induct)
  case (1 config ex)
  then have "ex' = ex" "cs = []" by (simp_all only: send_hooks.simps prod.inject)
  then show ?case by simp
next
  case (2 config name hs ex)
  show ?case by (rule "2.IH") (use 2 in simp_all)
next
  case (3 config name hs ex)
  show ?case
  proof (cases "sent (ex_reply ex)")
    case (Some p)
    obtain reply p' c where h: "store_hook config (ex_request ex) (ex_reply ex) p = (reply, p', c)"
      by (metis prod_cases3)
    obtain cs' where r: "send_hooks config hs (ex\<lparr>ex_reply := reply\<lparr>sent := Some p'\<rparr>\<rparr>) = (ex', cs')"
      and cs: "cs = (case c of None \<Rightarrow> [] | Some c \<Rightarrow> [c]) @ cs'"
      using 3(3) Some h by (auto simp: Let_def split: prod.splits)
    have "c = None" using h 3(4) by (auto simp: store_hook_def Let_def split: if_splits)
    moreover have "cs' = []"
      using 3(2) [OF Some h [symmetric] refl refl r] store_hook_reply [OF h] 3(4) by simp
    ultimately show ?thesis using cs by simp
  next
    case None
    with 3(3) have "send_hooks config hs ex = (ex', cs)" by simp
    from 3(1) [OF None this 3(4)] show ?thesis .
  qed
qed

lemma completed_reply:
  fixes run :: "hook list \<Rightarrow> exchange \<Rightarrow> exchange" and base :: "headers \<Rightarrow> headers" and digest_of :: hash
    and app :: app and a :: arrival and st :: traffic_state
  defines "c \<equiv> fst (serve_request run base digest_of app a st)" and "ex \<equiv> answered run base digest_of app a"
  shows "status_code (ex_reply (co_exchange c)) = status_code (ex_reply ex)"
    and "sent (ex_reply (co_exchange c)) = sent (ex_reply ex)"
    and "n \<noteq> ''x-cache'' \<Longrightarrow> reply_headers (ex_reply (co_exchange c)) n = reply_headers (ex_reply ex) n"
    and "req_id (ex_request (co_exchange c)) = req_id (ex_request ex)"
    and "status_code (ex_reply ex) \<noteq> 200 \<Longrightarrow> co_commands c = []"
    and "co_outcome c = snd (handle_request run base digest_of (ar_world a) app (ar_mount a) (ar_exchange a))"
proof -
  obtain ex' cs where s: "send_hooks (app_config app) (mount_hooks (ar_mount a)) ex = (ex', cs)" by fastforce
  note parts = serve_request_parts [OF s [unfolded ex_def]] and keep = send_hooks_keep [OF s]
  show "status_code (ex_reply (co_exchange c)) = status_code (ex_reply ex)"
    "sent (ex_reply (co_exchange c)) = sent (ex_reply ex)"
    "n \<noteq> ''x-cache'' \<Longrightarrow> reply_headers (ex_reply (co_exchange c)) n = reply_headers (ex_reply ex) n"
    "req_id (ex_request (co_exchange c)) = req_id (ex_request ex)"
    "co_outcome c = snd (handle_request run base digest_of (ar_world a) app (ar_mount a) (ar_exchange a))"
    unfolding c_def parts using keep by simp_all
  show "co_commands c = []" if "status_code (ex_reply ex) \<noteq> 200"
    unfolding c_def parts using send_hooks_status [OF s that] .
qed

lemma forwarded_unsent:
  assumes "snd (handle_request run base sha256 w app m ex) = Forwarded up hs"
  shows "sent (ex_reply (fst (handle_request run base sha256 w app m ex))) = None"
  using assms by (auto simp: handle_request_def Let_def split: if_splits)

subsection \<open>Counting\<close>

lemma serve_target:
  "cache_serve_hook sha256 env name x = Inr x' \<Longrightarrow> \<exists>key. ex_request x' = (ex_request x)\<lparr>cache_key := key\<rparr>"
proof -
  have k: "\<exists>key. q = q\<lparr>cache_key := key\<rparr>" for q :: request
    by (rule exI [of _ "cache_key q"]) simp
  show "cache_serve_hook sha256 env name x = Inr x' \<Longrightarrow> ?thesis"
    by (auto simp: cache_serve_hook_def serve_hook_def Let_def k
        split: if_splits sum.splits prod.splits option.splits)
qed

text \<open>No hook changes the method or the route of a request.\<close>

definition same_target :: "request \<Rightarrow> request \<Rightarrow> bool" where
  "same_target q q' \<longleftrightarrow> req_method q' = req_method q \<and> req_route q' = req_route q"

lemma error_target: "same_target (ex_request x) (ex_request (error_reply err x))"
  by (simp add: same_target_def error_reply_def handle_error_def Let_def)

lemma hook_target:
  assumes "h \<in> set (entry_hooks w app @ service_hooks sha256 w m @ route_hooks w app m)"
    and "limiter_law (w_limit w)" and "build_app pf env = Inr app" and "m \<in> set (app_mounts app)"
    and "sent (ex_reply x) = None" and "h x = Inr x'"
  shows "same_target (ex_request x) (ex_request x')"
proof -
  from assms(1) consider "h = context_hook (w_random w)" | f where "h = filter_hook f"
    | "h = shed_hook (app_config app) (w_overloaded w (app_pressure app))"
    | name where "h = cache_serve_hook sha256 (w_cache w) name"
    | "h = w_limit w (app_rate_limit app)"
    | guard where "mount_guard m = Some guard" "h = guard_hook (w_auth w) guard"
    by (cases "app_ip_filter app"; cases "mount_guard m")
      (fastforce simp: entry_hooks_def service_hooks_def route_hooks_def List.map_filter_def
        split: service_hook.splits if_splits)+
  then show ?thesis
  proof cases
    case 1
    then have "x' = x\<lparr>ex_request := fst (request_context_hook (w_random w) (ex_request x) (ex_reply x)),
        ex_reply := snd (request_context_hook (w_random w) (ex_request x) (ex_reply x))\<rparr>"
      using assms(6) context_pass by simp
    then show ?thesis
      by (simp add: same_target_def) (simp add: request_context_hook_def Let_def split: prod.split)
  next
    case 2
    then show ?thesis using assms(6)
      by (auto simp: same_target_def filter_hook_def ip_filter_hook_def split: if_splits)
  next
    case 3
    then show ?thesis using assms(6)
      by (auto simp: same_target_def shed_hook_def pressure_handler_def Let_def split: if_splits)
  next
    case (4 name)
    then show ?thesis using assms(6) serve_target [of sha256 "w_cache w" name x x']
      by (auto simp: same_target_def)
  next
    case 5
    with assms(2,6) have "ex_request x' = ex_request x" unfolding limiter_law_def by blast
    then show ?thesis by (simp add: same_target_def)
  next
    case (6 guard)
    obtain st req reply where g: "guard (w_auth w) (ex_tokens x) (ex_request x) (ex_reply x) = (st, req, reply)"
      by (cases "guard (w_auth w) (ex_tokens x) (ex_request x) (ex_reply x)") auto
    have "auth_guard guard" using mounted_guard [OF assms(3,4) 6(1)] tagging_guard.axioms(1) by blast
    from auth_guard.outcome [OF this assms(5) g] have "same_target (ex_request x) req"
      by (auto simp: same_target_def passes_def refuses_def)
    then show ?thesis using assms(6) 6(2) g by (auto simp: guard_hook_def)
  qed
qed

lemma handled_target:
  assumes "lifecycle run" and "limiter_law (w_limit w)" and "build_app pf env = Inr app"
    and "m \<in> set (app_mounts app)" and "sent (ex_reply ex) = None"
  shows "same_target (ex_request ex) (ex_request (fst (handle_request run base sha256 w app m ex)))"
proof -
  let ?hooks = "entry_hooks w app @ service_hooks sha256 w m @ route_hooks w app m"
  have trans: "same_target q r \<Longrightarrow> same_target r s \<Longrightarrow> same_target q s" for q r s
    by (simp add: same_target_def)
  have "same_target (ex_request ex) (ex_request (run ?hooks ex))"
    by (rule run_keeps [OF assms(1,5)])
      (use trans error_target hook_target [OF _ assms(2-4)] in \<open>auto simp: same_target_def\<close>)
  then show ?thesis by (simp add: handle_request_def Let_def)
qed

lemma completed_target:
  assumes "lifecycle run" and "limiter_law (w_limit (ar_world a))" and "build_app pf env = Inr app"
    and "ar_mount a \<in> set (app_mounts app)" and "sent (ex_reply (ar_exchange a)) = None"
  shows "same_target (ex_request (ar_exchange a))
    (ex_request (co_exchange (fst (serve_request run base sha256 app a st))))"
proof -
  let ?h = "handle_request run base sha256 (ar_world a) app (ar_mount a) (ar_exchange a)"
  obtain ex cs where s: "send_hooks (app_config app) (mount_hooks (ar_mount a))
      (answered run base sha256 app a) = (ex, cs)" by fastforce
  have "same_target (ex_request (fst ?h)) (ex_request (answered run base sha256 app a))"
    using error_target [of "fst ?h"]
    by (auto simp: answered_def proxied_def split_beta Let_def same_target_def split: route_outcome.split sum.split)
  with handled_target [OF assms, of base sha256] send_hooks_keep [OF s]
  show ?thesis by (simp add: serve_request_parts [OF s] same_target_def)
qed

text \<open>A request counts under its method, when it is a standard one, the pattern of its route and the status
  its client got.\<close>

definition counted_as :: "metric_labels \<Rightarrow> arrival \<Rightarrow> completed \<Rightarrow> bool" where
  "counted_as l a c \<longleftrightarrow>
     label_method l = (if req_method (ex_request (ar_exchange a)) \<in> {''GET'', ''HEAD'', ''POST'', ''PUT'', ''PATCH'',
         ''DELETE'', ''OPTIONS'', ''TRACE'', ''CONNECT''} then req_method (ex_request (ar_exchange a)) else ''OTHER'')
     \<and> label_route l = (case route_url (req_route (ex_request (ar_exchange a))) of Some pattern \<Rightarrow> pattern
         | None \<Rightarrow> ''unmatched'')
     \<and> label_status l = show_nat (status_code (ex_reply (co_exchange c)))"

lemma labels_counted:
  assumes "same_target (ex_request (ar_exchange a)) (ex_request (co_exchange c))"
  shows "request_labels (ex_request (co_exchange c)) (ex_reply (co_exchange c)) = l \<longleftrightarrow> counted_as l a c"
  using assms
  by (cases l) (auto simp: request_labels_def counted_as_def same_target_def known_http_methods_def
      other_method_label_def split: option.split)

lemma gated_completes:
  assumes "lifecycle run" and "service_request (ar_exchange a)"
    and "gated (ar_world a) app (req_ip (ex_request (ar_exchange a)))"
  shows "status_code (ex_reply (co_exchange (fst (serve_request run base sha256 app a st))))
    = gate_status app (req_ip (ex_request (ar_exchange a)))"
proof -
  let ?h = "handle_request run base sha256 (ar_world a) app (ar_mount a) (ar_exchange a)"
  from gated_requests [OF assms, of base sha256 _ _ _ "ar_mount a"] obtain r where r: "snd ?h = Answered r"
    "status_code r = gate_status app (req_ip (ex_request (ar_exchange a)))"
    unfolding rejected_with_def by blast
  then have "ex_reply (fst ?h) = r" by (auto simp: handle_request_def Let_def split: if_splits)
  with r show ?thesis by (simp add: completed_reply(1) answered_def split_beta Let_def)
qed

lemma serve_all_nth:
  "i < length as \<Longrightarrow> \<exists>st'. fst (serve_all run base sha256 app as st) ! i
     = fst (serve_request run base sha256 app (as ! i) st')"
proof (induction as arbitrary: st i)
  case (Cons a as)
  then show ?case by (cases i) (auto simp: split_beta Let_def)
qed simp

lemma serve_all_counts:
  assumes "\<And>a st l. a \<in> set as \<Longrightarrow>
      request_labels (ex_request (co_exchange (fst (serve_request run base sha256 app a st))))
        (ex_reply (co_exchange (fst (serve_request run base sha256 app a st)))) = l
      \<longleftrightarrow> counted_as l a (fst (serve_request run base sha256 app a st))"
  defines "cs \<equiv> \<lambda>as st. fst (serve_all run base sha256 app as st)"
    and "reg \<equiv> \<lambda>as st. tr_metrics (snd (serve_all run base sha256 app as st))"
  shows "length (cs as st) = length as
    \<and> requests_total (reg as st) l
        = requests_total (tr_metrics st) l + length (filter (\<lambda>(a, c). counted_as l a c) (zip as (cs as st)))
    \<and> map snd (durations (reg as st)) = map snd (durations (tr_metrics st)) @ map ar_elapsed as"
  using assms(1)
proof (induction as arbitrary: st)
  case (Cons a as)
  let ?c = "fst (serve_request run base sha256 app a st)"
  have m: "tr_metrics (snd (serve_request run base sha256 app a st)) = metrics_hook (ar_elapsed a)
      (ex_request (co_exchange ?c)) (ex_reply (co_exchange ?c)) (tr_metrics st)"
    using serve_request_metrics by blast
  have l: "request_labels (ex_request (co_exchange ?c)) (ex_reply (co_exchange ?c)) = l \<longleftrightarrow> counted_as l a ?c" for l
    by (rule Cons.prems) simp
  have "length (cs as (snd (serve_request run base sha256 app a st))) = length as
    \<and> requests_total (reg as (snd (serve_request run base sha256 app a st))) l
        = requests_total (tr_metrics (snd (serve_request run base sha256 app a st))) l
          + length (filter (\<lambda>(a, c). counted_as l a c) (zip as (cs as (snd (serve_request run base sha256 app a st)))))
    \<and> map snd (durations (reg as (snd (serve_request run base sha256 app a st))))
        = map snd (durations (tr_metrics (snd (serve_request run base sha256 app a st)))) @ map ar_elapsed as"
    by (rule Cons.IH) (rule Cons.prems, simp)
  moreover have "cs (a # as) st = ?c # cs as (snd (serve_request run base sha256 app a st))"
    "reg (a # as) st = reg as (snd (serve_request run base sha256 app a st))"
    by (simp_all add: cs_def reg_def split_beta Let_def)
  ultimately show ?case by (auto simp: m metrics_hook_def Let_def l [symmetric])
qed (simp add: cs_def reg_def)

text \<open>C15. The metrics tell what happened: over any traffic on any mounts of a booted gateway (blocked, shed,
  limited, refused, failed, cached or forwarded), each series grows by exactly the requests with its
  method, its route pattern and its status, read off the request as it arrived and the reply its client
  got, and one duration is observed per request; a client cannot make up a method or put its URL into a
  label, and every blocked or shed request counts under its gate's status.\<close>
theorem traffic_counted:
  fixes base :: "headers \<Rightarrow> headers" and sha256 :: hash and st :: traffic_state
  assumes "lifecycle run" and "build_app pf env = Inr app"
    and "\<forall>a \<in> set as. limiter_law (w_limit (ar_world a)) \<and> ar_mount a \<in> set (app_mounts app)
      \<and> service_request (ar_exchange a)"
  defines "cs \<equiv> fst (serve_all run base sha256 app as st)"
    and "reg \<equiv> tr_metrics (snd (serve_all run base sha256 app as st))"
  shows "length cs = length as
    \<and> requests_total reg l
        = requests_total (tr_metrics st) l + length (filter (\<lambda>(a, c). counted_as l a c) (zip as cs))
    \<and> map snd (durations reg) = map snd (durations (tr_metrics st)) @ map ar_elapsed as
    \<and> (\<forall>i < length as. gated (ar_world (as ! i)) app (req_ip (ex_request (ar_exchange (as ! i))))
        \<longrightarrow> counted_as l (as ! i) (cs ! i)
        \<longrightarrow> label_status l = show_nat (gate_status app (req_ip (ex_request (ar_exchange (as ! i))))))"
proof -
  have l: "request_labels (ex_request (co_exchange (fst (serve_request run base sha256 app a st))))
        (ex_reply (co_exchange (fst (serve_request run base sha256 app a st)))) = l
      \<longleftrightarrow> counted_as l a (fst (serve_request run base sha256 app a st))" if "a \<in> set as" for a st l
    by (rule labels_counted, rule completed_target [OF assms(1) _ assms(2)])
      (use that assms(3) in \<open>auto simp: service_request_def\<close>)
  have "label_status l = show_nat (gate_status app (req_ip (ex_request (ar_exchange (as ! i)))))"
    if i: "i < length as" and g: "gated (ar_world (as ! i)) app (req_ip (ex_request (ar_exchange (as ! i))))"
      and c: "counted_as l (as ! i) (cs ! i)" for i
  proof -
    obtain st' where "cs ! i = fst (serve_request run base sha256 app (as ! i) st')"
      using serve_all_nth [OF i] unfolding cs_def by metis
    moreover have "service_request (ar_exchange (as ! i))" using assms(3) i by simp
    ultimately show ?thesis using c gated_completes [OF assms(1) _ g] by (simp add: counted_as_def)
  qed
  with serve_all_counts [OF l] show ?thesis unfolding cs_def reg_def by blast
qed

subsection \<open>Failing upstreams\<close>

text \<open>What a client is told of an error of the proxy library: by its code, or for the library's wrapper,
  which hides the code, by its message; any other error keeps the status it carries.\<close>

definition failure_status :: "fastify_error \<Rightarrow> nat" where
  "failure_status err =
     (if err_code err \<in> Some ` {''UND_ERR_HEADERS_TIMEOUT'', ''UND_ERR_BODY_TIMEOUT'', ''UND_ERR_CONNECT_TIMEOUT'',
          ''ETIMEDOUT''} then 504
      else if err_code err \<in> Some ` {''ECONNREFUSED'', ''ECONNRESET'', ''ENOTFOUND'', ''EAI_AGAIN'', ''EPIPE'',
          ''UND_ERR_SOCKET'', ''UND_ERR_CLOSED'', ''UND_ERR_DESTROYED''} then 502
      else if err_code err = Some ''FST_REPLY_FROM_INTERNAL_SERVER_ERROR''
      then (if contains_ci ''timeout'' (err_message err) then 504 else 502)
      else case err_status err of Some s \<Rightarrow> s | None \<Rightarrow> 500)"

definition failure_message :: "nat \<Rightarrow> fastify_error \<Rightarrow> string" where
  "failure_message status err =
     (if status = 504 then ''Upstream timeout''
      else if status = 502 \<or> status = 503 then ''Upstream unavailable''
      else if 500 \<le> status then ''Internal gateway error'' else err_message err)"

lemma failure_told:
  "resolve_status err = failure_status err"
  "client_message (failure_status err) err = failure_message (failure_status err) err"
  by (auto simp: resolve_status_def failure_status_def failure_message_def client_message_def
      upstream_timeout_codes_def upstream_connection_codes_def reply_from_wrapper_code_def split: option.split)

text \<open>C14. A failing upstream, end to end: whatever error the proxy library throws for a forwarded request
  (a raw code of Node or undici, its own wrapper around one, or any other), the client gets the uniform
  body with its request id: 504 \<open>Upstream timeout\<close> for the timeout codes and a wrapped timeout, 502
  \<open>Upstream unavailable\<close> for the connection codes and every other wrapped failure, and else the status the
  error carries or 500, never with the text of a server error. Nothing but a 200 is handed to the cache,
  and the reply still carries the correlation ids.\<close>
theorem upstream_failure_completes:
  fixes st :: traffic_state
  assumes "lifecycle run" and "limiter_law (w_limit (ar_world a))" and "gateway_written (w_cache (ar_world a))"
    and "build_app pf env = Inr app" and "ar_mount a \<in> set (app_mounts app)"
    and "sent (ex_reply (ar_exchange a)) = None"
    and "handle_request run base sha256 (ar_world a) app (ar_mount a) (ar_exchange a) = (ex, Forwarded up hs)"
    and "ar_proxy a up hs ex = Inl err"
  defines "c \<equiv> fst (serve_request run base sha256 app a st)"
    and "rid \<equiv> req_id (ex_request (ar_exchange a))"
  shows "status_code (ex_reply (co_exchange c)) = failure_status err
    \<and> sent (ex_reply (co_exchange c))
        = Some (ErrorPayload (error_body_of rid (failure_message (failure_status err) err)))
    \<and> (failure_status err \<noteq> 200 \<longrightarrow> co_commands c = [])
    \<and> reply_headers (ex_reply (co_exchange c)) ''x-request-id'' = Some (HStr rid)
    \<and> reply_headers (ex_reply (co_exchange c)) ''x-correlation-id''
        = Some (HStr (context_correlation_id (ex_request (ar_exchange a))))"
proof -
  note reply = completed_reply [where run = run and base = base and digest_of = sha256 and app = app and a = a and st = st,
      folded c_def]
  have unsent: "sent (ex_reply ex) = None"
    using forwarded_unsent [of run base sha256 "ar_world a" app "ar_mount a" "ar_exchange a"] assms(7) by simp
  have cor: "correlated rid (context_correlation_id (ex_request (ar_exchange a))) ex"
    using request_correlates [OF assms(1,2) gateway_written_own [OF assms(3)] assms(4-6), of base sha256] assms(7)
    by (simp add: rid_def)
  have e: "answered run base sha256 app a = error_reply err ex"
    using assms(7,8) by (simp add: answered_def proxied_def)
  obtain req' reply' where h: "handle_error err (ex_request ex) (ex_reply ex) = (req', reply')"
    by fastforce
  have r: "rejected_with (failure_status err) (failure_message (failure_status err) err) (ex_request ex) reply'"
    "reply_headers reply' = reply_headers (ex_reply ex)" "ex_reply (error_reply err ex) = reply'"
    using handle_error_reply [OF unsent h] by (simp_all add: error_reply_def failure_told h)
  have "failure_status err \<noteq> 200 \<longrightarrow> co_commands c = []" using reply(5) r by (simp add: e rejected_with_def)
  moreover have "reply_headers (ex_reply (co_exchange c)) ''x-request-id'' = Some (HStr rid)"
    "reply_headers (ex_reply (co_exchange c)) ''x-correlation-id''
        = Some (HStr (context_correlation_id (ex_request (ar_exchange a))))"
    using reply(3) [of "''x-request-id''"] reply(3) [of "''x-correlation-id''"] cor r(2,3)
    by (simp_all add: e correlated_def header_of_def header_name.simps)
  ultimately show ?thesis
    using reply(1,2) r cor by (auto simp: e rejected_with_def correlated_def)
qed

text \<open>Proxying is transparent: when the upstream answers a forwarded request, the client gets the
  upstream's status and its very body stream; the upstream's own headers are kept, those the gateway
  added before remain where the upstream sets none, and the one header set afterwards is \<open>x-cache\<close>.\<close>
theorem upstream_answer_relayed:
  assumes "proxy_law (ar_proxy a)"
    and "co_outcome (fst (serve_request run base sha256 app a st)) = Forwarded up hs"
  defines "ex \<equiv> fst (handle_request run base sha256 (ar_world a) app (ar_mount a) (ar_exchange a))"
    and "c \<equiv> fst (serve_request run base sha256 app a st)"
  assumes "ar_proxy a up hs ex = Inr reply'"
  shows "\<exists>answer. relays answer (ex_reply ex) reply'
    \<and> status_code (ex_reply (co_exchange c)) = ua_status answer
    \<and> sent (ex_reply (co_exchange c)) = Some (StreamPayload (ua_body answer))
    \<and> (\<forall>n. n \<noteq> ''x-cache'' \<longrightarrow> reply_headers (ex_reply (co_exchange c)) n =
         (case ua_headers answer n of Some v \<Rightarrow> Some v | None \<Rightarrow> reply_headers (ex_reply ex) n))
    \<and> (ua_status answer \<noteq> 200 \<longrightarrow> co_commands c = [])"
proof -
  note reply = completed_reply [where run = run and base = base and digest_of = sha256 and app = app and a = a and st = st,
      folded c_def]
  have fwd: "snd (handle_request run base sha256 (ar_world a) app (ar_mount a) (ar_exchange a)) = Forwarded up hs"
    using assms(2) reply(6) by (simp add: c_def)
  have "sent (ex_reply ex) = None" unfolding ex_def by (rule forwarded_unsent [OF fwd])
  then obtain answer where r: "relays answer (ex_reply ex) reply'"
    using assms(1,5) unfolding proxy_law_def by blast
  have e: "ex_reply (answered run base sha256 app a) = reply'"
    using fwd assms(5) by (simp add: answered_def ex_def proxied_def split_beta Let_def)
  show ?thesis
    using r reply(1,2,3,5) by (intro exI [of _ answer]) (auto simp: relays_def e)
qed

text \<open>An upstream that answers with a request id of its own overrides the gateway's on the reply.\<close>

lemma upstream_id_wins:
  assumes "relays a reply reply'" and "ua_headers a ''x-request-id'' = Some v"
  shows "header_of (reply_headers reply') HdrRequestId = Some v"
  using assms by (simp add: relays_def header_of_def header_name.simps)

subsection \<open>Concrete traffic\<close>

definition sample_proxy :: proxy where
  "sample_proxy up hs ex = Inr \<lparr>status_code = 200,
     reply_headers = (reply_headers (ex_reply ex))(''content-type'' \<mapsto> HStr ''text/plain'',
       ''cache-control'' \<mapsto> HStr ''public, max-age=30''), sent = Some upstream_body\<rparr>"

text \<open>The proxy library wraps the failure of the connection.\<close>

definition wrapped :: "string \<Rightarrow> fastify_error" where
  "wrapped msg = \<lparr>err_code = Some ''FST_REPLY_FROM_INTERNAL_SERVER_ERROR'', err_message = msg, err_status = Some 500\<rparr>"

definition refusing_proxy :: proxy where
  "refusing_proxy up hs ex = Inl (wrapped ''connect ECONNREFUSED 10.0.0.7:8080'')"

lemma sample_proxy_law: "proxy_law sample_proxy"
proof -
  have "relays \<lparr>ua_status = 200, ua_headers = [''content-type'' \<mapsto> HStr ''text/plain'',
        ''cache-control'' \<mapsto> HStr ''public, max-age=30''],
      ua_body = \<lparr>chunks = [BufferChunk [104, 101], StringChunk ''llo''], stream_fails = False\<rparr>\<rparr>
    (ex_reply ex) \<lparr>status_code = 200,
     reply_headers = (reply_headers (ex_reply ex))(''content-type'' \<mapsto> HStr ''text/plain'',
       ''cache-control'' \<mapsto> HStr ''public, max-age=30''), sent = Some upstream_body\<rparr>" for ex
    by (simp add: relays_def upstream_body_def)
  then show ?thesis unfolding proxy_law_def sample_proxy_def sum.inject by metis
qed

definition users_arrival :: "mount \<Rightarrow> proxy \<Rightarrow> arrival" where
  "users_arrival m px = \<lparr>ar_world = sample_world, ar_mount = m, ar_proxy = px,
     ar_exchange = sample_exchange ''203.0.113.9'', ar_now = 100000, ar_elapsed = 5\<rparr>"

lemma users_forwarded:
  assumes "build_app sample_platform Map.empty = Inr app" and "app_ip_filter app = Some deny_filter"
    and "mount_guard m = Some (create_api_key_strategy (\<lambda>b. b) ''s3cret'')" and "mount_hooks m = []"
  shows "\<exists>up hs. co_outcome (fst (serve_request run_hooks id (\<lambda>b. b) app (users_arrival m px) st))
    = Forwarded up hs"
proof -
  have "pf_sha256 sample_platform = (\<lambda>b. b)" by (simp add: sample_platform_def)
  with sample_forwarded [OF assms] show ?thesis by (simp add: completed_reply(6) users_arrival_def)
qed

theorem upstream_failure_completes_witness:
  "\<exists>app m. build_app sample_platform Map.empty = Inr app \<and> m \<in> set (app_mounts app)
    \<and> status_code (ex_reply (co_exchange (fst (serve_request run_hooks id (\<lambda>b. b) app
        (users_arrival m refusing_proxy) quiet)))) = 502
    \<and> sent (ex_reply (co_exchange (fst (serve_request run_hooks id (\<lambda>b. b) app
        (users_arrival m refusing_proxy) quiet))))
      = Some (ErrorPayload (error_body_of ''req-1'' ''Upstream unavailable''))"
proof -
  obtain app m where app: "build_app sample_platform Map.empty = Inr app"
    "app_ip_filter app = Some deny_filter" "m \<in> set (app_mounts app)"
    "mount_guard m = Some (create_api_key_strategy (\<lambda>b. b) ''s3cret'')" "mount_hooks m = []"
    using sample_app by blast
  let ?a = "users_arrival m refusing_proxy"
  obtain up hs where f: "co_outcome (fst (serve_request run_hooks id (\<lambda>b. b) app ?a quiet)) = Forwarded up hs"
    using users_forwarded [OF app(1,2,4,5)] by blast
  obtain ex where h: "handle_request run_hooks id (\<lambda>b. b) (ar_world ?a) app (ar_mount ?a) (ar_exchange ?a)
      = (ex, Forwarded up hs)"
    using f completed_reply(6) by (metis prod.collapse)
  have a: "limiter_law (w_limit (ar_world ?a))" "gateway_written (w_cache (ar_world ?a))"
    "ar_mount ?a \<in> set (app_mounts app)" "sent (ex_reply (ar_exchange ?a)) = None"
    "req_id (ex_request (ar_exchange ?a)) = ''req-1''"
    using app(3) sample_laws sample_written
    by (simp_all add: users_arrival_def sample_exchange_def sample_request_def)
  have p: "ar_proxy ?a up hs ex = Inl (wrapped ''connect ECONNREFUSED 10.0.0.7:8080'')"
    by (simp add: users_arrival_def refusing_proxy_def)
  have "\<not> contains_ci ''timeout'' ''connect ECONNREFUSED 10.0.0.7:8080''" by code_simp
  then have s: "failure_status (wrapped ''connect ECONNREFUSED 10.0.0.7:8080'') = 502"
    by (simp add: failure_status_def wrapped_def)
  from upstream_failure_completes [OF run_hooks_lifecycle a(1,2) app(1) a(3,4) h p] app(1,3) show ?thesis
    by (intro exI [of _ app] exI [of _ m]) (simp add: a(5) s failure_message_def)
qed

theorem traffic_counted_witness:
  "\<exists>app m. build_app sample_platform Map.empty = Inr app \<and> m \<in> set (app_mounts app)
    \<and> requests_total (tr_metrics (snd (serve_all run_hooks id (\<lambda>b. b) app
          [(users_arrival m sample_proxy)\<lparr>ar_exchange := sample_exchange ''192.0.2.7''\<rparr>] quiet)))
        \<lparr>label_method = ''GET'', label_route = ''/api/public/*'', label_status = show_nat 403\<rparr> = 1"
proof -
  obtain app m where app: "build_app sample_platform Map.empty = Inr app"
    "app_ip_filter app = Some deny_filter" "m \<in> set (app_mounts app)"
    using sample_app by blast
  define a where "a = (users_arrival m sample_proxy)\<lparr>ar_exchange := sample_exchange ''192.0.2.7''\<rparr>"
  have a: "limiter_law (w_limit (ar_world a))" "ar_mount a \<in> set (app_mounts app)" "service_request (ar_exchange a)"
    and g: "gated (ar_world a) app (req_ip (ex_request (ar_exchange a)))"
      "gate_status app (req_ip (ex_request (ar_exchange a))) = 403"
    and q: "req_method (ex_request (ar_exchange a)) = ''GET''"
      "route_url (req_route (ex_request (ar_exchange a))) = Some ''/api/public/*''"
    using app(3) sample_laws
    by (simp_all add: a_def users_arrival_def gated_def gate_status_def app(2) deny_filter_values(3))
      (simp_all add: sample_exchange_def sample_request_def)
  define as where "as = [a]"
  have ok: "\<forall>a \<in> set as. limiter_law (w_limit (ar_world a)) \<and> ar_mount a \<in> set (app_mounts app)
      \<and> service_request (ar_exchange a)"
    using a by (simp add: as_def)
  define cs where "cs = fst (serve_all run_hooks id (\<lambda>b. b) app as quiet)"
  note counted = traffic_counted [OF run_hooks_lifecycle app(1) ok, of id "\<lambda>b. b" quiet, folded cs_def]
  from counted obtain c where cs: "cs = [c]" by (auto simp: as_def length_Suc_conv)
  let ?l = "\<lambda>s. \<lparr>label_method = ''GET'', label_route = ''/api/public/*'', label_status = show_nat s\<rparr>"
  have m: "counted_as (?l (status_code (ex_reply (co_exchange c)))) a c"
    by (simp add: counted_as_def q)
  with counted [of "?l (status_code (ex_reply (co_exchange c)))"] g
  have "show_nat (status_code (ex_reply (co_exchange c))) = show_nat 403" by (simp add: as_def cs)
  with m have "counted_as (?l 403) a c" by simp
  with counted [of "?l 403"] have "requests_total (tr_metrics (snd (serve_all run_hooks id (\<lambda>b. b) app as quiet))) (?l 403) = 1"
    by (simp add: as_def cs quiet_def empty_registry_def)
  with app(1,3) show ?thesis unfolding as_def a_def by blast
qed

theorem upstream_answer_relayed_witness:
  "\<exists>app m. build_app sample_platform Map.empty = Inr app \<and> m \<in> set (app_mounts app)
    \<and> status_code (ex_reply (co_exchange (fst (serve_request run_hooks id (\<lambda>b. b) app
        (users_arrival m sample_proxy) quiet)))) = 200
    \<and> sent (ex_reply (co_exchange (fst (serve_request run_hooks id (\<lambda>b. b) app
        (users_arrival m sample_proxy) quiet)))) = Some upstream_body"
proof -
  obtain app m where app: "build_app sample_platform Map.empty = Inr app"
    "app_ip_filter app = Some deny_filter" "m \<in> set (app_mounts app)"
    "mount_guard m = Some (create_api_key_strategy (\<lambda>b. b) ''s3cret'')" "mount_hooks m = []"
    using sample_app by blast
  let ?a = "users_arrival m sample_proxy"
  let ?ex = "fst (handle_request run_hooks id (\<lambda>b. b) (ar_world ?a) app (ar_mount ?a) (ar_exchange ?a))"
  obtain up hs where f: "co_outcome (fst (serve_request run_hooks id (\<lambda>b. b) app ?a quiet)) = Forwarded up hs"
    using users_forwarded [OF app(1,2,4,5)] by blast
  have l: "proxy_law (ar_proxy ?a)" by (simp add: users_arrival_def sample_proxy_law)
  obtain reply' where p: "ar_proxy ?a up hs ?ex = Inr reply'" "status_code reply' = 200"
    "sent reply' = Some upstream_body"
    by (simp add: users_arrival_def sample_proxy_def)
  from upstream_answer_relayed [OF l f p(1)] obtain answer where
    "relays answer (ex_reply ?ex) reply'"
    "status_code (ex_reply (co_exchange (fst (serve_request run_hooks id (\<lambda>b. b) app ?a quiet)))) = ua_status answer"
    "sent (ex_reply (co_exchange (fst (serve_request run_hooks id (\<lambda>b. b) app ?a quiet)))) = Some (StreamPayload (ua_body answer))"
    by blast
  with p app(1,3) show ?thesis by (auto simp: relays_def)
qed

end
