(* ===== verification/SharedTraffic.thy ===== *)
theory SharedTraffic
  imports Traffic
begin

section \<open>The shared cache across whole requests\<close>

text \<open>
  The hooks of \<open>plugins/cache.ts\<close> in their place among the others (\<open>core/service-gateway.ts\<close> adds
  them to a cacheable service, \<open>app.ts\<close> orders the rest): what one request leaves in Redis answers
  a later one, and a request with credentials takes no part in either.
\<close>

subsection \<open>Passing the entry hooks\<close>

definition traced :: "world \<Rightarrow> exchange \<Rightarrow> exchange" where
  "traced w ex = ex\<lparr>ex_request := fst (request_context_hook (w_random w) (ex_request ex) (ex_reply ex)),
     ex_reply := snd (request_context_hook (w_random w) (ex_request ex) (ex_reply ex))\<rparr>"

lemma run_through:
  assumes "lifecycle run" and "survive hs ex = Some ex'"
  shows "run (hs @ hs') ex = run hs' ex'"
  using assms(2)
  by (induction hs arbitrary: ex) (auto simp: run_Cons [OF assms(1)] split: sum.splits if_splits)

lemma entry_survives:
  assumes "service_request ex" and "\<not> gated w app (req_ip (ex_request ex))"
  shows "survive (entry_hooks w app) ex = Some (traced w ex)"
proof -
  have t: "sent (ex_reply (traced w ex)) = None" "req_ip (ex_request (traced w ex)) = req_ip (ex_request ex)"
    "route_ip_filter (req_route (ex_request (traced w ex))) \<noteq> Some False"
    using assms(1) by (simp_all add: traced_def service_request_def)
  have c: "context_hook (w_random w) ex = Inr (traced w ex)" by (simp add: context_pass traced_def)
  have s: "shed_hook config (w_overloaded w (app_pressure app)) x = Inr x" for config x
    using assms(2) by (simp add: gated_def shed_hook_def)
  have f: "filter_hook f (traced w ex) = Inr (traced w ex)" if "app_ip_filter app = Some f" for f
    using filter_verdicts [OF t(1,3), of f] assms(2) that by (simp add: t(2) gated_def)
  show ?thesis
    by (cases "app_ip_filter app") (simp_all add: entry_hooks_def c s f t(1))
qed

lemma traced_header:
  assumes "n \<notin> {''x-request-id'', ''x-correlation-id'', ''traceparent'', ''tracestate''}"
  shows "req_headers (ex_request (traced w ex)) n = req_headers (ex_request ex) n"
  using assms hook_unfold(4) [of "w_random w" "ex_request ex" "ex_reply ex" n] by (simp add: traced_def)

lemma traced_kept:
  assumes "k \<in> {HdrAccept, HdrAcceptEncoding, HdrAuthorization, HdrCookie, HdrCacheControl}"
  shows "req_header (ex_request (traced w ex)) k = req_header (ex_request ex) k"
proof -
  have "header_name k \<notin> {''x-request-id'', ''x-correlation-id'', ''traceparent'', ''tracestate''}"
    using assms by (auto simp: header_name.simps)
  from traced_header [OF this] show ?thesis by (simp add: req_header_def header_of_def)
qed

lemma traced_request:
  "cache_key (ex_request (traced w ex)) = cache_key (ex_request ex)"
  "cache_key_text (ex_request (traced w ex)) = cache_key_text (ex_request ex)"
  "may_serve (ex_request (traced w ex)) = may_serve (ex_request ex)"
  "req_header (ex_request (traced w ex)) HdrCacheControl = req_header (ex_request ex) HdrCacheControl"
proof -
  have "cache_key (ex_request (traced w ex)) = cache_key (ex_request ex)"
    "req_url (ex_request (traced w ex)) = req_url (ex_request ex)"
    "req_method (ex_request (traced w ex)) = req_method (ex_request ex)"
    by (simp_all add: traced_def request_context_hook_def Let_def split: prod.split)
  then show "cache_key (ex_request (traced w ex)) = cache_key (ex_request ex)"
    "cache_key_text (ex_request (traced w ex)) = cache_key_text (ex_request ex)"
    "may_serve (ex_request (traced w ex)) = may_serve (ex_request ex)"
    "req_header (ex_request (traced w ex)) HdrCacheControl = req_header (ex_request ex) HdrCacheControl"
    by (simp_all add: traced_kept cache_key_text_def may_serve_def)
qed

lemma key_of_traced: "cache_key_of sha256 name (ex_request (traced w ex)) = cache_key_of sha256 name (ex_request ex)"
  by (simp add: cache_key_of_def traced_request(2))

lemma mounted_hooks:
  assumes "build_app pf env = Inr app" and "m \<in> set (app_mounts app)"
  shows "mount_hooks m = [] \<or> mount_guard m = None
    \<and> (\<exists>name. mount_hooks m = [ServeHook name, StoreHook name])"
proof -
  obtain service where s: "to_plugin (pf_urls pf) service (instance_of_app (app_config app)
      (app_trust_proxy app) (app_strategies app) (app_has_cache app)) = Inr m"
    by (rule mounted [OF assms])
  then show ?thesis by (auto simp: to_plugin_def Let_def split: if_splits)
qed

text \<open>What a request meets after the entry hooks on a cached service: the cache, then the limiter.\<close>

lemma handle_ungated:
  assumes "lifecycle run" and "service_request ex" and "\<not> gated w app (req_ip (ex_request ex))"
  shows "fst (handle_request run base sha256 w app m ex)
    = run (service_hooks sha256 w m @ route_hooks w app m) (traced w ex)"
  by (simp add: handle_request_def Let_def run_through [OF assms(1) entry_survives [OF assms(2,3)]])

subsection \<open>Requests with credentials\<close>

lemma serve_identity:
  "\<not> may_serve (ex_request ex) \<Longrightarrow> cache_serve_hook sha256 env name ex = Inr ex"
  by (simp add: cache_serve_hook_def serve_not_allowed)

text \<open>The key a request ends with: none, or its own, when it may be served from the cache.\<close>

definition keyed :: "string \<Rightarrow> request \<Rightarrow> request \<Rightarrow> bool" where
  "keyed key req0 req \<longleftrightarrow> cache_key_text req = cache_key_text req0 \<and> may_serve req = may_serve req0
     \<and> (cache_key req = [] \<or> may_serve req0 \<and> cache_key req = key)"

lemma keyed_log [simp]: "keyed key req0 (log_req lv fs msg req) = keyed key req0 req"
  by (simp add: keyed_def cache_key_text_def may_serve_def req_header_def)

lemma keyed_key [simp]: "keyed key req0 (req\<lparr>cache_key := k\<rparr>) \<longleftrightarrow>
    cache_key_text req = cache_key_text req0 \<and> may_serve req = may_serve req0
    \<and> (k = [] \<or> may_serve req0 \<and> k = key)"
  by (simp add: keyed_def cache_key_text_def may_serve_def req_header_def)

lemma keyed_error: "keyed key req0 (ex_request (error_reply err x)) = keyed key req0 (ex_request x)"
  by (simp add: error_reply_def handle_error_def Let_def split: prod.split)

lemma keyed_serve:
  assumes "cache_serve_hook sha256 env name x = Inr x'" and "keyed key req0 (ex_request x)"
    and "key = cache_key_of sha256 name req0"
  shows "keyed key req0 (ex_request x')"
proof (cases "may_serve (ex_request x)")
  case False
  with assms(1,2) serve_identity [OF False, of sha256 env name] show ?thesis by simp
next
  case True
  have k: "cache_key_of sha256 name (ex_request x) = key"
    using assms(2,3) by (simp add: keyed_def cache_key_of_def)
  from serve_allowed [OF True, of sha256 env name "ex_log x" "ex_reply x"] assms(1,2) True show ?thesis
    by (auto simp: cache_serve_hook_def k split: if_splits option.splits) (auto simp: keyed_def)
qed

lemma keyed_request:
  assumes "lifecycle run" and "limiter_law (w_limit w)" and "mount_guard m = None"
    and "mount_hooks m = [ServeHook name, StoreHook name]" and "service_request ex"
    and "\<not> gated w app (req_ip (ex_request ex))" and "cache_key (ex_request ex) = []"
  shows "keyed (cache_key_of sha256 name (ex_request ex)) (ex_request ex)
    (ex_request (fst (handle_request run base sha256 w app m ex)))"
proof -
  let ?P = "\<lambda>x. keyed (cache_key_of sha256 name (ex_request ex)) (ex_request ex) (ex_request x)"
  have hooks: "service_hooks sha256 w m @ route_hooks w app m
      = [cache_serve_hook sha256 (w_cache w) name, w_limit w (app_rate_limit app)]"
    by (simp add: service_hooks_def route_hooks_def assms(3,4) List.map_filter_simps)
  have "?P (run [cache_serve_hook sha256 (w_cache w) name, w_limit w (app_rate_limit app)] (traced w ex))"
  proof (rule run_keeps [OF assms(1)])
    show "sent (ex_reply (traced w ex)) = None" using assms(5) by (simp add: traced_def service_request_def)
    show "?P (traced w ex)" using assms(7) by (simp add: keyed_def traced_request)
    fix h x x'
    assume "h \<in> set [cache_serve_hook sha256 (w_cache w) name, w_limit w (app_rate_limit app)]"
      and x: "?P x" "h x = Inr x'"
    then consider "h = cache_serve_hook sha256 (w_cache w) name" | "h = w_limit w (app_rate_limit app)" by auto
    then show "?P x'"
    proof cases
      case 1 then show ?thesis using keyed_serve x by blast
    next
      case 2
      then have "ex_request x' = ex_request x" using assms(2) x(2) unfolding limiter_law_def by blast
      with x(1) show ?thesis by simp
    qed
  qed (simp add: keyed_error)
  then show ?thesis by (simp add: handle_ungated [OF assms(1,5,6)] hooks)
qed

lemma answered_request:
  assumes "keyed key req0 (ex_request (fst (handle_request run base sha256 (ar_world a) app (ar_mount a) (ar_exchange a))))"
  shows "keyed key req0 (ex_request (answered run base sha256 app a))"
  using assms
  by (simp add: answered_def proxied_def split_beta Let_def keyed_error split: route_outcome.split sum.split)

lemma answered_outcome:
  assumes "snd (handle_request run base sha256 (ar_world a) app (ar_mount a) (ar_exchange a)) = Answered r"
  shows "ex_reply (answered run base sha256 app a) = r"
  using assms by (auto simp: answered_def handle_request_def Let_def split: if_splits)

lemma answered_gated:
  assumes "lifecycle run" and "service_request (ar_exchange a)"
    and "gated (ar_world a) app (req_ip (ex_request (ar_exchange a)))"
  shows "status_code (ex_reply (answered run base sha256 app a)) \<noteq> 200"
proof -
  obtain r where r: "snd (handle_request run base sha256 (ar_world a) app (ar_mount a) (ar_exchange a)) = Answered r"
    "status_code r = gate_status app (req_ip (ex_request (ar_exchange a)))"
    using gated_requests [OF assms, of base sha256 _ _ _ "ar_mount a"] unfolding rejected_with_def by blast
  then have "r = ex_reply (fst (handle_request run base sha256 (ar_world a) app (ar_mount a) (ar_exchange a)))"
    by (auto simp: handle_request_def Let_def split: if_splits)
  moreover have "gate_status app ip \<noteq> 200" for ip
    by (simp add: gate_status_def split: option.split)
  ultimately show ?thesis using r by (simp add: answered_def split_beta Let_def)
qed

text \<open>What is handed to Redis comes from a request that may share it, under its own key.\<close>

lemma commands_keyed:
  assumes "lifecycle run" and "limiter_law (w_limit (ar_world a))" and "build_app pf env = Inr app"
    and "ar_mount a \<in> set (app_mounts app)" and "service_request (ar_exchange a)"
    and "cache_key (ex_request (ar_exchange a)) = []"
    and "command \<in> set (co_commands (fst (serve_request run base sha256 app a st)))"
  obtains name reply p reply' p' req where "mount_guard (ar_mount a) = None"
    and "mount_hooks (ar_mount a) = [ServeHook name, StoreHook name]"
    and "store_hook (app_config app) req reply p = (reply', p', Some command)"
    and "set_key command = cache_key_of sha256 name (ex_request (ar_exchange a))"
    and "may_serve (ex_request (ar_exchange a))"
    and "sent (ex_reply (co_exchange (fst (serve_request run base sha256 app a st)))) = Some p"
    and "req = ex_request (answered run base sha256 app a)" and "reply = ex_reply (answered run base sha256 app a)"
    and "sent reply = Some p"
proof -
  define ex where "ex = answered run base sha256 app a"
  obtain ex' cs where s: "send_hooks (app_config app) (mount_hooks (ar_mount a)) ex = (ex', cs)" by fastforce
  note parts = serve_request_parts [OF s [unfolded ex_def], of st]
  have cs: "command \<in> set cs" using assms(7) by (simp add: parts)
  then obtain name where m: "mount_guard (ar_mount a) = None"
    "mount_hooks (ar_mount a) = [ServeHook name, StoreHook name]"
    using mounted_hooks [OF assms(3,4)] s by auto
  have ok: "status_code (ex_reply ex) = 200" using send_hooks_status [OF s] cs by force
  then have "\<not> gated (ar_world a) app (req_ip (ex_request (ar_exchange a)))"
    using answered_gated [OF assms(1,5)] by (auto simp: ex_def)
  from keyed_request [OF assms(1,2) m assms(5) this assms(6)]
  have k: "keyed (cache_key_of sha256 name (ex_request (ar_exchange a))) (ex_request (ar_exchange a)) (ex_request ex)"
    unfolding ex_def by (rule answered_request)
  obtain p where p: "sent (ex_reply ex) = Some p" using s cs m(2) by (cases "sent (ex_reply ex)") auto
  obtain reply' p' c where h: "store_hook (app_config app) (ex_request ex) (ex_reply ex) p = (reply', p', c)"
    by (metis prod_cases3)
  have c: "c = Some command" using s cs m(2) p h by (auto split: option.splits)
  then have "cache_key (ex_request ex) \<noteq> []" "set_key command = cache_key (ex_request ex)"
    using h by (auto simp: store_hook_def Let_def store_entry_def split: if_splits payload.splits)
  with k have "set_key command = cache_key_of sha256 name (ex_request (ar_exchange a))"
    "may_serve (ex_request (ar_exchange a))" by (auto simp: keyed_def)
  moreover have "sent (ex_reply (co_exchange (fst (serve_request run base sha256 app a st)))) = Some p"
    using send_hooks_keep [OF s] p by (simp add: parts)
  ultimately show thesis using that m h c p by (simp add: ex_def)
qed

lemma handle_other_cache:
  assumes "lifecycle run" and "build_app pf env = Inr app" and "m \<in> set (app_mounts app)"
    and "service_request ex" and "\<not> may_serve (ex_request ex)"
  shows "handle_request run base sha256 (w\<lparr>w_cache := cache\<rparr>) app m ex = handle_request run base sha256 w app m ex"
proof (cases "gated w app (req_ip (ex_request ex))")
  case True
  have "w\<lparr>w_limit := w_limit w, w_auth := w_auth w, w_cache := cache\<rparr> = w\<lparr>w_cache := cache\<rparr>" by simp
  with gated_requests [OF assms(1,4) True, of base sha256 cache "w_auth w" "w_limit w" m] show ?thesis by simp
next
  case False
  let ?w = "w\<lparr>w_cache := cache\<rparr>"
  have same: "entry_hooks ?w app = entry_hooks w app" "route_hooks ?w app m = route_hooks w app m"
    by (simp_all add: entry_hooks_def route_hooks_def split: option.split)
  note through = run_through [OF assms(1) entry_survives [OF assms(4) False]]
  have skip: "run (service_hooks sha256 w' m @ hs) (traced w ex) = run hs (traced w ex)" for w' hs
  proof (cases "mount_hooks m = []")
    case True then show ?thesis by (simp add: service_hooks_def List.map_filter_def)
  next
    case False
    with mounted_hooks [OF assms(2,3)] obtain name where "mount_hooks m = [ServeHook name, StoreHook name]" by blast
    then have "service_hooks sha256 w' m = [cache_serve_hook sha256 (w_cache w') name]"
      by (simp add: service_hooks_def List.map_filter_simps)
    moreover have "cache_serve_hook sha256 (w_cache w') name (traced w ex) = Inr (traced w ex)"
      using serve_identity assms(5) by (simp add: traced_request)
    moreover have "sent (ex_reply (traced w ex)) = None"
      using assms(4) by (simp add: traced_def service_request_def)
    ultimately show ?thesis by (simp add: run_Cons [OF assms(1)])
  qed
  show ?thesis by (simp add: handle_request_def same through skip)
qed

text \<open>C12. A request with credentials takes no part in the shared cache, end to end: on any mounted service
  of a booted gateway, a request that is not a \<open>GET\<close>, or carries \<open>Authorization\<close>, \<open>Cookie\<close> or
  \<open>Cache-Control: no-store\<close>, is completed the same whatever the cache holds and however it answers
  (its reply, what is forwarded, the logs, the metrics, the alerts), and nothing of it is stored.\<close>
theorem credentialed_noninterference:
  assumes "lifecycle run" and "limiter_law (w_limit (ar_world a))" and "build_app pf env = Inr app"
    and "ar_mount a \<in> set (app_mounts app)" and "service_request (ar_exchange a)"
    and "cache_key (ex_request (ar_exchange a)) = []" and "\<not> may_serve (ex_request (ar_exchange a))"
  shows "serve_request run base sha256 app (a\<lparr>ar_world := (ar_world a)\<lparr>w_cache := cache\<rparr>\<rparr>) st
      = serve_request run base sha256 app a st
    \<and> co_commands (fst (serve_request run base sha256 app a st)) = []"
proof
  show "serve_request run base sha256 app (a\<lparr>ar_world := (ar_world a)\<lparr>w_cache := cache\<rparr>\<rparr>) st
      = serve_request run base sha256 app a st"
  proof -
    let ?a = "a\<lparr>ar_world := (ar_world a)\<lparr>w_cache := cache\<rparr>\<rparr>"
    note same = handle_other_cache [OF assms(1,3,4,5,7), of base sha256 cache "ar_world a"]
    then have "answered run base sha256 app ?a = answered run base sha256 app a"
      by (simp add: answered_def split: prod.split route_outcome.split)
    with same show ?thesis by (simp add: serve_request_eq)
  qed
  show "co_commands (fst (serve_request run base sha256 app a st)) = []"
  proof (rule ccontr)
    assume "co_commands (fst (serve_request run base sha256 app a st)) \<noteq> []"
    then obtain command where "command \<in> set (co_commands (fst (serve_request run base sha256 app a st)))"
      by (meson last_in_set)
    from commands_keyed [OF assms(1-6) this] assms(7) show False by blast
  qed
qed

subsection \<open>From the first request to the second\<close>

lemma served_from_cache:
  assumes "lifecycle run" and "service_request (ar_exchange b)"
    and "\<not> gated (ar_world b) app (req_ip (ex_request (ar_exchange b)))"
    and "mount_hooks (ar_mount b) = [ServeHook name, StoreHook name]"
    and "serve_hook sha256 (w_cache (ar_world b)) name (ex_log (ar_exchange b))
        (ex_request (traced (ar_world b) (ar_exchange b))) (ex_reply (traced (ar_world b) (ar_exchange b)))
      = Inr (lg, later, hit)" and "sent hit = Some p"
  shows "co_outcome (fst (serve_request run base sha256 app b st)) = Answered hit
    \<and> ex_reply (co_exchange (fst (serve_request run base sha256 app b st))) = hit
    \<and> co_commands (fst (serve_request run base sha256 app b st)) = []"
proof -
  let ?t = "traced (ar_world b) (ar_exchange b)"
  have unsent: "sent (ex_reply ?t) = None" "ex_log ?t = ex_log (ar_exchange b)"
    using assms(2) by (simp_all add: traced_def service_request_def)
  have key: "cache_key later = []"
    by (rule serve_hit [OF unsent(1) assms(5)]) (simp_all add: assms(6))
  let ?x = "?t\<lparr>ex_log := lg, ex_request := later, ex_reply := hit\<rparr>"
  have "cache_serve_hook sha256 (w_cache (ar_world b)) name ?t = Inr ?x"
    by (simp add: cache_serve_hook_def assms(5) unsent(2))
  then have r: "run (service_hooks sha256 (ar_world b) (ar_mount b) @ hs) ?t = ?x" for hs
    by (simp add: service_hooks_def assms(4,6) List.map_filter_simps run_Cons [OF assms(1)])
  have h: "handle_request run base sha256 (ar_world b) app (ar_mount b) (ar_exchange b) = (?x, Answered hit)"
    by (simp add: handle_request_def Let_def run_through [OF assms(1) entry_survives [OF assms(2,3)]] r assms(6))
  then have "answered run base sha256 app b = ?x" by (simp add: answered_def)
  moreover have "ex_reply ?x = hit" by simp
  moreover have "hit\<lparr>sent := Some p\<rparr> = hit" using assms(6) by (cases hit) simp
  ultimately have s: "send_hooks (app_config app) (mount_hooks (ar_mount b)) (answered run base sha256 app b) = (?x, [])"
    by (simp add: assms(4,6) not_keyed_not_stored key Let_def)
  show ?thesis by (simp add: serve_request_parts [OF s] h)
qed

text \<open>C13. One upstream response answers the next client: if a request to a booted gateway stored its
  response and Redis still holds it, a later request to the same service for the same URL and
  negotiated headers, with no credentials and no \<open>no-cache\<close>, that passes the IP filter and the load
  shedding, is answered by the gateway itself with status 200, \<open>x-cache: HIT\<close> and byte for byte the
  body the first client received; the upstream is not contacted and nothing is stored again.\<close>
theorem second_request_from_cache:
  assumes "lifecycle run" and "limiter_law (w_limit (ar_world a))" and "build_app pf env = Inr app"
    and "0 \<le> CACHE_MAX_BODY_BYTES (app_config app)"
    and "ar_mount a \<in> set (app_mounts app)" and "service_request (ar_exchange a)"
    and "cache_key (ex_request (ar_exchange a)) = []"
    and "command \<in> set (co_commands (fst (serve_request run base sha256 app a st)))"
    and "ar_mount b = ar_mount a" and "service_request (ar_exchange b)"
    and "\<not> gated (ar_world b) app (req_ip (ex_request (ar_exchange b)))"
    and "may_serve (ex_request (ar_exchange b))"
    and "\<not> has_word ''no-cache'' (header_text (req_header (ex_request (ar_exchange b)) HdrCacheControl))"
    and "cache_key_text (ex_request (ar_exchange b)) = cache_key_text (ex_request (ar_exchange a))"
    and "redis_status (w_cache (ar_world b)) = ''ready''"
    and "redis_get (w_cache (ar_world b)) (set_key command) = RedisValue (Some (set_value command))"
  shows "\<exists>p body hit. sent (ex_reply (co_exchange (fst (serve_request run base sha256 app a st)))) = Some p
    \<and> payload_bytes p = Some body
    \<and> co_outcome (fst (serve_request run base sha256 app b st')) = Answered hit
    \<and> ex_reply (co_exchange (fst (serve_request run base sha256 app b st'))) = hit
    \<and> status_code hit = 200 \<and> sent hit = Some (BufferPayload body)
    \<and> header_of (reply_headers hit) HdrCache = Some (HStr ''HIT'')
    \<and> co_commands (fst (serve_request run base sha256 app b st')) = []"
proof -
  obtain name reply p reply' p' req where m: "mount_hooks (ar_mount a) = [ServeHook name, StoreHook name]"
    and h: "store_hook (app_config app) req reply p = (reply', p', Some command)"
    and k: "set_key command = cache_key_of sha256 name (ex_request (ar_exchange a))"
    and p: "sent (ex_reply (co_exchange (fst (serve_request run base sha256 app a st)))) = Some p"
    using commands_keyed [OF assms(1-3,5-8)] by metis
  let ?t = "traced (ar_world b) (ar_exchange b)"
  have t: "may_serve (ex_request ?t)"
    "\<not> has_word ''no-cache'' (header_text (req_header (ex_request ?t) HdrCacheControl))"
    "sent (ex_reply ?t) = None"
    using assms(10,12,13) by (simp_all add: traced_request) (simp add: traced_def service_request_def)
  have "cache_key_of sha256 name (ex_request ?t) = set_key command"
    using assms(14) by (simp add: k cache_key_of_def traced_request)
  from serve_stored [OF assms(4) h t(1,2) this assms(15,16) t(3), of "ex_log (ar_exchange b)"]
  obtain body lg later hit where body: "payload_bytes p = Some body"
    and s: "serve_hook sha256 (w_cache (ar_world b)) name (ex_log (ar_exchange b)) (ex_request ?t) (ex_reply ?t)
      = Inr (lg, later, hit)"
    and hit: "status_code hit = 200" "sent hit = Some (BufferPayload body)"
    and hs: "\<forall>n. reply_headers hit n = (if n = ''x-cache'' then Some (HStr ''HIT'')
         else if n \<in> header_name ` set stored_headers \<and> string_header (reply_headers reply n) \<noteq> None
         then reply_headers reply n else reply_headers (ex_reply ?t) n)"
    by blast
  have "header_of (reply_headers hit) HdrCache = Some (HStr ''HIT'')"
    using hs by (simp add: header_of_def header_name.simps)
  moreover note served_from_cache [OF assms(1,10,11) m [folded assms(9)] s hit(2), of base st']
  ultimately show ?thesis using p body hit by blast
qed

subsection \<open>A gateway with a cache\<close>

definition cached_settings :: settings where
  "cached_settings = app_settings(''CACHE_ENABLED'' \<mapsto> BoolValue True,
     ''REDIS_URL'' \<mapsto> TextValue ''redis://cache:6379'')"

definition cached_platform :: platform where
  "cached_platform = sample_platform\<lparr>pf_validate := (\<lambda>_. Inr cached_settings)\<rparr>"

lemma cached_settings_values:
  "CORS_ALLOW_CREDENTIALS (typed_config cached_settings) = False"
  "IP_ALLOW_LIST (typed_config cached_settings) = []"
  "IP_DENY_LIST (typed_config cached_settings) = ''192.0.2.0/24''"
  "BASIC_AUTH_USERS (typed_config cached_settings) = []"
  "JWT_JWKS_URI (typed_config cached_settings) = []"
  "REDIS_URL (typed_config cached_settings) = ''redis://cache:6379''"
  "CACHE_ENABLED (typed_config cached_settings)"
  "CACHE_MAX_TTL_MS (typed_config cached_settings) = 60000"
  "CACHE_MAX_BODY_BYTES (typed_config cached_settings) = 1048576"
  "USERS_SERVICE_URL (typed_config cached_settings) = ''http://localhost:3001''"
  "ORDERS_SERVICE_URL (typed_config cached_settings) = ''http://localhost:3002''"
  "PUBLIC_SERVICE_URL (typed_config cached_settings) = ''http://localhost:3003''"
  unfolding typed_config_def gateway_config.select_convs cached_settings_def app_settings_def
  by code_simp+

lemma cached_accepted: "config_accepted cached_platform (typed_config cached_settings)"
  using sample_accepted sample_registers [of cached_platform "typed_config cached_settings"]
  by (simp add: config_accepted_def cached_settings_values app_settings_values cached_platform_def
      sample_platform_def)

lemma list_all2_member: "list_all2 P xs ys \<Longrightarrow> x \<in> set xs \<Longrightarrow> \<exists>y \<in> set ys. P x y"
  by (induction rule: list_all2_induct) auto

lemma cached_app:
  obtains app m where "build_app cached_platform Map.empty = Inr app"
    and "app_config app = typed_config cached_settings" and "app_ip_filter app = Some deny_filter"
    and "m \<in> set (app_mounts app)" and "mount_guard m = None"
    and "mount_hooks m = [ServeHook ''public'', StoreHook ''public'']"
proof -
  obtain factory where "factory_options_of Map.empty = Inr factory" "registers cached_platform (RegFastify factory)"
    using sample_factory by (auto simp: registers_def cached_platform_def)
  moreover have "pf_validate cached_platform Map.empty = Inr cached_settings"
    by (simp add: cached_platform_def)
  ultimately obtain app where app: "build_app cached_platform Map.empty = Inr app"
    and config: "app_config app = typed_config cached_settings"
    using build_app_ok cached_accepted by blast
  note parts = build_app_parts [OF app]
  have filter: "app_ip_filter app = Some deny_filter"
  proof -
    have "ip_filter_plugin (typed_config cached_settings) = ip_filter_plugin (typed_config app_settings)"
      by (simp only: ip_filter_plugin_def cached_settings_values app_settings_values)
    with parts(6) deny_filter_values(1) show ?thesis by (simp only: config sum.inject)
  qed
  have "app_has_cache app" using parts(9) by (simp add: config cached_settings_values cache_plugin_def)
  moreover obtain m where m: "m \<in> set (app_mounts app)"
    "to_plugin (pf_urls cached_platform) public_gateway (instance_of_app (app_config app) (app_trust_proxy app)
      (app_strategies app) (app_has_cache app)) = Inr m"
    using list_all2_member [OF mount_services_list [OF parts(12)], of public_gateway]
    by (auto simp: service_gateways_def)
  ultimately have "mount_guard m = None" "mount_hooks m = [ServeHook ''public'', StoreHook ''public'']"
    by (auto simp: to_plugin_def Let_def instance_of_app_def public_gateway_def base_gateway_def)
  with that app config filter m(1) show thesis by blast
qed

definition public_exchange :: "string \<Rightarrow> (header_key \<times> string) list \<Rightarrow> exchange" where
  "public_exchange ip hs = \<lparr>ex_request = (sample_request ''GET'' hs)\<lparr>req_ip := ip\<rparr>,
     ex_reply = fresh_reply, ex_tokens = [], ex_log = \<lparr>bindings = [], log_lines = []\<rparr>\<rparr>"

definition sample_arrival :: "mount \<Rightarrow> cache_env \<Rightarrow> (header_key \<times> string) list \<Rightarrow> arrival" where
  "sample_arrival m env hs = \<lparr>ar_world = sample_world\<lparr>w_cache := env\<rparr>, ar_mount = m,
     ar_proxy = sample_proxy, ar_exchange = public_exchange ''203.0.113.9'' hs, ar_now = 100000, ar_elapsed = 5\<rparr>"

definition no_redis :: cache_env where
  "no_redis = \<lparr>redis_status = ''end'', redis_get = (\<lambda>_. RedisTimedOut)\<rparr>"

lemma sample_arrival_facts:
  "service_request (ar_exchange (sample_arrival m env hs))"
  "cache_key (ex_request (ar_exchange (sample_arrival m env hs))) = []"
  "limiter_law (w_limit (ar_world (sample_arrival m env hs)))"
  "app_ip_filter app = Some deny_filter
    \<Longrightarrow> \<not> gated (ar_world (sample_arrival m env hs)) app (req_ip (ex_request (ar_exchange (sample_arrival m env hs))))"
  by (simp_all add: sample_arrival_def public_exchange_def service_request_def sample_request_def
      sample_world_def limiter_law_def gated_def deny_filter_values)

lemma open_get_served:
  "may_serve (ex_request (public_exchange ip []))"
  "\<not> has_word ''no-cache'' (header_text (req_header (ex_request (public_exchange ip [])) HdrCacheControl))"
proof -
  have "\<not> has_word ''no-store'' []" "\<not> has_word ''no-cache'' []" by code_simp+
  then show "may_serve (ex_request (public_exchange ip []))"
    "\<not> has_word ''no-cache'' (header_text (req_header (ex_request (public_exchange ip [])) HdrCacheControl))"
    by (simp_all add: may_serve_def public_exchange_def sample_request_def req_header_def header_text_def)
qed

text \<open>The first request finds nothing in Redis, is forwarded, and its response is stored.\<close>

lemma first_stores:
  assumes "app_config app = typed_config cached_settings" and "app_ip_filter app = Some deny_filter"
    and "mount_guard m = None" and "mount_hooks m = [ServeHook ''public'', StoreHook ''public'']"
  shows "\<exists>command. co_commands (fst (serve_request run_hooks id (\<lambda>b. b) app (sample_arrival m no_redis []) st)) = [command]
    \<and> sent (ex_reply (co_exchange (fst (serve_request run_hooks id (\<lambda>b. b) app (sample_arrival m no_redis []) st))))
      = Some upstream_body"
proof -
  let ?a = "sample_arrival m no_redis []" and ?ex = "public_exchange ''203.0.113.9'' []"
  let ?w = "ar_world ?a"
  let ?t = "traced ?w ?ex"
  note facts = sample_arrival_facts [where m = m and env = no_redis and hs = "[]"]
  have ex: "ar_exchange ?a = ?ex" "ar_mount ?a = m" "ar_proxy ?a = sample_proxy" by (simp_all add: sample_arrival_def)
  have unsent: "sent (ex_reply ?t) = None" by (simp add: traced_def public_exchange_def)
  have keep: "w_cache ?w = no_redis" "w_limit ?w = (\<lambda>_ ex. Inr ex)" by (simp_all add: sample_arrival_def sample_world_def)
  define x where "x = ?t\<lparr>ex_request := (ex_request ?t)\<lparr>cache_key := cache_key_of (\<lambda>b. b) ''public'' (ex_request ?t)\<rparr>\<rparr>"
  have "serve_hook (\<lambda>b. b) no_redis ''public'' lg (ex_request ?t) reply = Inr (lg,
      (ex_request ?t)\<lparr>cache_key := cache_key_of (\<lambda>b. b) ''public'' (ex_request ?t)\<rparr>, reply)" for lg reply
    using open_get_served(1) [of "''203.0.113.9''"] traced_request(3) [of ?w ?ex]
    by (simp add: serve_hook_def may_serve_def Let_def lookup_entry_def no_redis_def)
  then have serve: "cache_serve_hook (\<lambda>b. b) no_redis ''public'' ?t = Inr x"
    by (simp add: cache_serve_hook_def x_def)
  have xs: "sent (ex_reply x) = None" using unsent by (simp add: x_def)
  have "handle_request run_hooks id (\<lambda>b. b) ?w app m ?ex
      = (x, Forwarded (mount_upstream m) (mount_rewriter m (ex_request x) (id (req_headers (ex_request x)))))"
    using run_through [OF run_hooks_lifecycle entry_survives [OF facts(1) facts(4) [OF assms(2)], unfolded ex]]
    by (simp add: handle_request_def Let_def service_hooks_def route_hooks_def assms(3,4) keep serve xs
        List.map_filter_simps)
  then have ans: "answered run_hooks id (\<lambda>b. b) app ?a = x\<lparr>ex_reply := \<lparr>status_code = 200,
     reply_headers = (reply_headers (ex_reply x))(''content-type'' \<mapsto> HStr ''text/plain'',
       ''cache-control'' \<mapsto> HStr ''public, max-age=30''), sent = Some upstream_body\<rparr>\<rparr>"
    (is "_ = x\<lparr>ex_reply := ?r\<rparr>")
    by (simp add: answered_def ex proxied_def sample_proxy_def)
  have "0 \<le> CACHE_MAX_BODY_BYTES (app_config app)"
    by (simp add: assms(1) cached_settings_values)
  moreover have "cache_key (ex_request x) \<noteq> []" by (simp add: x_def cache_key_of_def)
  moreover have "reply_headers (ex_reply x) ''vary'' = None"
    using hook_unfold(5) [of "w_random ?w" "ex_request ?ex" "ex_reply ?ex" "''vary''"]
    by (simp add: x_def traced_def public_exchange_def fresh_reply_def)
  then have "vary_is_keyed ?r" by (simp add: vary_is_keyed_def header_of_def header_name.simps)
  moreover have "0 < resolve_ttl_ms (app_config app) ?r"
  proof -
    have "age_directive ''public, max-age=30'' = Some ''30''" "nat_of_digits ''30'' = 30"
      "\<not> forbids_storing ''public, max-age=30''"
      by code_simp+
    then show ?thesis
      by (simp add: resolve_ttl_ms_def header_text_def header_of_def header_name.simps assms(1)
          cached_settings_values)
  qed
  ultimately have "\<exists>command. snd (send_hooks (app_config app) (mount_hooks m)
      (answered run_hooks id (\<lambda>b. b) app ?a)) = [command]"
    using store_hook_cases [of "app_config app" "ex_request x" ?r upstream_body]
    by (simp add: ans assms(1,4) upstream_bytes cached_settings_values split_beta Let_def)
  moreover have "sent (ex_reply (co_exchange (fst (serve_request run_hooks id (\<lambda>b. b) app ?a st))))
      = Some upstream_body"
    by (simp add: completed_reply(2) ans)
  ultimately show ?thesis
    using serve_request_parts(2) [of app ?a run_hooks id "\<lambda>b. b"]
    by (metis ex(2) prod.collapse)
qed

theorem second_request_from_cache_witness:
  "\<exists>app m env hit. build_app cached_platform Map.empty = Inr app
    \<and> co_outcome (fst (serve_request run_hooks id (\<lambda>b. b) app (sample_arrival m env []) quiet)) = Answered hit
    \<and> status_code hit = 200 \<and> sent hit = Some (BufferPayload [104, 101, 108, 108, 111])"
proof -
  obtain app m where app: "build_app cached_platform Map.empty = Inr app"
    "app_config app = typed_config cached_settings" "app_ip_filter app = Some deny_filter"
    "m \<in> set (app_mounts app)" "mount_guard m = None"
    "mount_hooks m = [ServeHook ''public'', StoreHook ''public'']"
    by (rule cached_app)
  obtain command where c: "co_commands (fst (serve_request run_hooks id (\<lambda>b. b) app
      (sample_arrival m no_redis []) quiet)) = [command]"
    using first_stores [OF app(2,3,5,6), of quiet] by blast
  define env where "env = \<lparr>redis_status = ''ready'',
    redis_get = (\<lambda>k. if k = set_key command then RedisValue (Some (set_value command)) else RedisValue None)\<rparr>"
  let ?a = "sample_arrival m no_redis []" and ?b = "sample_arrival m env []"
  note fa = sample_arrival_facts [where m = m and env = no_redis and hs = "[]"] and fb = sample_arrival_facts [where m = m and env = env and hs = "[]"]
  have m: "ar_mount ?a \<in> set (app_mounts app)" "ar_mount ?b = ar_mount ?a"
    "ar_exchange ?b = ar_exchange ?a" "w_cache (ar_world ?b) = env"
    using app(4) by (simp_all add: sample_arrival_def)
  have e: "redis_status (w_cache (ar_world ?b)) = ''ready''"
    "redis_get (w_cache (ar_world ?b)) (set_key command) = RedisValue (Some (set_value command))"
    unfolding m(4) by (simp_all add: env_def)
  have s: "may_serve (ex_request (ar_exchange ?b))"
    "\<not> has_word ''no-cache'' (header_text (req_header (ex_request (ar_exchange ?b)) HdrCacheControl))"
    using open_get_served by (simp_all add: sample_arrival_def)
  have bound: "0 \<le> CACHE_MAX_BODY_BYTES (app_config app)" by (simp add: app(2) cached_settings_values)
  have mem: "command \<in> set (co_commands (fst (serve_request run_hooks id (\<lambda>b. b) app ?a quiet)))"
    by (simp add: c)
  have same: "cache_key_text (ex_request (ar_exchange ?b)) = cache_key_text (ex_request (ar_exchange ?a))"
    by (simp add: m(3))
  from second_request_from_cache [OF run_hooks_lifecycle fa(3) app(1) bound m(1) fa(1,2) mem m(2) fb(1)
      fb(4) [OF app(3)] s same e, of quiet]
  obtain p body hit where h: "sent (ex_reply (co_exchange (fst (serve_request run_hooks id (\<lambda>b. b) app ?a quiet)))) = Some p"
    "payload_bytes p = Some body"
    "co_outcome (fst (serve_request run_hooks id (\<lambda>b. b) app ?b quiet)) = Answered hit"
    "status_code hit = 200" "sent hit = Some (BufferPayload body)"
    by blast
  have "p = upstream_body" using first_stores [OF app(2,3,5,6), of quiet] h(1) by auto
  with h app(1) show ?thesis by (auto simp: upstream_bytes intro!: exI [of _ app] exI [of _ m] exI [of _ env])
qed

theorem credentialed_noninterference_witness:
  "\<exists>app m. build_app cached_platform Map.empty = Inr app \<and> mount_hooks m \<noteq> []
    \<and> co_commands (fst (serve_request run_hooks id (\<lambda>b. b) app
        (sample_arrival m no_redis [(HdrCookie, ''sid=1'')]) quiet)) = []"
proof -
  obtain app m where app: "build_app cached_platform Map.empty = Inr app" "m \<in> set (app_mounts app)"
    "mount_hooks m = [ServeHook ''public'', StoreHook ''public'']"
    by (rule cached_app)
  let ?a = "sample_arrival m no_redis [(HdrCookie, ''sid=1'')]"
  note f = sample_arrival_facts [where m = m and env = no_redis and hs = "[(HdrCookie, ''sid=1'')]"]
  have m: "ar_mount ?a \<in> set (app_mounts app)" using app(2) by (simp add: sample_arrival_def)
  have "req_header (ex_request (public_exchange ip [(HdrCookie, ''sid=1'')])) HdrCookie = Some (HStr ''sid=1'')" for ip
    by (simp add: public_exchange_def req_header_def sample_request_def)
  then have "\<not> may_serve (ex_request (ar_exchange ?a))"
    by (simp add: may_serve_def sample_arrival_def)
  from credentialed_noninterference [OF run_hooks_lifecycle f(3) app(1) m f(1,2) this] app show ?thesis
    by (intro exI [of _ app] exI [of _ m]) simp
qed

end
