(* ===== verification/Admission.thy ===== *)
theory Admission
  imports SharedTraffic
begin

section \<open>Who gets through\<close>

text \<open>
  The gates of theory \<open>App\<close> as a specification: \<open>verdict_of\<close> says, for any request to a mounted
  service (\<open>app.ts\<close>, \<open>core/service-gateway.ts\<close>, \<open>strategies/\<close>, \<open>plugins/cache.ts\<close>), which gate
  decides it and how, and \<open>requests_decided\<close> that the pipeline does exactly that. So a request that
  every gate lets through is forwarded, and each of the others gets its gate's own answer.
\<close>

subsection \<open>The specification\<close>

datatype verdict = Blocked nat string | Thrown fastify_error | FromCache reply | Refused nat string | Admitted

text \<open>A guard sees only the request: any unsent reply will do to ask it.\<close>

definition guard_verdict :: "strategy \<Rightarrow> auth_env \<Rightarrow> token_cache \<Rightarrow> request \<Rightarrow> verdict" where
  "guard_verdict guard env st req =
     (if admits guard env st req then Admitted
      else if status_code (snd (snd (guard env st req fresh_reply))) = http_status StUnauthorized
      then Refused 401 ''Unauthorized'' else Refused 500 ''Gateway misconfigured'')"

text \<open>The exchange after the cache of the service, if it has one.\<close>

definition after_cache :: "hash \<Rightarrow> world \<Rightarrow> mount \<Rightarrow> exchange \<Rightarrow> fastify_error + exchange" where
  "after_cache sha256 w m ex =
     (case mount_hooks m of ServeHook name # _ \<Rightarrow> cache_serve_hook sha256 (w_cache w) name ex | _ \<Rightarrow> Inr ex)"

definition verdict_of :: "hash \<Rightarrow> world \<Rightarrow> app \<Rightarrow> mount \<Rightarrow> exchange \<Rightarrow> verdict" where
  "verdict_of sha256 w app m ex =
     (if gated w app (req_ip (ex_request ex))
      then Blocked (gate_status app (req_ip (ex_request ex))) (gate_message app (req_ip (ex_request ex)))
      else case after_cache sha256 w m (traced w ex) of
        Inl err \<Rightarrow> Thrown err
      | Inr x \<Rightarrow>
          if sent (ex_reply x) \<noteq> None then FromCache (ex_reply x)
          else case w_limit w (app_rate_limit app) x of
            Inl err \<Rightarrow> Thrown err
          | Inr _ \<Rightarrow> (case mount_guard m of None \<Rightarrow> Admitted
              | Some guard \<Rightarrow> guard_verdict guard (w_auth w) (ex_tokens ex) (ex_request (traced w ex))))"

text \<open>What the client is answered by each gate, under the id of the request.\<close>

fun gives :: "verdict \<Rightarrow> string \<Rightarrow> route_outcome \<Rightarrow> bool" where
  "gives (Blocked status msg) rid (Answered r) = (status_code r = status
     \<and> sent r = Some (ErrorPayload (error_body_of rid msg)))"
| "gives (Thrown err) rid (Answered r) = (status_code r = resolve_status err
     \<and> sent r = Some (ErrorPayload (error_body_of rid (client_message (resolve_status err) err))))"
| "gives (FromCache hit) rid (Answered r) = (r = hit)"
| "gives (Refused status msg) rid (Answered r) = (status_code r = status
     \<and> sent r = Some (ErrorPayload (error_body_of rid msg)))"
| "gives Admitted rid (Forwarded up hs) = True"
| "gives _ rid _ = False"

subsection \<open>The guard's answer does not depend on the reply\<close>

locale steady_guard = tagging_guard +
  assumes steady: "sent r1 = None \<Longrightarrow> sent r2 = None
    \<Longrightarrow> guard env st req r1 = (st1, q1, a1) \<Longrightarrow> guard env st req r2 = (st2, q2, a2)
    \<Longrightarrow> sent a1 \<noteq> None \<Longrightarrow> status_code a1 = status_code a2"
begin

lemma refused_reply:
  assumes "sent reply = None" and "guard env st req reply = (st', req', reply')"
    and "\<not> admits guard env st req"
  obtains status msg where "guard_verdict guard env st req = Refused status msg" and "status_code reply' = status"
    and "sent reply' = Some (ErrorPayload (error_body_of (req_id req) msg))"
proof -
  have s: "sent reply' \<noteq> None"
    using verdict [OF assms(1) fresh_unsent, of env st req] assms(2,3) by (simp add: admits_def)
  obtain st2 q2 a2 where f: "guard env st req fresh_reply = (st2, q2, a2)"
    by (cases "guard env st req fresh_reply") auto
  have "status_code a2 = status_code reply'"
    using steady [OF assms(1) fresh_unsent assms(2) f s] by simp
  with sent_iff_refused [OF assms(1,2)] s assms(3) that show thesis
    by (auto simp: guard_verdict_def refuses_def rejected_with_def f)
qed

end

interpretation api_key_steady: steady_guard "create_api_key_strategy sha256 key" for sha256 key
  by unfold_locales
    (auto simp: create_api_key_strategy_def with_log_def send_misconfigured_def Let_def
      split: if_splits option.splits)

interpretation basic_steady: steady_guard "create_basic_auth_strategy sha256 users" for sha256 users
  by unfold_locales
    (auto simp: create_basic_auth_strategy_def with_log_def send_misconfigured_def Let_def
      split: if_splits option.splits)

interpretation jwt_steady: steady_guard "jwt_guard key options" for key options
  by unfold_locales
    (auto simp: jwt_guard_def with_log_def send_misconfigured_def Let_def split: if_splits option.splits)

lemma bearer_begin_steady:
  assumes "sent r1 = None" and "sent r2 = None"
  shows "case bearer_begin sha256 options now cache req r1 of
      (c, BearerDone req1 a1) \<Rightarrow>
        (\<exists>a2. bearer_begin sha256 options now cache req r2 = (c, BearerDone req1 a2)
           \<and> (sent a1 \<noteq> None \<longrightarrow> status_code a1 = status_code a2))
    | (c, BearerAwaits key token) \<Rightarrow>
        bearer_begin sha256 options now cache req r2 = (c, BearerAwaits key token)"
  using assms
  by (auto simp: bearer_begin_def send_misconfigured_def Let_def split: option.splits)

lemma bearer_finish_steady:
  assumes "sent r1 = None" and "sent r2 = None"
    and "sent (snd (bearer_finish options t1 t2 cache key answer req r1)) \<noteq> None"
  shows "status_code (snd (bearer_finish options t1 t2 cache key answer req r1))
    = status_code (snd (bearer_finish options t1 t2 cache key answer req r2))"
  using assms by (auto simp: bearer_finish_def split: option.splits if_splits)

interpretation bearer_steady: steady_guard "create_bearer_auth_strategy sha256 options" for sha256 options
proof unfold_locales
  fix env st req r1 r2 st1 q1 a1 st2 q2 a2
  assume r: "sent r1 = None" "sent r2 = None"
    and g: "create_bearer_auth_strategy sha256 options env st req r1 = (st1, q1, a1)"
      "create_bearer_auth_strategy sha256 options env st req r2 = (st2, q2, a2)" and s: "sent a1 \<noteq> None"
  from g s bearer_begin_steady [OF r, of sha256 options "now_lookup env" st req]
    bearer_finish_steady [OF r]
  show "status_code a1 = status_code a2"
    by (auto simp: create_bearer_auth_strategy_def split_beta Let_def split: bearer_progress.splits prod.splits)
qed

lemma registered_steady:
  assumes "auth_plugin sha256 url_parses config = Inr strategies"
    and "auth_strategy strategies scheme = Some guard"
  shows "steady_guard guard"
proof -
  from auth_plugin_registry [OF assms(1)] obtain users jwt where
    jwt: "create_jwt_strategy url_parses (jwt_options_of config) = Inr jwt"
    and look: "auth_strategy strategies =
      [AuthApiKey \<mapsto> create_api_key_strategy sha256 (GATEWAY_API_KEY config),
       AuthBasic \<mapsto> create_basic_auth_strategy sha256 users,
       AuthJwt \<mapsto> jwt,
       AuthBearer \<mapsto> create_bearer_auth_strategy sha256 (bearer_options_of config)]"
    by blast
  from jwt obtain key opts where "jwt = jwt_guard key opts"
    by (auto simp: create_jwt_strategy_def split: sum.splits)
  then have "steady_guard jwt" by (simp only: jwt_steady.steady_guard_axioms)
  with api_key_steady.steady_guard_axioms basic_steady.steady_guard_axioms bearer_steady.steady_guard_axioms
  show ?thesis using assms(2) unfolding look by (cases scheme) auto
qed

lemma mounted_steady:
  assumes "build_app pf env = Inr app" and "m \<in> set (app_mounts app)" and "mount_guard m = Some guard"
  shows "steady_guard guard"
proof -
  obtain service where s: "to_plugin (pf_urls pf) service (instance_of_app (app_config app)
      (app_trust_proxy app) (app_strategies app) (app_has_cache app)) = Inr m"
    by (rule mounted [OF assms(1,2)])
  from to_plugin_spec [OF s] assms(3) have "auth_strategy (app_strategies app) (service_auth service) = Some guard"
    by (auto simp: instance_of_app_def split: if_splits)
  with registered_steady [OF build_app_parts(7) [OF assms(1)]] show ?thesis by blast
qed

subsection \<open>The pipeline decides as specified\<close>

lemma thrown_gives:
  assumes "sent (ex_reply x) = None" and "req_id (ex_request x) = rid"
  shows "gives (Thrown err) rid (Answered (ex_reply (error_reply err x)))"
proof -
  obtain req' reply' where h: "handle_error err (ex_request x) (ex_reply x) = (req', reply')" by fastforce
  from handle_error_reply [OF assms(1) h] show ?thesis
    by (simp add: error_reply_def h rejected_with_def assms(2))
qed

text \<open>The tail after the cache: the limiter and the guard.\<close>

definition tail_verdict :: "world \<Rightarrow> app \<Rightarrow> mount \<Rightarrow> exchange \<Rightarrow> verdict" where
  "tail_verdict w app m x =
     (case w_limit w (app_rate_limit app) x of
        Inl err \<Rightarrow> Thrown err
      | Inr _ \<Rightarrow> (case mount_guard m of None \<Rightarrow> Admitted
          | Some guard \<Rightarrow> guard_verdict guard (w_auth w) (ex_tokens x) (ex_request x)))"

definition outcome_of :: "mount \<Rightarrow> (headers \<Rightarrow> headers) \<Rightarrow> exchange \<Rightarrow> route_outcome" where
  "outcome_of m base ex = (if sent (ex_reply ex) \<noteq> None then Answered (ex_reply ex)
     else Forwarded (mount_upstream m) (mount_rewriter m (ex_request ex) (base (req_headers (ex_request ex)))))"

lemma handle_outcome:
  "snd (handle_request run base sha256 w app m ex)
    = outcome_of m base (run (entry_hooks w app @ service_hooks sha256 w m @ route_hooks w app m) ex)"
  by (simp add: handle_request_def outcome_of_def Let_def)

lemma tail_decided:
  assumes "lifecycle run" and "limiter_law (w_limit w)" and "sent (ex_reply x) = None"
    and "\<And>guard. mount_guard m = Some guard \<Longrightarrow> steady_guard guard"
  shows "gives (tail_verdict w app m x) (req_id (ex_request x)) (outcome_of m base (run (route_hooks w app m) x))"
proof (cases "w_limit w (app_rate_limit app) x")
  case (Inl err)
  then have "run (route_hooks w app m) x = error_reply err x"
    by (simp add: route_hooks_def run_Cons [OF assms(1)])
  then show ?thesis
    using thrown_gives [OF assms(3) refl, of err] error_reply_sent [of err x] Inl
    by (simp add: tail_verdict_def outcome_of_def)
next
  case (Inr y)
  with assms(2) have y: "ex_request y = ex_request x" "ex_tokens y = ex_tokens x" "sent (ex_reply y) = None"
    unfolding limiter_law_def using assms(3) by metis+
  show ?thesis
  proof (cases "mount_guard m")
    case None
    then show ?thesis using Inr y
      by (simp add: route_hooks_def run_Cons [OF assms(1)] run_Nil [OF assms(1)] tail_verdict_def outcome_of_def)
  next
    case (Some guard)
    note steady = assms(4) [OF Some]
    obtain st q r where g: "guard (w_auth w) (ex_tokens x) (ex_request x) (ex_reply y) = (st, q, r)"
      by (cases "guard (w_auth w) (ex_tokens x) (ex_request x) (ex_reply y)") auto
    have run: "run (route_hooks w app m) x = y\<lparr>ex_tokens := st, ex_request := q, ex_reply := r\<rparr>"
      using Inr y g Some
      by (simp add: route_hooks_def guard_hook_def run_Cons [OF assms(1)] run_Nil [OF assms(1)])
    show ?thesis
    proof (cases "admits guard (w_auth w) (ex_tokens x) (ex_request x)")
      case True
      then have "sent r = None"
        using tagging_guard.verdict [OF steady_guard.axioms(1) [OF steady] y(3) fresh_unsent,
          of "w_auth w" "ex_tokens x" "ex_request x"] g by (simp add: admits_def)
      then show ?thesis using True Inr Some
        by (simp add: run outcome_of_def tail_verdict_def guard_verdict_def)
    next
      case False
      from steady_guard.refused_reply [OF steady y(3) g False] obtain status msg where
        "guard_verdict guard (w_auth w) (ex_tokens x) (ex_request x) = Refused status msg"
        "status_code r = status" "sent r = Some (ErrorPayload (error_body_of (req_id (ex_request x)) msg))"
        by metis
      then show ?thesis using Inr Some by (simp add: run outcome_of_def tail_verdict_def)
    qed
  qed
qed

lemma gives_forwarded: "gives v rid out \<Longrightarrow> (\<exists>up hs. out = Forwarded up hs) \<longleftrightarrow> v = Admitted"
  by (cases v; cases out) auto

lemma pipeline_decides:
  assumes "lifecycle run" and "limiter_law (w_limit w)" and "build_app pf env = Inr app"
    and "m \<in> set (app_mounts app)" and "service_request ex"
  shows "gives (verdict_of sha256 w app m ex) (req_id (ex_request ex))
    (snd (handle_request run base sha256 w app m ex))"
proof (cases "gated w app (req_ip (ex_request ex))")
  case True
  from gated_requests [OF assms(1,5) True] obtain r where
    "snd (handle_request run base sha256 w app m ex) = Answered r"
    "rejected_with (gate_status app (req_ip (ex_request ex))) (gate_message app (req_ip (ex_request ex)))
      (ex_request ex) r" by blast
  with True show ?thesis by (simp add: verdict_of_def rejected_with_def)
next
  case False
  let ?t = "traced w ex"
  have t: "sent (ex_reply ?t) = None" "req_id (ex_request ?t) = req_id (ex_request ex)" "ex_tokens ?t = ex_tokens ex"
    using assms(5) by (simp_all add: traced_def service_request_def hook_unfold(1))
  note through = handle_outcome run_through [OF assms(1) entry_survives [OF assms(5) False]]
  note tail = tail_decided [OF assms(1,2) _ mounted_steady [OF assms(3,4)], where m = m and app = app and base = base]
  show ?thesis
  proof (cases "mount_hooks m = []")
    case True
    then have "verdict_of sha256 w app m ex = tail_verdict w app m ?t"
      using False t by (simp add: verdict_of_def after_cache_def tail_verdict_def split: sum.split option.split)
    moreover have "service_hooks sha256 w m = []" by (simp add: service_hooks_def True List.map_filter_def)
    ultimately show ?thesis using tail [OF t(1)] by (simp add: through t(2))
  next
    case hooks: False
    with mounted_hooks [OF assms(3,4)] obtain name where m: "mount_guard m = None"
      "mount_hooks m = [ServeHook name, StoreHook name]" by blast
    let ?h = "cache_serve_hook sha256 (w_cache w) name"
    have s: "service_hooks sha256 w m = [?h]" by (simp add: service_hooks_def m(2) List.map_filter_simps)
    have v: "verdict_of sha256 w app m ex = (case ?h ?t of Inl err \<Rightarrow> Thrown err
        | Inr x \<Rightarrow> if sent (ex_reply x) \<noteq> None then FromCache (ex_reply x) else tail_verdict w app m x)"
      using False by (simp add: verdict_of_def after_cache_def m tail_verdict_def split: sum.split)
    show ?thesis
    proof (cases "?h ?t")
      case (Inl err)
      then show ?thesis using thrown_gives [OF t(1,2), of err] error_reply_sent [of err ?t]
        by (simp add: through s v run_Cons [OF assms(1)] outcome_of_def)
    next
      case (Inr x)
      show ?thesis
      proof (cases "sent (ex_reply x) = None")
        case True
        have "req_id (ex_request x) = req_id (ex_request ex)"
          using serve_pass [OF Inr True] t(2) by auto
        with tail [OF True] Inr True show ?thesis
          by (simp add: through s v run_Cons [OF assms(1)])
      next
        case answered: False
        then show ?thesis using Inr by (auto simp: through s v run_Cons [OF assms(1)] outcome_of_def)
      qed
    qed
  qed
qed

text \<open>Every request to a mounted service of a booted gateway is decided as specified, in any world:
  blocked or shed by the entry gates, answered from the cache, stopped by an error of the cache or
  the limiter, refused by the guard of the service, each with that gate's status and uniform body
  under the request's id; and it is forwarded exactly when every gate admits it, so no well-behaved
  request is ever dropped on the way.\<close>
theorem requests_decided:
  assumes "lifecycle run" and "limiter_law (w_limit w)" and "build_app pf env = Inr app"
    and "m \<in> set (app_mounts app)" and "service_request ex"
  shows "gives (verdict_of sha256 w app m ex) (req_id (ex_request ex))
      (snd (handle_request run base sha256 w app m ex))
    \<and> ((\<exists>up hs. snd (handle_request run base sha256 w app m ex) = Forwarded up hs)
        \<longleftrightarrow> verdict_of sha256 w app m ex = Admitted)"
  using pipeline_decides [OF assms] gives_forwarded by blast

theorem requests_decided_witness:
  "\<exists>app m. build_app cached_platform Map.empty = Inr app \<and> m \<in> set (app_mounts app)
    \<and> verdict_of (\<lambda>b. b) sample_world app m (public_exchange ''192.0.2.7'' []) = Blocked 403 ''Forbidden''
    \<and> (\<exists>r. snd (handle_request run_hooks id (\<lambda>b. b) sample_world app m (public_exchange ''192.0.2.7'' []))
          = Answered r \<and> status_code r = 403)"
proof -
  obtain app m where app: "build_app cached_platform Map.empty = Inr app" "app_ip_filter app = Some deny_filter"
    "m \<in> set (app_mounts app)"
    by (rule cached_app)
  let ?ex = "public_exchange ''192.0.2.7'' []"
  have ip: "req_ip (ex_request ?ex) = ''192.0.2.7''" and s: "service_request ?ex"
    by (simp_all add: public_exchange_def service_request_def sample_request_def)
  have v: "verdict_of (\<lambda>b. b) sample_world app m ?ex = Blocked 403 ''Forbidden''"
    by (simp add: verdict_of_def ip gated_def gate_status_def gate_message_def app(2) deny_filter_values)
  from requests_decided [OF run_hooks_lifecycle sample_laws(1) app(1,3) s, of "\<lambda>b. b" id] app(1,3) v
  show ?thesis
    by (cases "snd (handle_request run_hooks id (\<lambda>b. b) sample_world app m ?ex)") auto
qed

end
