(* ===== verification/RateLimit.thy ===== *)
theory RateLimit
  imports Admission
begin

section \<open>The budget of a client\<close>

text \<open>
  \<open>plugins/rate-limit.ts\<close> over a sequence of requests: the limiter of \<open>@fastify/rate-limit\<close> runs on the
  route, after the gates of the root scope and the cache and before the guard, with the key and the
  options the plugin hands it. What its store answers is a parameter (\<open>hit_count\<close>): how many requests
  of a key it has counted in the current window, this one included, or nothing when it fails. The
  documented behaviour of the limiter (\<open>limits_by\<close>) is that it lets a request through while that number
  is at most \<open>max\<close>, or when the store fails and \<open>skipOnError\<close> is set, and throws otherwise.
\<close>

subsection \<open>The limiter's law\<close>

type_synonym hits = "(int \<times> string) list"

type_synonym hit_count = "hits \<Rightarrow> int \<Rightarrow> string \<Rightarrow> nat option"

definition over_limit :: "rate_limit_options \<Rightarrow> fastify_error \<Rightarrow> bool" where
  "over_limit options err \<longleftrightarrow> resolve_status err = 429 \<or> rl_ban options \<noteq> None \<and> resolve_status err = 403"

definition limits_by :: "hit_count \<Rightarrow> hits \<Rightarrow> int \<Rightarrow> (rate_limit_options \<Rightarrow> hook) \<Rightarrow> bool" where
  "limits_by count hs now limit \<longleftrightarrow> limiter_law limit \<and> (\<forall>options ex.
     route_rate_limit (req_route (ex_request ex)) \<noteq> Some False \<longrightarrow>
       (case count hs now (rl_key options (ex_request ex)) of
          None \<Rightarrow> rl_skip_on_error options \<longrightarrow> (\<exists>ex'. limit options ex = Inr ex')
        | Some n \<Rightarrow> if int n \<le> rl_max options then (\<exists>ex'. limit options ex = Inr ex')
            else (\<exists>err. limit options ex = Inl err \<and> over_limit options err)))"

text \<open>A working store counts the requests of a key within a window; \<open>window\<close> tells the windows of a key
  apart, wherever they begin.\<close>

definition same_window :: "(string \<Rightarrow> int \<Rightarrow> int) \<Rightarrow> string \<Rightarrow> int \<Rightarrow> int \<times> string \<Rightarrow> bool" where
  "same_window window key now h \<longleftrightarrow> snd h = key \<and> window key (fst h) = window key now"

definition counts_in :: "(string \<Rightarrow> int \<Rightarrow> int) \<Rightarrow> hit_count \<Rightarrow> bool" where
  "counts_in window count \<longleftrightarrow> (\<forall>hs now key.
     count hs now key = Some (Suc (length (filter (same_window window key now) hs))))"

subsection \<open>A sequence of requests\<close>

definition client_ip :: "arrival \<Rightarrow> string" where
  "client_ip a = req_ip (ex_request (ar_exchange a))"

text \<open>A request reaches the limiter when no gate of the root scope stops it and the cache does not answer.\<close>

definition reaches_limiter :: "hash \<Rightarrow> app \<Rightarrow> arrival \<Rightarrow> bool" where
  "reaches_limiter sha256 app a \<longleftrightarrow> \<not> gated (ar_world a) app (client_ip a)
     \<and> (case after_cache sha256 (ar_world a) (ar_mount a) (traced (ar_world a) (ar_exchange a)) of
          Inl _ \<Rightarrow> False | Inr x \<Rightarrow> sent (ex_reply x) = None)"

definition hit_of :: "hash \<Rightarrow> app \<Rightarrow> arrival \<Rightarrow> hits" where
  "hit_of sha256 app a = (if reaches_limiter sha256 app a then [(ar_now a, client_ip a)] else [])"

text \<open>The requests of an instance behind one limiter, in order.\<close>

fun limited_traffic :: "hash \<Rightarrow> app \<Rightarrow> hit_count \<Rightarrow> hits \<Rightarrow> arrival list \<Rightarrow> bool" where
  "limited_traffic sha256 app count hs [] = True"
| "limited_traffic sha256 app count hs (a # as) =
     (limits_by count hs (ar_now a) (w_limit (ar_world a))
        \<and> ar_mount a \<in> set (app_mounts app) \<and> service_request (ar_exchange a)
        \<and> route_rate_limit (req_route (ex_request (ar_exchange a))) \<noteq> Some False
        \<and> limited_traffic sha256 app count (hs @ hit_of sha256 app a) as)"

text \<open>What a client gets out of a request that costs the gateway an upstream call or a check of credentials.\<close>

definition attempted :: "arrival \<Rightarrow> route_outcome \<Rightarrow> bool" where
  "attempted a out \<longleftrightarrow> (case out of Forwarded _ _ \<Rightarrow> True
     | Answered r \<Rightarrow> mount_guard (ar_mount a) \<noteq> None \<and> status_code r = 401)"

subsection \<open>What reaches the limiter\<close>

lemma cache_pass:
  assumes "after_cache sha256 w m ex = Inr x" and "sent (ex_reply ex) = None" and "sent (ex_reply x) = None"
  shows "req_ip (ex_request x) = req_ip (ex_request ex) \<and> req_route (ex_request x) = req_route (ex_request ex)"
proof (cases "mount_hooks m")
  case (Cons h hs)
  show ?thesis
  proof (cases h)
    case (ServeHook name)
    with assms(1) Cons have "cache_serve_hook sha256 (w_cache w) name ex = Inr x" by (simp add: after_cache_def)
    from serve_pass [OF this assms(3)] show ?thesis by auto
  next
    case (StoreHook name)
    with assms(1) Cons show ?thesis by (simp add: after_cache_def)
  qed
qed (use assms(1) in \<open>simp add: after_cache_def\<close>)

lemma traced_same [simp]:
  "req_ip (ex_request (traced w ex)) = req_ip (ex_request ex)"
  "req_route (ex_request (traced w ex)) = req_route (ex_request ex)"
  "sent (ex_reply (traced w ex)) = sent (ex_reply ex)"
  by (simp_all add: traced_def)

lemma limiter_options:
  assumes "build_app pf env = Inr app"
  shows "rl_max (app_rate_limit app) = RATE_LIMIT_MAX (app_config app)" and "rl_key (app_rate_limit app) = req_ip"
    and "rl_skip_on_error (app_rate_limit app)"
  by (simp_all add: build_app_parts(11) [OF assms] rate_limit_plugin_def)

text \<open>The limiter's answer to a request that reaches it.\<close>

lemma limiter_answer:
  fixes a :: arrival
  assumes "build_app pf env = Inr app" and "limits_by count hs (ar_now a) (w_limit (ar_world a))"
    and "service_request (ar_exchange a)" and "route_rate_limit (req_route (ex_request (ar_exchange a))) \<noteq> Some False"
    and "after_cache sha256 (ar_world a) (ar_mount a) (traced (ar_world a) (ar_exchange a)) = Inr x"
    and "sent (ex_reply x) = None"
  shows "case count hs (ar_now a) (client_ip a) of
      None \<Rightarrow> \<exists>y. w_limit (ar_world a) (app_rate_limit app) x = Inr y
    | Some n \<Rightarrow> if int n \<le> RATE_LIMIT_MAX (app_config app)
        then (\<exists>y. w_limit (ar_world a) (app_rate_limit app) x = Inr y)
        else (\<exists>err. w_limit (ar_world a) (app_rate_limit app) x = Inl err \<and> over_limit (app_rate_limit app) err)"
proof -
  have "sent (ex_reply (traced (ar_world a) (ar_exchange a))) = None"
    using assms(3) by (simp add: service_request_def)
  note keep = cache_pass [OF assms(5) this assms(6)]
  then have "route_rate_limit (req_route (ex_request x)) \<noteq> Some False" using assms(4) by simp
  with assms(2) have "case count hs (ar_now a) (rl_key (app_rate_limit app) (ex_request x)) of
      None \<Rightarrow> rl_skip_on_error (app_rate_limit app) \<longrightarrow> (\<exists>y. w_limit (ar_world a) (app_rate_limit app) x = Inr y)
    | Some n \<Rightarrow> if int n \<le> rl_max (app_rate_limit app)
        then (\<exists>y. w_limit (ar_world a) (app_rate_limit app) x = Inr y)
        else (\<exists>err. w_limit (ar_world a) (app_rate_limit app) x = Inl err \<and> over_limit (app_rate_limit app) err)"
    unfolding limits_by_def by blast
  then show ?thesis
    using keep by (simp add: limiter_options [OF assms(1)] client_ip_def split: option.splits)
qed

lemma gate_status_values: "gate_status app ip \<in> {403, 503}"
  by (simp add: gate_status_def split: option.split)

lemma attempted_within:
  fixes a :: arrival
  assumes "lifecycle run" and "build_app pf env = Inr app" and "counts_in window count"
    and "limits_by count hs (ar_now a) (w_limit (ar_world a))" and "ar_mount a \<in> set (app_mounts app)"
    and "service_request (ar_exchange a)" and "route_rate_limit (req_route (ex_request (ar_exchange a))) \<noteq> Some False"
    and "attempted a (snd (handle_request run base sha256 (ar_world a) app (ar_mount a) (ar_exchange a)))"
  shows "reaches_limiter sha256 app a
    \<and> length (filter (same_window window (client_ip a) (ar_now a)) hs) < nat (RATE_LIMIT_MAX (app_config app))"
proof -
  let ?w = "ar_world a" and ?m = "ar_mount a" and ?ex = "ar_exchange a"
  let ?v = "verdict_of sha256 ?w app ?m ?ex" and ?ac = "after_cache sha256 ?w ?m (traced ?w ?ex)"
  have law: "limiter_law (w_limit ?w)" using assms(4) by (simp add: limits_by_def)
  have g: "gives ?v (req_id (ex_request ?ex)) (snd (handle_request run base sha256 ?w app ?m ?ex))"
    by (rule pipeline_decides [OF assms(1) law assms(2,5,6)])
  have guarded: "?ac = Inr (traced ?w ?ex)" if "mount_guard ?m \<noteq> None"
    using mounted_hooks [OF assms(2,5)] that by (cases "mount_hooks ?m = []") (auto simp: after_cache_def)
  have unsent: "sent (ex_reply (traced ?w ?ex)) = None" using assms(6) by (simp add: service_request_def)
  consider (forwarded) "?v = Admitted"
    | (refused) "mount_guard ?m \<noteq> None" "\<And>status msg. ?v = Blocked status msg \<Longrightarrow> status = 401"
        "\<And>err. ?v = Thrown err \<Longrightarrow> resolve_status err = 401"
    using assms(8) g by (cases ?v; cases "snd (handle_request run base sha256 ?w app ?m ?ex)")
      (auto simp: attempted_def)
  then have "\<not> gated ?w app (client_ip a) \<and> (\<exists>x y. ?ac = Inr x \<and> sent (ex_reply x) = None
      \<and> (w_limit ?w (app_rate_limit app) x = Inr y \<or> (\<exists>err. w_limit ?w (app_rate_limit app) x = Inl err \<and> resolve_status err = 401)))"
  proof cases
    case forwarded
    then show ?thesis
      by (auto simp: verdict_of_def client_ip_def split: if_splits sum.splits)
  next
    case refused
    have "\<not> gated ?w app (client_ip a)"
      using refused(2) [of "gate_status app (client_ip a)" "gate_message app (client_ip a)"] gate_status_values [of app "client_ip a"]
      by (auto simp: verdict_of_def client_ip_def)
    moreover from this have "w_limit ?w (app_rate_limit app) (traced ?w ?ex) = Inl err \<Longrightarrow> resolve_status err = 401" for err
      using refused(3) guarded [OF refused(1)] unsent by (simp add: verdict_of_def client_ip_def)
    ultimately show ?thesis
      using guarded [OF refused(1)] unsent by (cases "w_limit ?w (app_rate_limit app) (traced ?w ?ex)") auto
  qed
  then obtain x where x: "\<not> gated ?w app (client_ip a)" "?ac = Inr x" "sent (ex_reply x) = None"
    and l: "\<And>err. w_limit ?w (app_rate_limit app) x = Inl err \<Longrightarrow> resolve_status err = 401"
    by auto
  have "count hs (ar_now a) (client_ip a)
      = Some (Suc (length (filter (same_window window (client_ip a) (ar_now a)) hs)))"
    using assms(3) unfolding counts_in_def by blast
  with limiter_answer [OF assms(2,4,6,7) x(2,3)] l have
    "int (Suc (length (filter (same_window window (client_ip a) (ar_now a)) hs))) \<le> RATE_LIMIT_MAX (app_config app)"
    by (fastforce simp: over_limit_def split: if_splits)
  then show ?thesis using x by (simp add: reaches_limiter_def)
qed

subsection \<open>The budget\<close>

lemma attempts_within:
  assumes "lifecycle run" and "build_app pf env = Inr app" and "counts_in window count"
    and "limited_traffic sha256 app count hs as"
  shows "length (filter (\<lambda>a. client_ip a = ip \<and> window ip (ar_now a) = w
      \<and> attempted a (snd (handle_request run base sha256 (ar_world a) app (ar_mount a) (ar_exchange a)))) as)
    \<le> nat (RATE_LIMIT_MAX (app_config app))
      - length (filter (\<lambda>h. snd h = ip \<and> window ip (fst h) = w) hs)"
  using assms(4)
proof (induction as arbitrary: hs)
  case (Cons a as)
  let ?Q = "\<lambda>a. client_ip a = ip \<and> window ip (ar_now a) = w
    \<and> attempted a (snd (handle_request run base sha256 (ar_world a) app (ar_mount a) (ar_exchange a)))"
  let ?n = "\<lambda>hs. length (filter (\<lambda>h. snd h = ip \<and> window ip (fst h) = w) hs)"
  have l: "limits_by count hs (ar_now a) (w_limit (ar_world a))" "ar_mount a \<in> set (app_mounts app)"
    "service_request (ar_exchange a)" "route_rate_limit (req_route (ex_request (ar_exchange a))) \<noteq> Some False"
    and rest: "limited_traffic sha256 app count (hs @ hit_of sha256 app a) as"
    using Cons.prems by simp_all
  note IH = Cons.IH [OF rest]
  show ?case
  proof (cases "?Q a")
    case True
    have "reaches_limiter sha256 app a
        \<and> length (filter (same_window window (client_ip a) (ar_now a)) hs) < nat (RATE_LIMIT_MAX (app_config app))"
      using attempted_within [OF assms(1-3) l] True by blast
    moreover have "same_window window (client_ip a) (ar_now a) = (\<lambda>h. snd h = ip \<and> window ip (fst h) = w)"
      using True by (auto simp: same_window_def)
    ultimately have "?n hs < nat (RATE_LIMIT_MAX (app_config app))" "?n (hs @ hit_of sha256 app a) = Suc (?n hs)"
      using True by (simp_all add: hit_of_def)
    with IH True show ?thesis by simp
  next
    case False
    then have skip: "filter ?Q (a # as) = filter ?Q as" by (simp only: filter.simps if_False)
    have "?n hs \<le> ?n (hs @ hit_of sha256 app a)" by simp
    from order_trans [OF IH diff_le_mono2 [OF this]] show ?thesis unfolding skip .
  qed
qed simp

text \<open>C11. Credentials cannot be guessed faster than the budget: over any sequence of requests to the services
  of a booted gateway whose limiter's store works, the requests of one client address in one window
  that reach an upstream or are refused by a guard with 401 are at most \<open>RATE_LIMIT_MAX\<close> together,
  whatever other clients do and on whichever services.\<close>
theorem attempts_bounded:
  assumes "lifecycle run" and "build_app pf env = Inr app" and "counts_in window count"
    and "limited_traffic sha256 app count [] as"
  shows "length (filter (\<lambda>a. client_ip a = ip \<and> window ip (ar_now a) = w
      \<and> attempted a (snd (handle_request run base sha256 (ar_world a) app (ar_mount a) (ar_exchange a)))) as)
    \<le> nat (RATE_LIMIT_MAX (app_config app))"
  using attempts_within [OF assms, of ip w base] by simp

text \<open>Within its budget, and whenever the store fails, a client's request is decided by the guard of the
  service alone: nobody else's requests count, and neither do those stopped by a gate of the root
  scope or answered from the cache.\<close>
theorem within_budget_decided:
  fixes a :: arrival
  assumes "build_app pf env = Inr app" and "limits_by count hs (ar_now a) (w_limit (ar_world a))"
    and "service_request (ar_exchange a)" and "route_rate_limit (req_route (ex_request (ar_exchange a))) \<noteq> Some False"
    and "reaches_limiter sha256 app a"
    and "\<And>n. count hs (ar_now a) (client_ip a) = Some n \<Longrightarrow> int n \<le> RATE_LIMIT_MAX (app_config app)"
  shows "verdict_of sha256 (ar_world a) app (ar_mount a) (ar_exchange a)
    = (case mount_guard (ar_mount a) of None \<Rightarrow> Admitted
       | Some guard \<Rightarrow> guard_verdict guard (w_auth (ar_world a)) (ex_tokens (ar_exchange a))
           (ex_request (traced (ar_world a) (ar_exchange a))))"
proof -
  from assms(5) obtain x where g: "\<not> gated (ar_world a) app (client_ip a)"
    and x: "after_cache sha256 (ar_world a) (ar_mount a) (traced (ar_world a) (ar_exchange a)) = Inr x"
      "sent (ex_reply x) = None"
    by (auto simp: reaches_limiter_def split: sum.splits)
  have "\<exists>y. w_limit (ar_world a) (app_rate_limit app) x = Inr y"
    using limiter_answer [OF assms(1-4) x] assms(6) by (auto split: option.splits if_splits)
  then obtain y where "w_limit (ar_world a) (app_rate_limit app) x = Inr y" by blast
  with g x show ?thesis by (simp add: verdict_of_def client_ip_def split: option.split)
qed

subsection \<open>A budget of one\<close>

definition tight_settings :: settings where
  "tight_settings = app_settings(''RATE_LIMIT_MAX'' \<mapsto> NumberValue 1 0)"

definition tight_platform :: platform where
  "tight_platform = sample_platform\<lparr>pf_validate := (\<lambda>_. Inr tight_settings)\<rparr>"

lemma tight_settings_values:
  "CORS_ALLOW_CREDENTIALS (typed_config tight_settings) = False"
  "IP_ALLOW_LIST (typed_config tight_settings) = []"
  "IP_DENY_LIST (typed_config tight_settings) = ''192.0.2.0/24''"
  "BASIC_AUTH_USERS (typed_config tight_settings) = []"
  "JWT_JWKS_URI (typed_config tight_settings) = []"
  "REDIS_URL (typed_config tight_settings) = []"
  "CACHE_ENABLED (typed_config tight_settings) = False"
  "RATE_LIMIT_MAX (typed_config tight_settings) = 1"
  "USERS_SERVICE_URL (typed_config tight_settings) = ''http://localhost:3001''"
  "ORDERS_SERVICE_URL (typed_config tight_settings) = ''http://localhost:3002''"
  "PUBLIC_SERVICE_URL (typed_config tight_settings) = ''http://localhost:3003''"
  unfolding typed_config_def gateway_config.select_convs tight_settings_def app_settings_def
  by code_simp+

lemma tight_app:
  obtains app m where "build_app tight_platform Map.empty = Inr app" and "RATE_LIMIT_MAX (app_config app) = 1"
    and "m \<in> set (app_mounts app)"
proof -
  obtain factory where "factory_options_of Map.empty = Inr factory" "registers tight_platform (RegFastify factory)"
    using sample_factory by (auto simp: registers_def tight_platform_def)
  moreover have "pf_validate tight_platform Map.empty = Inr tight_settings" by (simp add: tight_platform_def)
  moreover have "config_accepted tight_platform (typed_config tight_settings)"
    using sample_accepted sample_registers [of tight_platform "typed_config tight_settings"]
    by (simp add: config_accepted_def tight_settings_values app_settings_values tight_platform_def
        sample_platform_def)
  ultimately obtain app where app: "build_app tight_platform Map.empty = Inr app"
    "app_config app = typed_config tight_settings"
    using build_app_ok by blast
  from build_app_parts(12) [OF app(1)] obtain m where "m \<in> set (app_mounts app)"
    using mount_services_first unfolding service_gateways_def by blast
  with that app show thesis by (simp add: tight_settings_values)
qed

definition minute :: "string \<Rightarrow> int \<Rightarrow> int" where
  "minute key t = t div 60000"

definition counting_limit :: "hits \<Rightarrow> int \<Rightarrow> rate_limit_options \<Rightarrow> hook" where
  "counting_limit hs now options ex =
     (if route_rate_limit (req_route (ex_request ex)) = Some False
        \<or> int (Suc (length (filter (same_window minute (rl_key options (ex_request ex)) now) hs))) \<le> rl_max options
      then Inr ex
      else Inl \<lparr>err_code = Some ''FST_ERR_RATE_LIMIT'', err_message = ''Rate limit exceeded'', err_status = Some 429\<rparr>)"

definition minute_count :: hit_count where
  "minute_count hs now key = Some (Suc (length (filter (same_window minute key now) hs)))"

lemma counting_limit_law: "limits_by minute_count hs now (counting_limit hs now)"
  by (simp add: limits_by_def limiter_law_def counting_limit_def minute_count_def over_limit_def resolve_status_def
      upstream_timeout_codes_def upstream_connection_codes_def reply_from_wrapper_code_def)

definition tight_arrival :: "mount \<Rightarrow> hits \<Rightarrow> arrival" where
  "tight_arrival m hs = (users_arrival m refusing_proxy)
     \<lparr>ar_world := sample_world\<lparr>w_limit := counting_limit hs 0\<rparr>, ar_now := 0\<rparr>"

theorem attempts_bounded_witness:
  "\<exists>app m. build_app tight_platform Map.empty = Inr app \<and> m \<in> set (app_mounts app)
    \<and> length (filter (\<lambda>a. client_ip a = ''203.0.113.9'' \<and> minute ''203.0.113.9'' (ar_now a) = 0
         \<and> attempted a (snd (handle_request run_hooks id (\<lambda>b. b) (ar_world a) app (ar_mount a) (ar_exchange a))))
       [tight_arrival m [], tight_arrival m (hit_of (\<lambda>b. b) app (tight_arrival m []))]) \<le> 1"
proof -
  obtain app m where app: "build_app tight_platform Map.empty = Inr app" "RATE_LIMIT_MAX (app_config app) = 1"
    "m \<in> set (app_mounts app)"
    by (rule tight_app)
  have c: "counts_in minute minute_count" by (simp add: counts_in_def minute_count_def)
  have f: "ar_mount (tight_arrival m hs) = m" "ar_now (tight_arrival m hs) = 0"
    "w_limit (ar_world (tight_arrival m hs)) = counting_limit hs 0"
    "service_request (ar_exchange (tight_arrival m hs))"
    "route_rate_limit (req_route (ex_request (ar_exchange (tight_arrival m hs)))) \<noteq> Some False" for hs
    by (simp_all add: tight_arrival_def users_arrival_def sample_exchange_def service_request_def sample_request_def)
  have t: "limited_traffic (\<lambda>b. b) app minute_count []
      [tight_arrival m [], tight_arrival m (hit_of (\<lambda>b. b) app (tight_arrival m []))]"
    using app(3) counting_limit_law by (simp add: f)
  have one: "nat (RATE_LIMIT_MAX (app_config app)) = 1" by (simp add: app(2))
  show ?thesis
    by (intro exI conjI, rule app(1), rule app(3))
      (rule attempts_bounded [OF run_hooks_lifecycle app(1) c t, of "''203.0.113.9''" 0 id, unfolded one])
qed

end
