(* ===== verification/CacheTraffic.thy ===== *)
theory CacheTraffic
  imports Admission
begin

section \<open>The shared cache under traffic\<close>

text \<open>
  The traffic of an instance (theory \<open>Traffic\<close>) with one Redis behind its cache, and any overlap of
  the requests: what a lookup gets was stored by one of them and had not expired. Where \<open>CacheStore\<close>
  runs the two hooks of \<open>plugins/cache.ts\<close> alone, here whole requests run, with every gate, the proxy
  and the completion hooks, and \<open>cached_answers_sourced\<close> traces each answer from the cache back to the
  upstream response it was taken from.
\<close>

subsection \<open>One Redis\<close>

text \<open>The time a request spends in the gateway.\<close>

definition within :: "arrival \<Rightarrow> int \<Rightarrow> bool" where
  "within a t \<longleftrightarrow> ar_now a - ar_elapsed a \<le> t \<and> t \<le> ar_now a"

text \<open>Redis may fail, time out or have lost a value. A value it returns was set under that key by one of the
  requests, while it was being completed, and had not expired when it was looked up.\<close>

definition honest_redis :: "arrival list \<Rightarrow> completed list \<Rightarrow> bool" where
  "honest_redis as cs \<longleftrightarrow>
     (\<forall>a \<in> set as. \<forall>key v. redis_get (w_cache (ar_world a)) key = RedisValue (Some v) \<longrightarrow>
       (\<exists>i < length as. \<exists>c \<in> set (co_commands (cs ! i)). set_key c = key \<and> set_value c = v
         \<and> (\<exists>t now. within (as ! i) t \<and> within a now \<and> t \<le> now \<and> now < t + set_px c)))"

text \<open>A request to a mounted service, before any hook, behind a limiter and a proxy that keep their laws.\<close>

definition proper :: "app \<Rightarrow> arrival \<Rightarrow> bool" where
  "proper app a \<longleftrightarrow> limiter_law (w_limit (ar_world a)) \<and> proxy_law (ar_proxy a)
     \<and> ar_mount a \<in> set (app_mounts app) \<and> service_request (ar_exchange a)
     \<and> cache_key (ex_request (ar_exchange a)) = []"

subsection \<open>Where a stored response comes from\<close>

lemma answered_body:
  assumes "gives v rid (Answered r)" and "sent r = Some p" and "payload_bytes p = Some body" and "status_code r = 200"
  shows "\<exists>hit. v = FromCache hit"
  using assms by (cases v) (auto simp: payload_bytes_def)

lemma cache_answer:
  assumes "build_app pf env = Inr app" and "m \<in> set (app_mounts app)" and "service_request ex"
    and "verdict_of sha256 w app m ex = FromCache hit"
  obtains name lg later where "mount_hooks m = [ServeHook name, StoreHook name]"
    and "\<not> gated w app (req_ip (ex_request ex))" and "sent hit \<noteq> None"
    and "serve_hook sha256 (w_cache w) name (ex_log ex) (ex_request (traced w ex)) (ex_reply (traced w ex))
      = Inr (lg, later, hit)"
proof -
  have unsent: "sent (ex_reply (traced w ex)) = None" using assms(3) by (simp add: traced_def service_request_def)
  have g: "\<not> gated w app (req_ip (ex_request ex))" using assms(4) by (auto simp: verdict_of_def split: if_splits)
  then obtain x where x: "after_cache sha256 w m (traced w ex) = Inr x" "sent (ex_reply x) \<noteq> None" "ex_reply x = hit"
    using assms(4) by (auto simp: verdict_of_def guard_verdict_def split: sum.splits if_splits option.splits)
  then have "mount_hooks m \<noteq> []" using unsent by (auto simp: after_cache_def)
  with mounted_hooks [OF assms(1,2)] obtain name where n: "mount_hooks m = [ServeHook name, StoreHook name]" by blast
  have "ex_log (traced w ex) = ex_log ex" by (simp add: traced_def)
  with x(1) n obtain lg later where
    "serve_hook sha256 (w_cache w) name (ex_log ex) (ex_request (traced w ex)) (ex_reply (traced w ex))
      = Inr (lg, later, ex_reply x)"
    by (auto simp: after_cache_def cache_serve_hook_def split: sum.splits prod.splits)
  with that n g x(2,3) show thesis by simp
qed

lemma ttl_capped: "0 < resolve_ttl_ms config reply \<Longrightarrow> resolve_ttl_ms config reply \<le> CACHE_MAX_TTL_MS config"
  by (cases "forbids_storing (header_text (header_of (reply_headers reply) HdrCacheControl))")
    (simp_all add: resolve_ttl_ms_def Let_def)

text \<open>A request answered from the cache leaves nothing to store.\<close>

lemma hit_not_stored:
  assumes "lifecycle run" and "build_app pf env = Inr app" and "proper app a"
    and "verdict_of sha256 (ar_world a) app (ar_mount a) (ar_exchange a) = FromCache hit"
  shows "co_outcome (fst (serve_request run base sha256 app a st)) = Answered hit
    \<and> ex_reply (co_exchange (fst (serve_request run base sha256 app a st))) = hit
    \<and> co_commands (fst (serve_request run base sha256 app a st)) = []"
proof -
  have p: "ar_mount a \<in> set (app_mounts app)" "service_request (ar_exchange a)"
    using assms(3) by (simp_all add: proper_def)
  obtain name lg later where c: "mount_hooks (ar_mount a) = [ServeHook name, StoreHook name]"
    "\<not> gated (ar_world a) app (req_ip (ex_request (ar_exchange a)))" "sent hit \<noteq> None"
    "serve_hook sha256 (w_cache (ar_world a)) name (ex_log (ar_exchange a))
      (ex_request (traced (ar_world a) (ar_exchange a))) (ex_reply (traced (ar_world a) (ar_exchange a)))
      = Inr (lg, later, hit)"
    by (rule cache_answer [OF assms(2) p assms(4)])
  from c(3) obtain body where "sent hit = Some body" by blast
  from served_from_cache [OF assms(1) p(2) c(2,1,4) this] show ?thesis .
qed

text \<open>Only a forwarded request stores something: the bytes of its upstream's answer, which its client got.\<close>

lemma command_sourced:
  assumes "lifecycle run" and "build_app pf env = Inr app" and "proper app a" and "0 \<le> CACHE_MAX_BODY_BYTES (app_config app)"
    and "command \<in> set (co_commands (fst (serve_request run base sha256 app a st)))"
  obtains name up hs s reply req where "mount_hooks (ar_mount a) = [ServeHook name, StoreHook name]"
    and "set_key command = cache_key_of sha256 name (ex_request (ar_exchange a))"
    and "may_serve (ex_request (ar_exchange a))"
    and "co_outcome (fst (serve_request run base sha256 app a st)) = Forwarded up hs"
    and "sent (ex_reply (co_exchange (fst (serve_request run base sha256 app a st)))) = Some (StreamPayload s)"
    and "\<not> stream_fails s" and "status_code reply = 200"
    and "0 < set_px command" and "set_px command \<le> CACHE_MAX_TTL_MS (app_config app)"
    and "set_value command = set_value (store_entry req reply (set_px command) (concat (map chunk_bytes (chunks s))))"
proof -
  let ?c = "fst (serve_request run base sha256 app a st)"
  let ?h = "handle_request run base sha256 (ar_world a) app (ar_mount a) (ar_exchange a)"
  have pr: "limiter_law (w_limit (ar_world a))" "ar_mount a \<in> set (app_mounts app)" "service_request (ar_exchange a)"
    "cache_key (ex_request (ar_exchange a)) = []" and px: "proxy_law (ar_proxy a)"
    using assms(3) by (simp_all add: proper_def)
  obtain name reply p reply' p' req where m: "mount_hooks (ar_mount a) = [ServeHook name, StoreHook name]"
    and h: "store_hook (app_config app) req reply p = (reply', p', Some command)"
    and k: "set_key command = cache_key_of sha256 name (ex_request (ar_exchange a))"
    and ms: "may_serve (ex_request (ar_exchange a))" and sp: "sent (ex_reply (co_exchange ?c)) = Some p"
    and rq: "reply = ex_reply (answered run base sha256 app a)" "sent reply = Some p"
    by (rule commands_keyed [OF assms(1) pr(1) assms(2) pr(2-4) assms(5)])
  from store_hook_cases [OF assms(4), of req reply p] h obtain body where b: "payload_bytes p = Some body"
    "status_code reply = 200" "0 < resolve_ttl_ms (app_config app) reply" "command = store_entry req reply (resolve_ttl_ms (app_config app) reply) body"
    by (auto split: option.splits if_splits)
  note out = completed_reply(6) [of run base sha256 app a st]
  note g = pipeline_decides [OF assms(1) pr(1) assms(2) pr(2,3), of sha256 base]
  show thesis
  proof (cases "snd ?h")
    case (Answered r)
    have r: "r = reply" using answered_outcome [OF Answered] rq(1) by simp
    from answered_body [OF g [unfolded Answered], unfolded r, OF rq(2) b(1,2)] obtain hit where
      "verdict_of sha256 (ar_world a) app (ar_mount a) (ar_exchange a) = FromCache hit" by blast
    from hit_not_stored [OF assms(1-3) this, of base st] assms(5) show thesis by simp
  next
    case (Forwarded up hs)
    note unsent = forwarded_unsent [OF Forwarded]
    have a: "answered run base sha256 app a = proxied (ar_proxy a) up hs (fst ?h)"
      using Forwarded by (simp add: answered_def split_beta Let_def)
    have "ar_proxy a up hs (fst ?h) \<noteq> Inl err" for err
    proof
      assume "ar_proxy a up hs (fst ?h) = Inl err"
      then have "\<exists>e. sent reply = Some (ErrorPayload e)"
        using unsent by (auto simp: rq(1) a proxied_def error_reply_def handle_error_def Let_def split: prod.split)
      with rq(2) b(1) show False by (auto simp: payload_bytes_def)
    qed
    then obtain reply0 where r0: "ar_proxy a up hs (fst ?h) = Inr reply0" by (cases "ar_proxy a up hs (fst ?h)") auto
    with px unsent obtain ua where "relays ua (ex_reply (fst ?h)) reply0" unfolding proxy_law_def by blast
    moreover have "reply = reply0" by (simp add: rq(1) a proxied_def r0)
    ultimately have p: "p = StreamPayload (ua_body ua)" using rq(2) by (simp add: relays_def)
    then have s: "\<not> stream_fails (ua_body ua)" "body = concat (map chunk_bytes (chunks (ua_body ua)))"
      using b(1) by (auto simp: payload_bytes_def split: if_splits)
    have "resolve_ttl_ms (app_config app) reply \<le> CACHE_MAX_TTL_MS (app_config app)"
      using b(3) by (rule ttl_capped)
    moreover have "co_outcome ?c = Forwarded up hs" using out Forwarded by simp
    ultimately show thesis
      using that [OF m k ms _ sp [unfolded p] s(1) b(2), of up hs] b(3) by (simp add: b(4) s(2) store_entry_def)
  qed
qed

text \<open>A cached reply replays a stored one: its status and the bytes behind its base64 text.\<close>

lemma hit_replays:
  assumes "sent fresh = None" and "serve_hook sha256 env name app_log req fresh = Inr (app_log', req', hit)"
    and "sent hit \<noteq> None" and "status_code reply = 200"
    and "\<And>raw. redis_get env (cache_key_of sha256 name req) = RedisValue (Some raw)
      \<Longrightarrow> raw = set_value (store_entry req0 reply ttl body)"
  shows "status_code hit = 200 \<and> sent hit = Some (BufferPayload body)"
proof -
  obtain raw j e where raw: "redis_get env (cache_key_of sha256 name req) = RedisValue (Some raw)"
    and j: "json_parse raw = Some j" "entry_of_json j = Some e" and hit: "hit = replay_hit e fresh"
    by (rule serve_hit [OF assms(1-3)])
  from cached_value [OF assms(4), of req0 ttl body] j assms(5) [OF raw]
  have "e = \<lparr>cr_status = int (status_code reply), cr_headers = kept_headers reply, cr_body = base64_encode body\<rparr>"
    by auto
  then show ?thesis by (simp add: hit replay_hit_def assms(1,4) base64_round_trip)
qed

text \<open>C4. Every answer from the cache is some upstream's answer. However the requests to a booted gateway
  overlap, whatever Redis loses or refuses, when a request is answered from the cache then some request
  to the same service, without credentials and with the same URL and negotiated headers, was forwarded,
  its client got the whole stream of the upstream's response, and the answer is status 200 with exactly
  those bytes, less than \<open>CACHE_MAX_TTL_MS\<close> after that response. Only SHA-256 collisions between the
  requests at hand could mix entries up.\<close>
theorem cached_answers_sourced:
  assumes "lifecycle run" and "build_app pf env = Inr app" and "0 \<le> CACHE_MAX_BODY_BYTES (app_config app)"
    and "\<forall>a \<in> set as. proper app a" and "cs = fst (serve_all run base sha256 app as st)"
    and "honest_redis as cs"
    and "\<forall>a \<in> set as. \<forall>b \<in> set as. no_collision sha256 (js_codes (cache_key_text (ex_request (ar_exchange a))))
      (js_codes (cache_key_text (ex_request (ar_exchange b))))"
    and "j < length as"
    and "verdict_of sha256 (ar_world (as ! j)) app (ar_mount (as ! j)) (ar_exchange (as ! j)) = FromCache hit"
  shows "co_outcome (cs ! j) = Answered hit \<and> status_code hit = 200
    \<and> (\<exists>i < length as. \<exists>up hs s. co_outcome (cs ! i) = Forwarded up hs
        \<and> sent (ex_reply (co_exchange (cs ! i))) = Some (StreamPayload s) \<and> \<not> stream_fails s
        \<and> sent hit = Some (BufferPayload (concat (map chunk_bytes (chunks s))))
        \<and> mount_hooks (ar_mount (as ! i)) = mount_hooks (ar_mount (as ! j))
        \<and> may_serve (ex_request (ar_exchange (as ! i)))
        \<and> cache_key_text (ex_request (ar_exchange (as ! i))) = cache_key_text (ex_request (ar_exchange (as ! j)))
        \<and> ar_now (as ! j) - ar_elapsed (as ! j) < ar_now (as ! i) + CACHE_MAX_TTL_MS (app_config app)
        \<and> ar_now (as ! i) - ar_elapsed (as ! i) \<le> ar_now (as ! j))"
proof -
  let ?b = "as ! j"
  let ?t = "traced (ar_world ?b) (ar_exchange ?b)"
  have b: "?b \<in> set as" using assms(8) by simp
  then have pb: "proper app ?b" using assms(4) by blast
  then have mb: "ar_mount ?b \<in> set (app_mounts app)" "service_request (ar_exchange ?b)"
    by (simp_all add: proper_def)
  obtain name lg later where hooks: "mount_hooks (ar_mount ?b) = [ServeHook name, StoreHook name]"
    and sent: "sent hit \<noteq> None" and served: "serve_hook sha256 (w_cache (ar_world ?b)) name
      (ex_log (ar_exchange ?b)) (ex_request ?t) (ex_reply ?t) = Inr (lg, later, hit)"
    by (rule cache_answer [OF assms(2) mb assms(9)])
  have unsent: "sent (ex_reply ?t) = None" using mb(2) by (simp add: traced_def service_request_def)
  obtain raw where raw: "redis_get (w_cache (ar_world ?b))
      (cache_key_of sha256 name (ex_request (ar_exchange ?b))) = RedisValue (Some raw)"
    by (rule serve_hit [OF unsent served sent]) (simp add: key_of_traced)
  with assms(6) b obtain i command t now where i: "i < length as" "command \<in> set (co_commands (cs ! i))"
    and set: "set_key command = cache_key_of sha256 name (ex_request (ar_exchange ?b))" "set_value command = raw"
    and times: "within (as ! i) t" "within ?b now" "t \<le> now" "now < t + set_px command"
    unfolding honest_redis_def by blast
  let ?a = "as ! i"
  have pa: "proper app ?a" using assms(4) i(1) by simp
  obtain st' where ci: "cs ! i = fst (serve_request run base sha256 app ?a st')"
    using serve_all_nth [OF i(1)] assms(5) by metis
  from command_sourced [OF assms(1,2) pa assms(3) i(2) [unfolded ci]]
  obtain name' up hs s reply req where src: "mount_hooks (ar_mount ?a) = [ServeHook name', StoreHook name']"
    "set_key command = cache_key_of sha256 name' (ex_request (ar_exchange ?a))"
    "may_serve (ex_request (ar_exchange ?a))" "co_outcome (cs ! i) = Forwarded up hs"
    "sent (ex_reply (co_exchange (cs ! i))) = Some (StreamPayload s)" "\<not> stream_fails s" "status_code reply = 200"
    "set_px command \<le> CACHE_MAX_TTL_MS (app_config app)"
    "set_value command = set_value (store_entry req reply (set_px command) (concat (map chunk_bytes (chunks s))))"
    unfolding ci by metis
  have "no_collision sha256 (js_codes (cache_key_text (ex_request (ar_exchange ?a))))
      (js_codes (cache_key_text (ex_request (ar_exchange ?b))))"
    using assms(7) i(1) b by simp
  from cache_key_eq [OF this] src(2) set(1)
  have same: "name' = name" "cache_key_text (ex_request (ar_exchange ?a)) = cache_key_text (ex_request (ar_exchange ?b))"
    by metis+
  have hit: "status_code hit = 200" "sent hit = Some (BufferPayload (concat (map chunk_bytes (chunks s))))"
    using hit_replays [OF unsent served sent src(7)] raw src(9) set(2) by (simp_all add: key_of_traced)
  obtain st'' where "cs ! j = fst (serve_request run base sha256 app ?b st'')"
    using serve_all_nth [OF assms(8)] assms(5) by metis
  with hit_not_stored [OF assms(1,2) pb assms(9), of base st''] have "co_outcome (cs ! j) = Answered hit" by simp
  moreover have "mount_hooks (ar_mount ?a) = mount_hooks (ar_mount ?b)" by (simp add: src(1) hooks same(1))
  moreover have "ar_now ?b - ar_elapsed ?b < ar_now ?a + CACHE_MAX_TTL_MS (app_config app)"
    "ar_now ?a - ar_elapsed ?a \<le> ar_now ?b"
    using times src(8) by (simp_all add: within_def)
  ultimately show ?thesis using i(1) src(3-6) same(2) hit by blast
qed

subsection \<open>A second request, served from the first\<close>

lemma cache_verdict:
  assumes "\<not> gated w app (req_ip (ex_request ex))" and "mount_hooks m = [ServeHook name, StoreHook name]"
    and "serve_hook sha256 (w_cache w) name (ex_log ex) (ex_request (traced w ex)) (ex_reply (traced w ex))
      = Inr (lg, later, hit)" and "sent hit = Some p"
  shows "verdict_of sha256 w app m ex = FromCache hit"
proof -
  have "ex_log (traced w ex) = ex_log ex" by (simp add: traced_def)
  then show ?thesis using assms by (simp add: verdict_of_def after_cache_def cache_serve_hook_def)
qed

lemma sample_proper: "m \<in> set (app_mounts app) \<Longrightarrow> proper app (sample_arrival m env [])"
  using sample_arrival_facts(1,2,3) [where m = m and env = env and hs = "[]"] sample_proxy_law
  by (simp add: proper_def sample_arrival_def)

theorem cached_answers_sourced_witness:
  "\<exists>app m env hit. build_app cached_platform Map.empty = Inr app \<and> status_code hit = 200
    \<and> co_outcome (fst (serve_all run_hooks id (\<lambda>b. b) app [sample_arrival m no_redis [], sample_arrival m env []] quiet) ! 1)
      = Answered hit"
proof -
  obtain app m where app: "build_app cached_platform Map.empty = Inr app"
    "app_config app = typed_config cached_settings" "app_ip_filter app = Some deny_filter"
    "m \<in> set (app_mounts app)" "mount_guard m = None"
    "mount_hooks m = [ServeHook ''public'', StoreHook ''public'']"
    by (rule cached_app)
  obtain command where c: "co_commands (fst (serve_request run_hooks id (\<lambda>b. b) app
      (sample_arrival m no_redis []) quiet)) = [command]"
    using first_stores [OF app(2,3,5,6), of quiet] by blast
  define env where "env = \<lparr>redis_status = ''ready'',
    redis_get = (\<lambda>k. if k = set_key command then RedisValue (Some (set_value command)) else RedisValue None)\<rparr>"
  let ?a = "sample_arrival m no_redis []" and ?b = "sample_arrival m env []"
  let ?cs = "fst (serve_all run_hooks id (\<lambda>b. b) app [?a, ?b] quiet)"
  have pr: "proper app ?a" "proper app ?b" using sample_proper [OF app(4)] by simp_all
  have bound: "0 \<le> CACHE_MAX_BODY_BYTES (app_config app)" by (simp add: app(2) cached_settings_values)
  have mem: "command \<in> set (co_commands (fst (serve_request run_hooks id (\<lambda>b. b) app ?a quiet)))" by (simp add: c)
  have first: "co_commands (?cs ! 0) = [command]" using c by (simp add: split_beta Let_def)
  have px: "0 < set_px command" by (rule command_sourced [OF run_hooks_lifecycle app(1) pr(1) bound mem])
  have honest: "honest_redis [?a, ?b] ?cs"
  proof -
    have w: "within ?a 100000" "within ?b 100000" by (simp_all add: within_def sample_arrival_def)
    have e: "w_cache (ar_world ?a) = no_redis" "w_cache (ar_world ?b) = env" by (simp_all add: sample_arrival_def)
    have "\<exists>i < 2. \<exists>c \<in> set (co_commands (?cs ! i)). set_key c = set_key command \<and> set_value c = set_value command
        \<and> (\<exists>t now. within ([?a, ?b] ! i) t \<and> within ?b now \<and> t \<le> now \<and> now < t + set_px c)"
      using w px first by (intro exI [of _ 0]) (auto intro!: exI [of _ 100000])
    moreover have "redis_get no_redis key \<noteq> RedisValue (Some v)" for key v by (simp add: no_redis_def)
    moreover have "key = set_key command \<and> v = set_value command" if "redis_get env key = RedisValue (Some v)" for key v
      using that by (simp add: env_def split: if_splits)
    ultimately show ?thesis
      unfolding honest_redis_def by (simp only: e list.set ball_simps length_Cons list.size One_nat_def) (metis numeral_2_eq_2 e)
  qed
  have facts: "service_request (ar_exchange ?b)"
    "\<not> gated (ar_world ?b) app (req_ip (ex_request (ar_exchange ?b)))" "ar_exchange ?b = public_exchange ''203.0.113.9'' []"
    "w_cache (ar_world ?b) = env" "ar_mount ?b = m" "ar_exchange ?a = ar_exchange ?b" "ar_mount ?a = m"
    using sample_arrival_facts(1,4) [where m = m and env = env and hs = "[]"] app(3) by (simp_all add: sample_arrival_def)
  let ?t = "traced (ar_world ?b) (ar_exchange ?b)"
  have t: "may_serve (ex_request ?t)"
    "\<not> has_word ''no-cache'' (header_text (req_header (ex_request ?t) HdrCacheControl))" "sent (ex_reply ?t) = None"
    using open_get_served facts(1) by (simp_all add: traced_request facts(3)) (simp add: traced_def service_request_def)
  have limits: "limiter_law (w_limit (ar_world ?a))" "ar_mount ?a \<in> set (app_mounts app)"
    "service_request (ar_exchange ?a)" "cache_key (ex_request (ar_exchange ?a)) = []"
    using pr(1) by (simp_all add: proper_def)
  obtain reply p reply' p' req where h: "store_hook (app_config app) req reply p = (reply', p', Some command)"
    "set_key command = cache_key_of (\<lambda>b. b) ''public'' (ex_request (ar_exchange ?a))"
    by (rule commands_keyed [OF run_hooks_lifecycle limits(1) app(1) limits(2-4) mem]) (simp add: facts(7) app(6))
  have "cache_key_of (\<lambda>b. b) ''public'' (ex_request ?t) = set_key command"
    by (simp add: h(2) key_of_traced facts(6))
  moreover have "redis_status (w_cache (ar_world ?b)) = ''ready''"
    "redis_get (w_cache (ar_world ?b)) (set_key command) = RedisValue (Some (set_value command))"
    unfolding facts(4) by (simp_all add: env_def)
  ultimately obtain body lg later hit where s: "serve_hook (\<lambda>b. b) (w_cache (ar_world ?b)) ''public''
      (ex_log (ar_exchange ?b)) (ex_request ?t) (ex_reply ?t) = Inr (lg, later, hit)" "sent hit = Some (BufferPayload body)"
    using serve_stored [OF bound h(1) t(1,2) _ _ _ t(3), where service = "''public''" and env = "w_cache (ar_world ?b)" and app_log = "ex_log (ar_exchange ?b)"]
    by blast
  have v: "verdict_of (\<lambda>b. b) (ar_world ([?a, ?b] ! 1)) app (ar_mount ([?a, ?b] ! 1)) (ar_exchange ([?a, ?b] ! 1))
      = FromCache hit"
    using cache_verdict [OF facts(2) _ s] app(6) facts(5) by simp
  have "co_outcome (?cs ! 1) = Answered hit \<and> status_code hit = 200"
    using cached_answers_sourced [OF run_hooks_lifecycle app(1) bound _ refl honest _ _ v] pr
    by (simp add: no_collision_def)
  with app(1) show ?thesis by blast
qed

end
