(* ===== verification/SecurityHooks.thy ===== *)
theory SecurityHooks
  imports CacheTraffic
begin

section \<open>Behind the security headers\<close>

text \<open>
  \<open>plugins/security.ts\<close> is registered before every other plugin (\<open>app.ts\<close>), so the hooks of
  \<open>@fastify/helmet\<close> and \<open>@fastify/cors\<close> run before all of the gateway's own. Theory \<open>App\<close> starts behind
  them, with whatever headers they have set on the reply; here the whole pipeline runs. The hooks are a
  parameter (\<open>secure\<close>) with their documented law: a preflight, which is every \<open>OPTIONS\<close> request, is
  answered at once, and any other request goes on with headers added to its reply.
\<close>

subsection \<open>The whole pipeline\<close>

definition security_law :: "(cors_options \<Rightarrow> hook) \<Rightarrow> bool" where
  "security_law secure \<longleftrightarrow> (\<forall>options ex. sent (ex_reply ex) = None \<longrightarrow>
     (\<exists>x. secure options ex = Inr x \<and> ex_request x = ex_request ex \<and> ex_tokens x = ex_tokens ex
        \<and> ex_log x = ex_log ex
        \<and> (if req_method (ex_request ex) = ''OPTIONS'' then sent (ex_reply x) \<noteq> None
           else sent (ex_reply x) = None \<and> status_code (ex_reply x) = status_code (ex_reply ex))
        \<and> (\<forall>k \<in> correlation_keys.
             header_of (reply_headers (ex_reply x)) k = header_of (reply_headers (ex_reply ex)) k)))"

definition secured_request ::
    "(hook list \<Rightarrow> exchange \<Rightarrow> exchange) \<Rightarrow> (headers \<Rightarrow> headers) \<Rightarrow> hash \<Rightarrow> (cors_options \<Rightarrow> hook) \<Rightarrow> world
       \<Rightarrow> app \<Rightarrow> mount \<Rightarrow> exchange \<Rightarrow> exchange \<times> route_outcome" where
  "secured_request run base sha256 secure w app m ex =
     (let ex = run (secure (app_cors app) # entry_hooks w app @ service_hooks sha256 w m @ route_hooks w app m) ex
      in (ex, outcome_of m base ex))"

definition secured_route ::
    "(hook list \<Rightarrow> exchange \<Rightarrow> exchange) \<Rightarrow> (cors_options \<Rightarrow> hook) \<Rightarrow> world \<Rightarrow> app
       \<Rightarrow> (request \<Rightarrow> reply \<Rightarrow> reply) \<Rightarrow> exchange \<Rightarrow> reply" where
  "secured_route run secure w app handler ex =
     ex_reply (run (secure (app_cors app) # entry_hooks w app @ [w_limit w (app_rate_limit app),
       \<lambda>ex. Inr (ex\<lparr>ex_reply := handler (ex_request ex) (ex_reply ex)\<rparr>)]) ex)"

lemma handle_pair:
  "handle_request run base sha256 w app m ex
    = (let ex = run (entry_hooks w app @ service_hooks sha256 w m @ route_hooks w app m) ex
       in (ex, outcome_of m base ex))"
  by (simp add: handle_request_def outcome_of_def Let_def)

text \<open>Any other request goes on as the rest of the development describes.\<close>

lemma secured_passes:
  assumes "lifecycle run" and "security_law secure" and "sent (ex_reply ex) = None"
    and "req_method (ex_request ex) \<noteq> ''OPTIONS''"
  obtains x where "secure (app_cors app) ex = Inr x" and "ex_request x = ex_request ex" and "sent (ex_reply x) = None"
    and "ex_tokens x = ex_tokens ex" and "status_code (ex_reply x) = status_code (ex_reply ex)"
    and "\<And>base sha256 w m. secured_request run base sha256 secure w app m ex = handle_request run base sha256 w app m x"
    and "\<And>w handler. secured_route run secure w app handler ex = handle_own_route run w app handler x"
proof -
  from assms(2,3) obtain x where x: "secure (app_cors app) ex = Inr x" "ex_request x = ex_request ex"
    "ex_tokens x = ex_tokens ex" "sent (ex_reply x) = None" "status_code (ex_reply x) = status_code (ex_reply ex)"
    unfolding security_law_def using assms(4) by metis
  show thesis
    by (rule that [OF x(1,2,4,3,5)])
      (simp_all add: secured_request_def secured_route_def handle_pair handle_own_route_def run_Cons [OF assms(1)] x)
qed

lemma secured_preflight:
  assumes "lifecycle run" and "security_law secure" and "sent (ex_reply ex) = None"
    and "req_method (ex_request ex) = ''OPTIONS''"
  obtains x where "secure (app_cors app) ex = Inr x" and "ex_request x = ex_request ex" and "sent (ex_reply x) \<noteq> None"
    and "ex_tokens x = ex_tokens ex"
    and "\<And>k. k \<in> correlation_keys
      \<Longrightarrow> header_of (reply_headers (ex_reply x)) k = header_of (reply_headers (ex_reply ex)) k"
    and "\<And>base sha256 w m. secured_request run base sha256 secure w app m ex = (x, Answered (ex_reply x))"
    and "\<And>w handler. secured_route run secure w app handler ex = ex_reply x"
proof -
  from assms(2,3) obtain x where x: "secure (app_cors app) ex = Inr x" "ex_request x = ex_request ex"
    "ex_tokens x = ex_tokens ex" "sent (ex_reply x) \<noteq> None"
    and k: "\<forall>k \<in> correlation_keys. header_of (reply_headers (ex_reply x)) k = header_of (reply_headers (ex_reply ex)) k"
    unfolding security_law_def using assms(4) by metis
  from x(4) obtain p where p: "sent (ex_reply x) = Some p" by blast
  show thesis
    by (rule that [OF x(1,2,4,3) k [rule_format]])
      (simp_all add: secured_request_def secured_route_def outcome_of_def run_Cons [OF assms(1)] x(1) p)
qed

subsection \<open>Preflights\<close>

text \<open>As the CORS hook is the first, its answer to a preflight comes before every gate and without the ids
  of the gateway, also for a denied address and on an overloaded instance.\<close>

lemma preflights_skip_gates:
  assumes "lifecycle run" and "security_law secure" and "sent (ex_reply ex) = None"
    and "req_method (ex_request ex) = ''OPTIONS''" and "app_cors app' = app_cors app"
  shows "secured_request run base sha256 secure w app m ex = secured_request run base sha256 secure w' app' m' ex
    \<and> secured_route run secure w app handler ex = ex_reply (fst (secured_request run base sha256 secure w app m ex))
    \<and> ex_tokens (fst (secured_request run base sha256 secure w app m ex)) = ex_tokens ex
    \<and> (\<exists>r. snd (secured_request run base sha256 secure w app m ex) = Answered r \<and> sent r \<noteq> None
        \<and> (\<forall>k \<in> correlation_keys. header_of (reply_headers r) k = header_of (reply_headers (ex_reply ex)) k))"
proof -
  obtain x where x: "secure (app_cors app) ex = Inr x" "sent (ex_reply x) \<noteq> None" "ex_tokens x = ex_tokens ex"
    "\<And>k. k \<in> correlation_keys
      \<Longrightarrow> header_of (reply_headers (ex_reply x)) k = header_of (reply_headers (ex_reply ex)) k"
    "secured_request run base sha256 secure w app m ex = (x, Answered (ex_reply x))"
    "secured_route run secure w app handler ex = ex_reply x"
    by (rule secured_preflight [OF assms(1-4), of app]) blast
  moreover obtain x' where "secure (app_cors app') ex = Inr x'"
    "secured_request run base sha256 secure w' app' m' ex = (x', Answered (ex_reply x'))"
    by (rule secured_preflight [OF assms(1-4), of app']) blast
  ultimately show ?thesis by (simp add: assms(5))
qed

subsection \<open>Every other request\<close>

text \<open>C2. Every request is decided as specified: behind the security headers, a request to a mounted service
  of a booted gateway is blocked or shed by the entry gates, answered from the cache, stopped by an error
  of the cache or the limiter, or refused by the guard of the service, each with that gate's status and
  uniform body under the request's id; and it is forwarded exactly when it is no preflight and every gate
  admits it, so no well-behaved request is ever dropped on the way.\<close>
theorem every_request_decided:
  assumes "lifecycle run" and "security_law secure" and "limiter_law (w_limit w)" and "build_app pf env = Inr app"
    and "m \<in> set (app_mounts app)" and "service_request ex"
  shows "\<exists>x. secure (app_cors app) ex = Inr x \<and> ex_request x = ex_request ex
    \<and> (req_method (ex_request ex) \<noteq> ''OPTIONS'' \<longrightarrow>
        gives (verdict_of sha256 w app m x) (req_id (ex_request ex))
          (snd (secured_request run base sha256 secure w app m ex)))
    \<and> ((\<exists>up hs. snd (secured_request run base sha256 secure w app m ex) = Forwarded up hs)
        \<longleftrightarrow> req_method (ex_request ex) \<noteq> ''OPTIONS'' \<and> verdict_of sha256 w app m x = Admitted)"
proof -
  have unsent: "sent (ex_reply ex) = None" using assms(6) by (simp add: service_request_def)
  show ?thesis
  proof (cases "req_method (ex_request ex) = ''OPTIONS''")
    case True
    obtain x where "secure (app_cors app) ex = Inr x" "ex_request x = ex_request ex"
      "secured_request run base sha256 secure w app m ex = (x, Answered (ex_reply x))"
      by (rule secured_preflight [OF assms(1,2) unsent True, of app]) blast
    then show ?thesis using True by simp
  next
    case False
    obtain x where x: "secure (app_cors app) ex = Inr x" "ex_request x = ex_request ex" "sent (ex_reply x) = None"
      "secured_request run base sha256 secure w app m ex = handle_request run base sha256 w app m x"
      by (rule secured_passes [OF assms(1,2) unsent False, of app]) blast
    have "service_request x" using assms(6) x(2,3) by (simp add: service_request_def)
    from pipeline_decides [OF assms(1,3-5) this, of sha256 base] gives_forwarded show ?thesis
      using x False by fastforce
  qed
qed

text \<open>A request from arrival to completion, behind the security headers.\<close>

definition secured_serve ::
    "(hook list \<Rightarrow> exchange \<Rightarrow> exchange) \<Rightarrow> (headers \<Rightarrow> headers) \<Rightarrow> hash \<Rightarrow> (cors_options \<Rightarrow> hook) \<Rightarrow> app \<Rightarrow> arrival
       \<Rightarrow> traffic_state \<Rightarrow> completed \<times> traffic_state" where
  "secured_serve run base sha256 secure app a =
     complete_request app a (secured_request run base sha256 secure (ar_world a) app (ar_mount a) (ar_exchange a))"

lemma complete_exchange: "complete_request app (a\<lparr>ar_exchange := x\<rparr>) handled st = complete_request app a handled st"
  by (simp add: complete_request_def cong: route_outcome.case_cong prod.case_cong)

text \<open>The final reply carries the ids of the request, where the upstream's own headers (\<open>own\<close>) set none.\<close>

definition carries_ids :: "string \<Rightarrow> string \<Rightarrow> headers \<Rightarrow> reply \<Rightarrow> bool" where
  "carries_ids rid cid own reply \<longleftrightarrow>
     reply_headers reply ''x-request-id'' = (case own ''x-request-id'' of Some v \<Rightarrow> Some v | None \<Rightarrow> Some (HStr rid))
     \<and> reply_headers reply ''x-correlation-id''
         = (case own ''x-correlation-id'' of Some v \<Rightarrow> Some v | None \<Rightarrow> Some (HStr cid))
     \<and> (\<forall>body. sent reply = Some (ErrorPayload body) \<longrightarrow> eb_request_id body = rid)"

lemma correlated_carries:
  assumes "correlated rid cid ex" and "sent reply = sent (ex_reply ex)"
    and "\<And>n. n \<noteq> ''x-cache'' \<Longrightarrow> reply_headers reply n = reply_headers (ex_reply ex) n"
  shows "carries_ids rid cid Map.empty reply"
  using assms by (simp add: carries_ids_def correlated_def header_of_def header_name.simps)

lemma served_carries:
  fixes st :: traffic_state
  assumes "lifecycle run" and "limiter_law (w_limit (ar_world a))" and "own_entries (w_cache (ar_world a))"
    and "proxy_law (ar_proxy a)" and "build_app pf env = Inr app" and "ar_mount a \<in> set (app_mounts app)"
    and "sent (ex_reply (ar_exchange a)) = None"
    and h: "handle_request run base sha256 (ar_world a) app (ar_mount a) (ar_exchange a) = (ex, outcome)"
  defines "rid \<equiv> req_id (ex_request (ar_exchange a))"
    and "cid \<equiv> context_correlation_id (ex_request (ar_exchange a))"
    and "final \<equiv> ex_reply (co_exchange (fst (serve_request run base sha256 app a st)))"
  shows "case outcome of
      Answered r \<Rightarrow> carries_ids rid cid Map.empty final
    | Forwarded up hs \<Rightarrow>
        (case ar_proxy a up hs ex of
           Inl err \<Rightarrow> carries_ids rid cid Map.empty final
         | Inr reply' \<Rightarrow> \<exists>ua. relays ua (ex_reply ex) reply' \<and> carries_ids rid cid (ua_headers ua) final)"
proof -
  have cor: "correlated rid cid ex"
    using request_correlates [OF assms(1-3,5-7), of base sha256] h by (simp add: rid_def cid_def)
  note reply = completed_reply [where run = run and base = base and digest_of = sha256 and app = app and a = a and st = st]
  show ?thesis
  proof (cases outcome)
    case (Answered r)
    then have "answered run base sha256 app a = ex" by (simp add: answered_def h)
    with reply(2,3) cor Answered show ?thesis by (simp add: final_def correlated_carries)
  next
    case (Forwarded up hs)
    have unsent: "sent (ex_reply ex) = None"
      using forwarded_unsent [of run base sha256 "ar_world a" app "ar_mount a" "ar_exchange a"] h Forwarded by simp
    show ?thesis
    proof (cases "ar_proxy a up hs ex")
      case (Inl err)
      then have e: "answered run base sha256 app a = error_reply err ex"
        by (simp add: answered_def h Forwarded proxied_def)
      have "carries_ids rid cid Map.empty final"
        using reply(2,3) unfolding e final_def by (intro correlated_carries [OF correlated_error [OF unsent cor]])
      with Inl Forwarded show ?thesis by simp
    next
      case (Inr reply')
      then obtain ua where r: "relays ua (ex_reply ex) reply'"
        using assms(4) unsent unfolding proxy_law_def by blast
      have e: "ex_reply (answered run base sha256 app a) = reply'"
        by (simp add: answered_def h Forwarded proxied_def Inr)
      have "carries_ids rid cid (ua_headers ua) final"
        using cor r reply(2) reply(3) [of "''x-request-id''"] reply(3) [of "''x-correlation-id''"]
        by (simp add: carries_ids_def final_def e relays_def correlated_def header_of_def header_name.simps
            split: option.split)
      with Inr Forwarded r show ?thesis by auto
    qed
  qed
qed

text \<open>C18. Every answer but a preflight's can be traced, as its client gets it: whatever a request to a mounted
  service meets (blocked, shed, limited, refused by any guard, failed in a hook, served from the cache, or
  forwarded to an upstream that fails), the final reply carries the request id and the correlation id the
  upstream would see, and an error body names that same request id; and the reply of an upstream that
  answers carries each of the two, too, unless the upstream sets that very header itself.\<close>
theorem every_answer_correlates:
  fixes st :: traffic_state
  assumes "lifecycle run" and "security_law secure" and "limiter_law (w_limit (ar_world a))"
    and "gateway_written (w_cache (ar_world a))" and "proxy_law (ar_proxy a)"
    and "build_app pf env = Inr app" and "ar_mount a \<in> set (app_mounts app)"
    and "sent (ex_reply (ar_exchange a)) = None" and "req_method (ex_request (ar_exchange a)) \<noteq> ''OPTIONS''"
    and "secured_request run base sha256 secure (ar_world a) app (ar_mount a) (ar_exchange a) = (ex, outcome)"
  defines "rid \<equiv> req_id (ex_request (ar_exchange a))"
    and "cid \<equiv> context_correlation_id (ex_request (ar_exchange a))"
    and "final \<equiv> ex_reply (co_exchange (fst (secured_serve run base sha256 secure app a st)))"
  shows "case outcome of
      Answered r \<Rightarrow> carries_ids rid cid Map.empty final
    | Forwarded up hs \<Rightarrow>
        (case ar_proxy a up hs ex of
           Inl err \<Rightarrow> carries_ids rid cid Map.empty final
         | Inr reply' \<Rightarrow> \<exists>ua. relays ua (ex_reply ex) reply' \<and> carries_ids rid cid (ua_headers ua) final)"
proof -
  obtain x where x: "ex_request x = ex_request (ar_exchange a)" "sent (ex_reply x) = None"
    "\<And>base sha256 w m. secured_request run base sha256 secure w app m (ar_exchange a)
      = handle_request run base sha256 w app m x"
    by (rule secured_passes [OF assms(1,2,8,9), of app]) blast
  let ?a = "a\<lparr>ar_exchange := x\<rparr>"
  have "secured_serve run base sha256 secure app a st = serve_request run base sha256 app ?a st"
    by (simp add: secured_serve_def serve_request_def x(3) complete_exchange)
  moreover have "handle_request run base sha256 (ar_world ?a) app (ar_mount ?a) (ar_exchange ?a) = (ex, outcome)"
    using assms(10) by (simp add: x(3))
  moreover have "ar_proxy ?a = ar_proxy a" "ex_request (ar_exchange ?a) = ex_request (ar_exchange a)"
    "w_limit (ar_world ?a) = w_limit (ar_world a)" "w_cache (ar_world ?a) = w_cache (ar_world a)"
    "ar_mount ?a = ar_mount a" "sent (ex_reply (ar_exchange ?a)) = None"
    using x(1,2) by simp_all
  ultimately show ?thesis
    using served_carries [of run ?a pf env app base sha256 ex outcome st] gateway_written_own [OF assms(4)] assms(1,3,5-7)
    unfolding rid_def cid_def final_def by metis
qed

subsection \<open>Cached answers\<close>

lemma hit_found:
  assumes "sent reply = None" and "serve_hook sha256 env service app_log req reply = Inr (app_log', req', reply')"
    and "sent reply' \<noteq> None"
  obtains j hit where "found env (cache_key_of sha256 service req) = Some j" and "entry_of_json j = Some hit"
    and "reply' = replay_hit hit reply"
proof -
  have "may_serve req" using assms serve_not_allowed by (metis Inr_inject prod.inject)
  from serve_allowed [OF this, of sha256 env service app_log reply] assms that show thesis
    by (auto split: if_splits option.splits)
qed

text \<open>C34. A cached answer grants nothing to the wrong origin: whatever responses the gateway's store hooks have
  put into Redis, an answer from the cache has, for every header but the seven that describe the stored
  body, the ids of the gateway and \<open>x-cache\<close>, exactly what the security hooks set for this very request.
  So neither the CORS headers nor the cookies of the response that was stored are replayed to another
  client.\<close>
theorem cached_headers_own:
  assumes "lifecycle run" and "security_law secure" and "gateway_written (w_cache w)" and "build_app pf env = Inr app"
    and "m \<in> set (app_mounts app)" and "service_request ex" and "limiter_law (w_limit w)" and "req_method (ex_request ex) \<noteq> ''OPTIONS''"
    and "secure (app_cors app) ex = Inr x" and "verdict_of sha256 w app m x = FromCache hit"
    and "n \<notin> {''content-type'', ''content-encoding'', ''content-language'', ''cache-control'', ''etag'',
      ''last-modified'', ''vary'', ''x-cache'', ''x-request-id'', ''x-correlation-id''}"
  shows "snd (secured_request run base sha256 secure w app m ex) = Answered hit
    \<and> reply_headers hit n = reply_headers (ex_reply x) n"
proof -
  have unsent: "sent (ex_reply ex) = None" using assms(6) by (simp add: service_request_def)
  have x: "ex_request x = ex_request ex" "sent (ex_reply x) = None"
    "secured_request run base sha256 secure w app m ex = handle_request run base sha256 w app m x"
    by (rule secured_passes [OF assms(1,2) unsent assms(8), of app]; use assms(9) in simp)+
  have sx: "service_request x" using assms(6) x(1,2) by (simp add: service_request_def)
  obtain name lg later where c: "mount_hooks m = [ServeHook name, StoreHook name]"
    "\<not> gated w app (req_ip (ex_request x))" "sent hit \<noteq> None"
    "serve_hook sha256 (w_cache w) name (ex_log x) (ex_request (traced w x)) (ex_reply (traced w x))
      = Inr (lg, later, hit)"
    by (rule cache_answer [OF assms(4,5) sx assms(10)])
  have t: "sent (ex_reply (traced w x)) = None" using x(2) by (simp add: traced_def)
  obtain j e where e: "found (w_cache w) (cache_key_of sha256 name (ex_request (traced w x))) = Some j"
    "entry_of_json j = Some e" "hit = replay_hit e (ex_reply (traced w x))"
    by (rule hit_found [OF t c(4,3)])
  have "fst ` set (cr_headers e) \<subseteq> header_name ` set stored_headers"
    using gateway_written_own [OF assms(3)] e(1,2) unfolding own_entries_def by blast
  moreover have "n \<notin> header_name ` set stored_headers"
    using assms(11) by (auto simp: stored_headers_def header_name.simps)
  ultimately have "n \<notin> fst ` set (cr_headers e)" by blast
  from replay_headers_other [OF this, of "ex_reply (traced w x)"]
  have "reply_headers hit n = reply_headers (ex_reply x) n"
    using assms(11) by (simp add: e(3) replay_hit_def set_header_def header_name.simps traced_def hook_unfold(5))
  moreover have "snd (handle_request run base sha256 w app m x) = Answered hit"
    using pipeline_decides [OF assms(1,7,4,5) sx, of sha256 base]
    by (cases "snd (handle_request run base sha256 w app m x)") (simp_all add: assms(10))
  ultimately show ?thesis by (simp add: x(3))
qed

subsection \<open>Hooks with the law\<close>

definition allowed_origin :: "cors_options \<Rightarrow> string \<Rightarrow> bool" where
  "allowed_origin options origin = (case cors_origin options of AnyOrigin \<Rightarrow> True | OriginList os \<Rightarrow> origin \<in> set os)"

definition sample_secure :: "cors_options \<Rightarrow> hook" where
  "sample_secure options ex =
     (let granted = (case req_headers (ex_request ex) ''origin'' of
            Some (HStr origin) \<Rightarrow> if allowed_origin options origin then [''access-control-allow-origin'' \<mapsto> HStr origin]
              else Map.empty
          | _ \<Rightarrow> Map.empty);
          reply = (ex_reply ex)\<lparr>reply_headers := (reply_headers (ex_reply ex))(''x-content-type-options'' \<mapsto> HStr ''nosniff'')
            ++ granted\<rparr>
      in Inr (ex\<lparr>ex_reply := (if req_method (ex_request ex) = ''OPTIONS'' then reply\<lparr>status_code := 204, sent := Some NoPayload\<rparr>
           else reply)\<rparr>))"

lemma sample_secure_law: "security_law sample_secure"
  by (auto simp: security_law_def sample_secure_def Let_def correlation_keys_def header_of_def header_name.simps
      map_add_def split: option.split hval.split)

lemma public_get:
  "service_request (public_exchange ip [])" "req_method (ex_request (public_exchange ip [])) \<noteq> ''OPTIONS''"
  "sent (ex_reply (public_exchange ip [])) = None" "req_ip (ex_request (public_exchange ip [])) = ip"
  by (simp_all add: public_exchange_def service_request_def sample_request_def)

theorem every_request_decided_witness:
  "\<exists>app m r. build_app cached_platform Map.empty = Inr app
    \<and> snd (secured_request run_hooks id (\<lambda>b. b) sample_secure sample_world app m (public_exchange ''192.0.2.7'' []))
      = Answered r \<and> status_code r = 403
    \<and> sent r = Some (ErrorPayload (error_body_of ''req-1'' ''Forbidden''))"
proof -
  obtain app m where app: "build_app cached_platform Map.empty = Inr app" "app_ip_filter app = Some deny_filter"
    "m \<in> set (app_mounts app)"
    by (rule cached_app)
  let ?ex = "public_exchange ''192.0.2.7'' []"
  obtain x where x: "ex_request x = ex_request ?ex"
    "gives (verdict_of (\<lambda>b. b) sample_world app m x) (req_id (ex_request ?ex))
      (snd (secured_request run_hooks id (\<lambda>b. b) sample_secure sample_world app m ?ex))"
    using every_request_decided [OF run_hooks_lifecycle sample_secure_law sample_laws(1) app(1,3)
        public_get(1) [of "''192.0.2.7''"], of "\<lambda>b. b" id]
      public_get(2) [of "''192.0.2.7''"] by blast
  have "verdict_of (\<lambda>b. b) sample_world app m x = Blocked 403 ''Forbidden''"
    by (simp add: verdict_of_def x(1) public_get(4) gated_def gate_status_def gate_message_def app(2) deny_filter_values)
  moreover have "req_id (ex_request ?ex) = ''req-1''" by (simp add: public_exchange_def sample_request_def)
  ultimately show ?thesis using x(2) app(1)
    by (cases "snd (secured_request run_hooks id (\<lambda>b. b) sample_secure sample_world app m ?ex)") auto
qed

theorem every_answer_correlates_witness:
  "\<exists>app m. build_app cached_platform Map.empty = Inr app
    \<and> carries_ids ''req-1'' ''req-1'' Map.empty (ex_reply (co_exchange (fst (secured_serve run_hooks id (\<lambda>b. b) sample_secure app
        ((sample_arrival m no_redis [])\<lparr>ar_exchange := public_exchange ''192.0.2.7'' []\<rparr>) quiet))))"
proof -
  obtain app m where app: "build_app cached_platform Map.empty = Inr app" "app_ip_filter app = Some deny_filter"
    "m \<in> set (app_mounts app)"
    by (rule cached_app)
  define a where "a = (sample_arrival m no_redis [])\<lparr>ar_exchange := public_exchange ''192.0.2.7'' []\<rparr>"
  have a: "limiter_law (w_limit (ar_world a))" "gateway_written (w_cache (ar_world a))" "proxy_law (ar_proxy a)"
    "ar_mount a \<in> set (app_mounts app)" "ar_exchange a = public_exchange ''192.0.2.7'' []"
    using app(3) sample_laws(1) sample_proxy_law
    by (simp_all add: a_def sample_arrival_def gateway_written_def no_redis_def sample_world_def limiter_law_def)
  obtain ex outcome where h: "secured_request run_hooks id (\<lambda>b. b) sample_secure (ar_world a) app (ar_mount a) (ar_exchange a)
      = (ex, outcome)" by fastforce
  have ids: "req_id (ex_request (ar_exchange a)) = ''req-1''" "context_correlation_id (ex_request (ar_exchange a)) = ''req-1''"
    by (simp_all add: a(5) public_exchange_def sample_request_def context_correlation_id_def req_header_def header_of_def)
  obtain x where x: "ex_request x = ex_request (ar_exchange a)"
    "gives (verdict_of (\<lambda>b. b) (ar_world a) app m x) ''req-1'' outcome"
  proof -
    obtain x where x: "ex_request x = ex_request (ar_exchange a)" "sent (ex_reply x) = None"
      "secured_request run_hooks id (\<lambda>b. b) sample_secure (ar_world a) app m (ar_exchange a)
        = handle_request run_hooks id (\<lambda>b. b) (ar_world a) app m x"
      using secured_passes [OF run_hooks_lifecycle sample_secure_law public_get(3,2), of app] a(5) by metis
    have "service_request x" using public_get(1) x(1,2) by (simp add: service_request_def a(5))
    from pipeline_decides [OF run_hooks_lifecycle a(1) app(1,3) this, of "\<lambda>b. b" id]
    show thesis using that x h ids(1) by (simp add: a_def sample_arrival_def)
  qed
  have "\<exists>r. outcome = Answered r"
    using x(2) by (cases outcome)
      (simp_all add: verdict_of_def x(1) a(5) public_get(4) gated_def app(2) deny_filter_values)
  then have "carries_ids ''req-1'' ''req-1'' Map.empty (ex_reply (co_exchange (fst (secured_serve run_hooks id (\<lambda>b. b)
      sample_secure app a quiet))))"
    using every_answer_correlates [OF run_hooks_lifecycle sample_secure_law a(1-3) app(1) a(4) _ _ h, of quiet] ids
      public_get(2,3) by (auto simp: a(5))
  with app(1) show ?thesis unfolding a_def by blast
qed

text \<open>A Redis that answers every key with one stored response, and a request from a web page.\<close>

definition full_redis :: cache_env where
  "full_redis = \<lparr>redis_status = ''ready'', redis_get = (\<lambda>_. RedisValue (Some (set_value sample_command)))\<rparr>"

lemma full_redis_written: "gateway_written full_redis"
proof -
  have "redis_get full_redis key = RedisValue (Some v) \<longleftrightarrow> v = set_value sample_command" for key v
    by (auto simp: full_redis_def)
  then show ?thesis unfolding gateway_written_def using sample_stored by blast
qed

lemma full_redis_found:
  obtains j e where "\<And>key. found full_redis key = Some j" and "\<not> json_falsy j" and "entry_of_json j = Some e"
proof -
  have ok: "status_code upstream_reply = 200" by (simp add: upstream_reply_def fresh_reply_def)
  obtain j e where j: "json_parse (set_value sample_command) = Some j" "\<not> json_falsy j" "entry_of_json j = Some e"
    using cached_value [OF ok] unfolding sample_command_def by blast
  have "set_value sample_command \<noteq> []"
  proof
    assume "set_value sample_command = []"
    with j(1) have "json_parse [] = Some j" by simp
    moreover have "json_parse [] = None" by code_simp
    ultimately show False by simp
  qed
  then have "found full_redis key = Some j" for key
    using j(1) by (simp add: found_def lookup_entry_def full_redis_def)
  with that j(2,3) show thesis by blast
qed

definition page_exchange :: exchange where
  "page_exchange = (public_exchange ''203.0.113.9'' [])\<lparr>ex_request :=
     (ex_request (public_exchange ''203.0.113.9'' []))\<lparr>req_headers := [''origin'' \<mapsto> HStr ''https://a.example'']\<rparr>\<rparr>"

theorem cached_headers_own_witness:
  "\<exists>app m hit. build_app cached_platform Map.empty = Inr app
    \<and> snd (secured_request run_hooks id (\<lambda>b. b) sample_secure (sample_world\<lparr>w_cache := full_redis\<rparr>) app m page_exchange)
      = Answered hit
    \<and> reply_headers hit ''access-control-allow-origin'' = Some (HStr ''https://a.example'')"
proof -
  obtain app m where app: "build_app cached_platform Map.empty = Inr app"
    "app_config app = typed_config cached_settings" "app_ip_filter app = Some deny_filter"
    "m \<in> set (app_mounts app)" "mount_hooks m = [ServeHook ''public'', StoreHook ''public'']"
    by (rule cached_app)
  let ?w = "sample_world\<lparr>w_cache := full_redis\<rparr>"
  have "CORS_ORIGINS (typed_config cached_settings) = ''*''"
    unfolding typed_config_def gateway_config.select_convs cached_settings_def app_settings_def by code_simp
  moreover have "''*'' \<in> set (map js_trim (split_on (CHR '','') ''*''))" by code_simp
  ultimately have cors: "cors_origin (app_cors app) = AnyOrigin"
    using build_app_parts(4) [OF app(1)]
    by (auto simp: security_plugin_def app(2) cors_origins_def Let_def cached_settings_values
        dest: arg_cong [where f = cors_origin])
  have ex: "service_request page_exchange" "req_method (ex_request page_exchange) = ''GET''"
    "req_headers (ex_request page_exchange) = [''origin'' \<mapsto> HStr ''https://a.example'']"
    "req_ip (ex_request page_exchange) = ''203.0.113.9''"
    by (simp_all add: page_exchange_def public_exchange_def service_request_def sample_request_def)
  then have unsent: "sent (ex_reply page_exchange) = None" by (simp add: service_request_def)
  obtain x where x: "sample_secure (app_cors app) page_exchange = Inr x" "ex_request x = ex_request page_exchange"
    "sent (ex_reply x) = None"
    by (rule secured_passes [OF run_hooks_lifecycle sample_secure_law unsent, of app]) (use ex(2) in simp_all)
  have grant: "reply_headers (ex_reply x) ''access-control-allow-origin'' = Some (HStr ''https://a.example'')"
    using x(1) by (auto simp: sample_secure_def Let_def ex(2,3) allowed_origin_def cors)
  obtain j e where j: "\<And>key. found full_redis key = Some j" "\<not> json_falsy j" "entry_of_json j = Some e"
    by (rule full_redis_found) blast
  have none: "\<not> has_word ''no-store'' []" "\<not> has_word ''no-cache'' []" by code_simp+
  have ms: "may_serve (ex_request (traced ?w x))"
    "\<not> has_word ''no-cache'' (header_text (req_header (ex_request (traced ?w x)) HdrCacheControl))"
    unfolding traced_request x(2)
    by (simp_all add: may_serve_def req_header_def header_of_def header_name.simps header_text_def none ex(2,3))
  from serve_allowed [OF ms(1), of "\<lambda>b. b" full_redis "''public''" "ex_log x" "ex_reply (traced ?w x)"] obtain lg where
    s: "serve_hook (\<lambda>b. b) full_redis ''public'' (ex_log x) (ex_request (traced ?w x)) (ex_reply (traced ?w x))
      = Inr (lg, (ex_request (traced ?w x))\<lparr>cache_key := []\<rparr>, replay_hit e (ex_reply (traced ?w x)))"
    using ms(2) j by auto
  obtain p where p: "sent (replay_hit e (ex_reply (traced ?w x))) = Some p" using replay_hit_sent by blast
  have ungated: "\<not> gated ?w app (req_ip (ex_request x))"
    by (simp add: x(2) ex(4) gated_def app(3) deny_filter_values sample_world_def)
  have v: "verdict_of (\<lambda>b. b) ?w app m x = FromCache (replay_hit e (ex_reply (traced ?w x)))"
    by (rule cache_verdict [OF ungated app(5) _ p]) (simp add: s)
  have limit: "limiter_law (w_limit ?w)" and own': "gateway_written (w_cache ?w)" and get: "req_method (ex_request page_exchange) \<noteq> ''OPTIONS''"
    using sample_laws(1) full_redis_written by (simp_all add: ex(2))
  have other: "''access-control-allow-origin'' \<notin> {''content-type'', ''content-encoding'', ''content-language'',
      ''cache-control'', ''etag'', ''last-modified'', ''vary'', ''x-cache'', ''x-request-id'', ''x-correlation-id''}"
    by simp
  from cached_headers_own [OF run_hooks_lifecycle sample_secure_law own' app(1,4) ex(1) limit get x(1) v other, of id]
  show ?thesis using app(1) grant by auto
qed

end
