(* ===== verification/E2eScript.thy ===== *)
theory E2eScript
  imports SecurityHooks RateLimit "HOL-Library.Sublist"
begin

section \<open>The end-to-end script\<close>

text \<open>
  \<open>scripts/e2e.mjs\<close>: the environment it starts the gateway with, its echo upstreams, its numbered
  clients, and its checks of the three services and of a failing upstream, as functions of the
  responses it gets (\<open>ask\<close>). \<open>ask_gateway\<close> answers with the modelled gateway, and the checks
  are theorems about it (\<open>e2e_checks_pass\<close>).

  The network is a parameter (\<open>e2e_setup\<close>): the exchange Node and Fastify make of a request, the
  mount their router finds, the proxy library and the JSON text of an echo, each with its documented
  law (\<open>e2e_ready\<close>, \<open>e2e_secured\<close>, \<open>e2e_limited\<close>). The client's address is the forwarded one, as the
  environment leaves \<open>TRUST_PROXY\<close> on. The log text the gateway has written is a parameter too: a line of a
  forwarded request carries what its logger has bound (\<open>e2e_logged\<close>).
\<close>

subsection \<open>Upstreams\<close>

definition service_port :: "string \<Rightarrow> nat" where
  "service_port name = (if name = ''users'' then 18301 else if name = ''orders'' then 18302 else 18303)"

definition service_url :: "string \<Rightarrow> string" where
  "service_url name = ''http://127.0.0.1:'' @ show_nat (service_port name)"

record upstream_request =
  ur_method :: string
  ur_url :: string
  ur_headers :: "(string \<times> string) list"
  ur_body :: string

record echo =
  ec_service :: string
  ec_method :: string
  ec_url :: string
  ec_headers :: "(string \<times> string) list"
  ec_body :: string

text \<open>The answer of an echo upstream, and after how many milliseconds it comes.\<close>

definition start_echo :: "string \<Rightarrow> upstream_request \<Rightarrow> nat \<times> echo" where
  "start_echo name r =
     (if ur_url r = ''/slow'' then 3000 else 0,
      \<lparr>ec_service = name, ec_method = ur_method r, ec_url = ur_url r, ec_headers = ur_headers r,
       ec_body = ur_body r\<rparr>)"

subsection \<open>Harness\<close>

record check_result =
  check_name :: string
  check_ok :: bool

definition record_check :: "string \<Rightarrow> bool \<Rightarrow> check_result list \<Rightarrow> check_result list" where
  "record_check name ok results = results @ [\<lparr>check_name = name, check_ok = ok\<rparr>]"

text \<open>The exit code of the script.\<close>

definition e2e_exit :: "check_result list \<Rightarrow> nat" where
  "e2e_exit results = (if filter (\<lambda>r. \<not> check_ok r) results \<noteq> [] then 1 else 0)"

text \<open>Waiting for the gateway: the attempt that succeeded first among fifty, 100 ms apart.\<close>

fun wait_up :: "(nat \<Rightarrow> bool) \<Rightarrow> nat \<Rightarrow> nat \<Rightarrow> bool" where
  "wait_up healthy i 0 = False"
| "wait_up healthy i (Suc left) = (healthy i \<or> wait_up healthy (Suc i) left)"

definition gateway_up :: "(nat \<Rightarrow> bool) \<Rightarrow> bool" where
  "gateway_up healthy = wait_up healthy 0 50"

record client_options =
  op_method :: string
  op_headers :: "(string \<times> string) list"
  op_body :: string
  op_same_client :: "string option"

definition plain :: client_options where
  "plain = \<lparr>op_method = ''GET'', op_headers = [], op_body = [], op_same_client = None\<rparr>"

definition with_headers :: "(string \<times> string) list \<Rightarrow> client_options" where
  "with_headers hs = plain\<lparr>op_headers := hs\<rparr>"

record client_request =
  cl_path :: string
  cl_method :: string
  cl_headers :: "(string \<times> string) list"
  cl_body :: string

definition client_address :: "nat \<Rightarrow> string" where
  "client_address n = ''10.0.'' @ show_nat (drop_bit 8 n) @ ''.'' @ show_nat (n AND 255)"

text \<open>A request under the next client number, or as the given client; the caller's headers are
  spread over \<open>x-forwarded-for\<close>.\<close>

definition e2e_req :: "string \<Rightarrow> client_options \<Rightarrow> nat \<Rightarrow> client_request \<times> nat" where
  "e2e_req path opts client_num =
     (let (ip, client_num) = (case op_same_client opts of Some ip \<Rightarrow> (ip, client_num)
        | None \<Rightarrow> (client_address (Suc client_num), Suc client_num))
      in (\<lparr>cl_path = path, cl_method = op_method opts,
           cl_headers = (''x-forwarded-for'', case map_of (op_headers opts) ''x-forwarded-for'' of
               Some given \<Rightarrow> given | None \<Rightarrow> ip)
             # filter (\<lambda>(k, v). k \<noteq> ''x-forwarded-for'') (op_headers opts),
           cl_body = op_body opts\<rparr>, client_num))"

definition basic :: "string \<Rightarrow> string \<Rightarrow> string" where
  "basic u p = ''Basic '' @ base64_encode (utf8_encode (js_codes (u @ '':'' @ p)))"

subsection \<open>The environment of the gateway\<close>

definition e2e_variables :: environment where
  "e2e_variables =
     [''PORT'' \<mapsto> ''18300'', ''HOST'' \<mapsto> ''127.0.0.1'', ''LOG_LEVEL'' \<mapsto> ''info'',
      ''GATEWAY_API_KEY'' \<mapsto> ''e2e-key'',
      ''BASIC_AUTH_USERS'' \<mapsto> ''admin:s3cret,svc:svcpass'',
      ''RATE_LIMIT_MAX'' \<mapsto> ''10'', ''RATE_LIMIT_WINDOW_MS'' \<mapsto> ''60000'',
      ''UPSTREAM_TIMEOUT_MS'' \<mapsto> ''800'',
      ''USERS_SERVICE_URL'' \<mapsto> service_url ''users'', ''USERS_SERVICE_BASIC_AUTH'' \<mapsto> ''gw-users:users-secret'',
      ''ORDERS_SERVICE_URL'' \<mapsto> service_url ''orders'', ''ORDERS_SERVICE_BASIC_AUTH'' \<mapsto> ''gw-orders:orders-secret'',
      ''PUBLIC_SERVICE_URL'' \<mapsto> service_url ''public'',
      ''CORS_ORIGINS'' \<mapsto> ''https://app.example.com'', ''CORS_ALLOW_CREDENTIALS'' \<mapsto> ''true'']"

text \<open>What the schema validation makes of it: the values of its types over the defaults.\<close>

definition e2e_settings :: settings where
  "e2e_settings = default_settings(
     ''PORT'' \<mapsto> NumberValue 18300 0, ''HOST'' \<mapsto> TextValue ''127.0.0.1'',
     ''GATEWAY_API_KEY'' \<mapsto> TextValue ''e2e-key'',
     ''BASIC_AUTH_USERS'' \<mapsto> TextValue ''admin:s3cret,svc:svcpass'',
     ''RATE_LIMIT_MAX'' \<mapsto> NumberValue 10 0, ''RATE_LIMIT_WINDOW_MS'' \<mapsto> NumberValue 60000 0,
     ''UPSTREAM_TIMEOUT_MS'' \<mapsto> NumberValue 800 0,
     ''USERS_SERVICE_URL'' \<mapsto> TextValue (service_url ''users''),
     ''USERS_SERVICE_BASIC_AUTH'' \<mapsto> TextValue ''gw-users:users-secret'',
     ''ORDERS_SERVICE_URL'' \<mapsto> TextValue (service_url ''orders''),
     ''ORDERS_SERVICE_BASIC_AUTH'' \<mapsto> TextValue ''gw-orders:orders-secret'',
     ''PUBLIC_SERVICE_URL'' \<mapsto> TextValue (service_url ''public''),
     ''CORS_ORIGINS'' \<mapsto> TextValue ''https://app.example.com'',
     ''CORS_ALLOW_CREDENTIALS'' \<mapsto> BoolValue True)"

subsection \<open>The checks\<close>

record http_response =
  hr_status :: nat
  hr_headers :: headers
  hr_error :: "error_body option"
  hr_state :: "string option"
  hr_echo :: "echo option"

type_synonym ask = "client_request \<Rightarrow> http_response"

definition echoed :: "(echo \<Rightarrow> bool) \<Rightarrow> http_response \<Rightarrow> bool" where
  "echoed P r = (case hr_echo r of None \<Rightarrow> False | Some e \<Rightarrow> P e)"

definition e2e_header :: "string \<Rightarrow> echo \<Rightarrow> string option" where
  "e2e_header n e = map_of (ec_headers e) n"

definition set_text :: "string option \<Rightarrow> bool" where
  "set_text h = (case h of None \<Rightarrow> False | Some s \<Rightarrow> s \<noteq> [])"

definition client_traceparent :: string where
  "client_traceparent = ''00-4bf92f3577b34da6a3ce929d0e0e4736-00f067aa0ba902b7-01''"

text \<open>The regular expression of the trace check: the client's trace id, sixteen lower-case hex digits
  other than the client's span id, sampled.\<close>

definition trace_continued :: "string \<Rightarrow> bool" where
  "trace_continued s \<longleftrightarrow> length s = 55 \<and> take 36 s = ''00-4bf92f3577b34da6a3ce929d0e0e4736-''
     \<and> take 16 (drop 36 s) \<noteq> ''00f067aa0ba902b7'' \<and> list_all is_hex_lower (take 16 (drop 36 s))
     \<and> drop 52 s = ''-01''"

text \<open>What must not show in an error body: the pattern \<open>ECONNREFUSED|127\.0\.0\.1\<close>. It has no quote, so in the
  body's JSON text it can only show within one of the two strings.\<close>

definition leaks :: "string \<Rightarrow> bool" where
  "leaks s \<longleftrightarrow> sublist ''ECONNREFUSED'' s \<or> sublist ''127.0.0.1'' s"

text \<open>The gateway's own endpoints; \<open>headers.get\<close> of a header as text, and whether it is set.\<close>

definition has_header :: "header_key \<Rightarrow> http_response \<Rightarrow> bool" where
  "has_header k r = header_truthy (header_of (hr_headers r) k)"

definition own_checks :: "ask \<Rightarrow> nat \<Rightarrow> check_result list \<Rightarrow> check_result list \<times> nat" where
  "own_checks ask n results =
     (let (q1, n) = e2e_req ''/healthz'' plain n; r = ask q1;
          results = record_check ''health probe'' (hr_status r = 200 \<and> hr_state r = Some ''ok'') results;
          (q2, n) = e2e_req ''/readyz'' plain n;
          results = record_check ''readiness probe'' (hr_status (ask q2) = 200) results;
          results = record_check ''helmet security headers''
            (hr_headers r ''x-content-type-options'' = Some (HStr ''nosniff'')) results;
          results = record_check ''response carries x-request-id + x-correlation-id''
            (has_header HdrRequestId r \<and> has_header HdrCorrelationId r) results;
          (q3, n) = e2e_req ''/healthz''
            (with_headers [(''x-request-id'', ''e2e-req-1''), (''x-correlation-id'', ''e2e-corr-1'')]) n;
          r3 = ask q3;
          results = record_check ''honors client x-request-id''
            (header_of (hr_headers r3) HdrRequestId = Some (HStr ''e2e-req-1'')) results;
          results = record_check ''honors client x-correlation-id''
            (header_of (hr_headers r3) HdrCorrelationId = Some (HStr ''e2e-corr-1'')) results;
          (q4, n) = e2e_req ''/does/not/exist'' plain n; r4 = ask q4;
          results = record_check ''uniform 404 with requestId''
            (hr_status r4 = 404 \<and> (case hr_error r4 of None \<Rightarrow> False
               | Some b \<Rightarrow> eb_error b = ''Not found'' \<and> eb_request_id b \<noteq> [])) results
      in (results, n))"

definition users_checks :: "ask \<Rightarrow> nat \<Rightarrow> check_result list \<Rightarrow> check_result list \<times> nat" where
  "users_checks ask n results =
     (let (q1, n) = e2e_req ''/api/users/me'' plain n;
          results = record_check ''users: 401 without api key'' (hr_status (ask q1) = 401) results;
          (q2, n) = e2e_req ''/api/users/me'' (with_headers [(''x-api-key'', ''nope'')]) n;
          results = record_check ''users: 401 with wrong api key'' (hr_status (ask q2) = 401) results;
          (q3, n) = e2e_req ''/api/users/me''
            (with_headers [(''x-api-key'', ''e2e-key''), (''traceparent'', client_traceparent)]) n;
          r = ask q3;
          results = record_check ''users: 200 with valid api key, proxied''
            (hr_status r = 200 \<and> echoed (\<lambda>b. ec_service b = ''users'') r) results;
          results = record_check ''users: prefix stripped upstream'' (echoed (\<lambda>b. ec_url b = ''/me'') r) results;
          results = record_check ''users: x-api-key never forwarded''
            (echoed (\<lambda>b. e2e_header ''x-api-key'' b = None) r) results;
          results = record_check ''users: s2s Basic credentials injected''
            (echoed (\<lambda>b. e2e_header ''authorization'' b = Some (basic ''gw-users'' ''users-secret'')) r) results;
          results = record_check ''users: x-request-id propagated upstream''
            (echoed (\<lambda>b. set_text (e2e_header ''x-request-id'' b)) r) results;
          results = record_check ''users: trace continued (same trace-id, new span-id)''
            (echoed (\<lambda>b. case e2e_header ''traceparent'' b of None \<Rightarrow> False | Some t \<Rightarrow> trace_continued t) r) results;
          results = record_check ''users: x-forwarded-* headers set''
            (echoed (\<lambda>b. set_text (e2e_header ''x-forwarded-for'' b) \<and> set_text (e2e_header ''x-forwarded-host'' b)
               \<and> e2e_header ''x-forwarded-proto'' b = Some ''http'') r) results
      in (results, n))"

definition orders_checks :: "ask \<Rightarrow> nat \<Rightarrow> check_result list \<Rightarrow> check_result list \<times> nat" where
  "orders_checks ask n results =
     (let (q1, n) = e2e_req ''/api/orders/list'' plain n; r1 = ask q1;
          results = record_check ''orders: 401 without credentials + challenge''
            (hr_status r1 = 401 \<and> sublist ''Basic'' (header_text (header_of (hr_headers r1) HdrWwwAuthenticate))) results;
          (q2, n) = e2e_req ''/api/orders/list'' (with_headers [(''authorization'', basic ''admin'' ''wrong'')]) n;
          results = record_check ''orders: 401 with wrong password'' (hr_status (ask q2) = 401) results;
          (q3, n) = e2e_req ''/api/orders/list'' (with_headers [(''authorization'', basic ''ghost'' ''s3cret'')]) n;
          results = record_check ''orders: 401 with unknown user'' (hr_status (ask q3) = 401) results;
          (q4, n) = e2e_req ''/api/orders/list'' (with_headers [(''authorization'', basic ''admin'' ''s3cret'')]) n;
          r4 = ask q4;
          results = record_check ''orders: 200 with valid Basic credentials''
            (hr_status r4 = 200 \<and> echoed (\<lambda>b. ec_service b = ''orders'') r4) results;
          results = record_check ''orders: client creds replaced by s2s creds upstream''
            (echoed (\<lambda>b. e2e_header ''authorization'' b = Some (basic ''gw-orders'' ''orders-secret'')) r4) results;
          (q5, n) = e2e_req ''/api/orders/list'' (with_headers [(''authorization'', basic ''svc'' ''svcpass'')]) n;
          results = record_check ''orders: second configured user accepted'' (hr_status (ask q5) = 200) results
      in (results, n))"

text \<open>The posted body, \<open>JSON.stringify({ hello: "gateway" })\<close>, and its field once parsed again.\<close>

definition hello_body :: string where
  "hello_body = ''{\"hello\":\"gateway\"}''"

definition hello_text :: "string \<Rightarrow> codes option" where
  "hello_text body = (case json_parse (js_codes body) of None \<Rightarrow> None
   | Some j \<Rightarrow> (case json_get j ''hello'' of Some (Member (JStr s)) \<Rightarrow> Some s | _ \<Rightarrow> None))"

definition posting :: "string \<Rightarrow> client_options" where
  "posting body = plain\<lparr>op_method := ''POST'', op_headers := [(''content-type'', ''application/json'')], op_body := body\<rparr>"

definition public_checks :: "ask \<Rightarrow> nat \<Rightarrow> check_result list \<Rightarrow> check_result list \<times> nat" where
  "public_checks ask n results =
     (let (q1, n) = e2e_req ''/api/public/status?page=2&sort=asc'' plain n; r1 = ask q1;
          results = record_check ''public: 200 without auth''
            (hr_status r1 = 200 \<and> echoed (\<lambda>b. ec_service b = ''public'') r1) results;
          results = record_check ''public: path + query preserved''
            (echoed (\<lambda>b. ec_url b = ''/status?page=2&sort=asc'') r1) results;
          (q2, n) = e2e_req ''/api/public/token-check'' (with_headers [(''authorization'', ''Bearer client-token'')]) n;
          results = record_check ''public: client bearer token passes through''
            (echoed (\<lambda>b. e2e_header ''authorization'' b = Some ''Bearer client-token'') (ask q2)) results;
          (q3, n) = e2e_req ''/api/public/echo'' (posting hello_body) n; r3 = ask q3;
          results = record_check ''public: POST body proxied intact''
            (hr_status r3 = 200 \<and> echoed (\<lambda>b. ec_method b = ''POST'' \<and> hello_text (ec_body b) = Some (js_codes ''gateway'')) r3)
            results
      in (results, n))"

text \<open>CORS; the preflight, the only \<open>OPTIONS\<close> request, is asked by itself (\<open>ask_preflight\<close>).\<close>

definition preflighting :: "string \<Rightarrow> client_options" where
  "preflighting origin = plain\<lparr>op_method := ''OPTIONS'',
     op_headers := [(''origin'', origin), (''access-control-request-method'', ''POST'')]\<rparr>"

definition cors_checks :: "ask \<Rightarrow> ask \<Rightarrow> nat \<Rightarrow> check_result list \<Rightarrow> check_result list \<times> nat" where
  "cors_checks ask ask_preflight n results =
     (let (q1, n) = e2e_req ''/healthz'' (with_headers [(''origin'', ''https://app.example.com'')]) n; r1 = ask q1;
          results = record_check ''CORS: allowed origin reflected + credentials''
            (hr_headers r1 ''access-control-allow-origin'' = Some (HStr ''https://app.example.com'')
             \<and> hr_headers r1 ''access-control-allow-credentials'' = Some (HStr ''true'')) results;
          (q2, n) = e2e_req ''/healthz'' (with_headers [(''origin'', ''https://evil.example.com'')]) n;
          results = record_check ''CORS: unknown origin gets no allow header''
            (\<not> header_truthy (hr_headers (ask q2) ''access-control-allow-origin'')) results;
          (q3, n) = e2e_req ''/api/public/status'' (preflighting ''https://app.example.com'') n;
          status = hr_status (ask_preflight q3);
          results = record_check ''CORS: preflight answered'' (status = 204 \<or> status = 200) results
      in (results, n))"

text \<open>The slow upstream.\<close>

definition slow_checks :: "ask \<Rightarrow> nat \<Rightarrow> check_result list \<Rightarrow> check_result list \<times> nat" where
  "slow_checks ask n results =
     (let (q1, n) = e2e_req ''/api/public/slow'' plain n; r1 = ask q1;
          results = record_check ''slow upstream: 504 Upstream timeout (fail-fast)''
            (hr_status r1 = 504 \<and> map_option eb_error (hr_error r1) = Some ''Upstream timeout'') results
      in (results, n))"

text \<open>The limiter: eleven requests of one client, then one of another and one to a health check. What a request
  is answered may depend on those before it; everywhere else each request is the first of its client,
  and the limiter keeps clients apart. The arrow in the first name is not in the character set used here.\<close>

fun same_client :: "(client_request list \<Rightarrow> ask) \<Rightarrow> client_request \<Rightarrow> nat \<Rightarrow> client_request list \<Rightarrow> http_response option
    \<Rightarrow> http_response option \<times> client_request list" where
  "same_client ask q 0 past answer = (answer, past)"
| "same_client ask q (Suc left) past answer = same_client ask q left (past @ [q]) (Some (ask past q))"

definition limit_checks :: "(client_request list \<Rightarrow> ask) \<Rightarrow> nat \<Rightarrow> check_result list \<Rightarrow> check_result list \<times> nat" where
  "limit_checks ask n results =
     (let (q1, n) = e2e_req ''/api/public/status'' (plain\<lparr>op_same_client := Some ''9.9.9.9''\<rparr>) n;
          (final, past) = same_client ask q1 11 [] None;
          results = record_check ''rate limit: 11th request from same client -> 429''
            (map_option hr_status final = Some 429) results;
          (q2, n) = e2e_req ''/api/public/status'' plain n;
          results = record_check ''rate limit: other clients unaffected'' (hr_status (ask past q2) = 200) results;
          (q3, n) = e2e_req ''/healthz'' (plain\<lparr>op_same_client := Some ''9.9.9.9''\<rparr>) n;
          results = record_check ''rate limit: health checks exempt'' (hr_status (ask (past @ [q2]) q3) = 200) results
      in (results, n))"

text \<open>The orders upstream after it has been closed.\<close>

definition dead_checks :: "ask \<Rightarrow> nat \<Rightarrow> check_result list \<Rightarrow> check_result list \<times> nat" where
  "dead_checks ask n results =
     (let (q1, n) = e2e_req ''/api/orders/list'' (with_headers [(''authorization'', basic ''admin'' ''s3cret'')]) n;
          r1 = ask q1;
          results = record_check ''dead upstream: 502 Upstream unavailable''
            (hr_status r1 = 502 \<and> map_option eb_error (hr_error r1) = Some ''Upstream unavailable'') results;
          results = record_check ''dead upstream: no internal details leaked''
            (case hr_error r1 of None \<Rightarrow> True | Some b \<Rightarrow> \<not> leaks (eb_error b) \<and> \<not> leaks (eb_request_id b)) results
      in (results, n))"

text \<open>The log text: \<open>includes\<close>, and the pattern \<open>"traceId":"[0-9a-f]{32}"\<close>. \<open>log\<close> is the text the gateway
  has written 300 ms after the answer to a request.\<close>

definition quoted_field :: "string \<Rightarrow> string \<Rightarrow> string" where
  "quoted_field key value = ''\"'' @ key @ ''\":\"'' @ value @ ''\"''"

definition has_trace_id :: "string \<Rightarrow> bool" where
  "has_trace_id text \<longleftrightarrow> list_ex (\<lambda>s. prefix ''\"traceId\":\"'' s \<and> length (take 32 (drop 11 s)) = 32
     \<and> list_all is_hex_lower (take 32 (drop 11 s)) \<and> prefix ''\"'' (drop 43 s)) (suffixes text)"

definition log_checks :: "(client_request \<Rightarrow> string) \<Rightarrow> nat \<Rightarrow> check_result list \<Rightarrow> check_result list \<times> nat" where
  "log_checks log n results =
     (let (q1, n) = e2e_req ''/api/public/status'' (with_headers [(''x-correlation-id'', ''log-check-corr'')]) n;
          gw_log = log q1;
          results = record_check ''logs: correlation id bound into request logs'' (sublist ''log-check-corr'' gw_log) results;
          results = record_check ''logs: trace ids present'' (has_trace_id gw_log) results
      in (results, n))"

text \<open>The script: wait until a health request is answered with a status of success, then the checks in order,
  the last ones after the orders upstream has been closed (\<open>ask_dead\<close>), and the exit code.
  \<open>ask_after\<close> answers a request after earlier ones.\<close>

definition e2e_run :: "(nat \<Rightarrow> bool) \<Rightarrow> (client_request list \<Rightarrow> ask) \<Rightarrow> ask \<Rightarrow> ask \<Rightarrow> (client_request \<Rightarrow> string)
    \<Rightarrow> check_result list \<times> nat" where
  "e2e_run listening ask_after ask_preflight ask_dead log =
     (let ask = ask_after []; status = hr_status (ask \<lparr>cl_path = ''/healthz'', cl_method = ''GET'', cl_headers = [], cl_body = []\<rparr>)
      in if \<not> gateway_up (\<lambda>i. listening i \<and> 200 \<le> status \<and> status < 300) then ([], 1)
         else (let (results, n) = own_checks ask 0 [];
                   (results, n) = users_checks ask n results;
                   (results, n) = orders_checks ask n results;
                   (results, n) = public_checks ask n results;
                   (results, n) = cors_checks ask ask_preflight n results;
                   (results, n) = slow_checks ask n results;
                   (results, n) = limit_checks ask_after n results;
                   (results, n) = dead_checks ask_dead n results;
                   (results, n) = log_checks log n results
               in (results, e2e_exit results)))"

subsection \<open>The gateway behind the checks\<close>

record e2e_setup =
  su_run :: "hook list \<Rightarrow> exchange \<Rightarrow> exchange"
  su_base :: "headers \<Rightarrow> headers"
  su_platform :: platform
  su_arrive :: "client_request \<Rightarrow> exchange"
  su_world :: "client_request \<Rightarrow> world"
  su_route :: "client_request \<Rightarrow> mount option"
  su_state :: instance_state
  su_uuid :: "client_request \<Rightarrow> string"
  su_decode :: "stream \<Rightarrow> echo option"
  su_count :: hit_count
  su_limiter :: "hits \<Rightarrow> rate_limit_options \<Rightarrow> hook"
  su_raw :: "client_request \<Rightarrow> exchange"
  su_secure :: "cors_options \<Rightarrow> hook"
  su_log :: "client_request \<Rightarrow> string"

definition e2e_arrival :: "e2e_setup \<Rightarrow> proxy \<Rightarrow> mount \<Rightarrow> client_request \<Rightarrow> arrival" where
  "e2e_arrival su px m q = \<lparr>ar_world = su_world su q, ar_mount = m, ar_proxy = px,
     ar_exchange = su_arrive su q, ar_now = 0, ar_elapsed = 0\<rparr>"

definition respond :: "e2e_setup \<Rightarrow> reply \<Rightarrow> http_response" where
  "respond su r =
     \<lparr>hr_status = status_code r, hr_headers = reply_headers r,
      hr_error = (case sent r of Some (ErrorPayload b) \<Rightarrow> Some b | _ \<Rightarrow> None),
      hr_state = (case sent r of Some (StatusPayload s) \<Rightarrow> Some s | _ \<Rightarrow> None),
      hr_echo = (case sent r of Some (StreamPayload s) \<Rightarrow> su_decode su s | _ \<Rightarrow> None)\<rparr>"

text \<open>The routes the gateway answers itself, and what no route matches: Fastify runs the hooks of the root
  scope before the not-found handler.\<close>

definition probe_paths :: "string set" where
  "probe_paths = {''/healthz'', ''/readyz''}"

definition handle_unmatched :: "(hook list \<Rightarrow> exchange \<Rightarrow> exchange) \<Rightarrow> world \<Rightarrow> app \<Rightarrow> exchange \<Rightarrow> reply" where
  "handle_unmatched run w app ex =
     ex_reply (run (entry_hooks w app
       @ [\<lambda>ex. Inr (ex\<lparr>ex_reply := handle_not_found (ex_request ex) (ex_reply ex)\<rparr>)]) ex)"

definition ask_gateway :: "e2e_setup \<Rightarrow> app \<Rightarrow> proxy \<Rightarrow> ask" where
  "ask_gateway su app px q =
     (let own = (\<lambda>handler. handle_own_route (su_run su) (su_world su q) app (\<lambda>_. handler) (su_arrive su q))
      in respond su
        (if cl_path q = ''/healthz'' then own healthz
         else if cl_path q = ''/readyz'' then own (readyz (su_state su))
         else (case su_route su q of
             None \<Rightarrow> handle_unmatched (su_run su) (su_world su q) app (su_arrive su q)
           | Some m \<Rightarrow> ex_reply (co_exchange (fst (serve_request (su_run su) (su_base su)
               (pf_sha256 (su_platform su)) app (e2e_arrival su px m q) quiet))))))"

text \<open>The same gateway after earlier requests: its limiter has counted those that reached a service.\<close>

definition hits_of :: "e2e_setup \<Rightarrow> client_request list \<Rightarrow> hits" where
  "hits_of su past = map (\<lambda>q. (0, req_ip (ex_request (su_arrive su q)))) (filter (\<lambda>q. su_route su q \<noteq> None) past)"

definition met_after :: "e2e_setup \<Rightarrow> client_request list \<Rightarrow> client_request \<Rightarrow> e2e_setup" where
  "met_after su past q =
     su\<lparr>su_world := (su_world su)(q := (su_world su q)\<lparr>w_limit := su_limiter su (hits_of su past)\<rparr>)\<rparr>"

definition ask_gateway_after :: "e2e_setup \<Rightarrow> app \<Rightarrow> proxy \<Rightarrow> client_request list \<Rightarrow> ask" where
  "ask_gateway_after su app px past q = ask_gateway (met_after su past q) app px q"

text \<open>A preflight, from the security hooks on.\<close>

definition ask_preflight_of :: "e2e_setup \<Rightarrow> app \<Rightarrow> ask" where
  "ask_preflight_of su app q = respond su
     (case su_route su q of
        None \<Rightarrow> secured_route (su_run su) (su_secure su) (su_world su q) app handle_not_found (su_raw su q)
      | Some m \<Rightarrow> ex_reply (fst (secured_request (su_run su) (su_base su) (pf_sha256 (su_platform su)) (su_secure su)
          (su_world su q) app m (su_raw su q))))"

subsection \<open>The laws of the network\<close>

definition read_names :: "string list" where
  "read_names = [''x-api-key'', ''authorization'', ''traceparent'', ''x-request-id'', ''x-correlation-id'']"

definition sent_names :: "string list" where
  "sent_names = [''x-api-key'', ''authorization'', ''x-request-id'', ''traceparent'', ''x-forwarded-for'',
     ''x-forwarded-host'', ''x-forwarded-proto'']"

text \<open>The text of a random UUID.\<close>

definition uuid_text :: "string \<Rightarrow> bool" where
  "uuid_text u \<longleftrightarrow> length u = 36 \<and> list_all (\<lambda>c. is_hex_lower c \<or> c = CHR ''-'') u"

definition arrives_as :: "client_request \<Rightarrow> string \<Rightarrow> exchange \<Rightarrow> bool" where
  "arrives_as q uuid ex \<longleftrightarrow> sent (ex_reply ex) = None \<and> status_code (ex_reply ex) = 200
     \<and> (if cl_path q \<in> probe_paths then req_route (ex_request ex) = probe_options (cl_path q)
        else service_request ex \<and> route_rate_limit (req_route (ex_request ex)) \<noteq> Some False)
     \<and> req_url (ex_request ex) = cl_path q
     \<and> req_method (ex_request ex) = cl_method q \<and> req_body (ex_request ex) = cl_body q
     \<and> (\<forall>ip. map_of (cl_headers q) ''x-forwarded-for'' = Some ip \<longrightarrow> req_ip (ex_request ex) = ip)
     \<and> (\<forall>n \<in> set read_names. req_headers (ex_request ex) n = map_option HStr (map_of (cl_headers q) n))
     \<and> req_id (ex_request ex) = gen_req_id uuid (req_headers (ex_request ex)) \<and> uuid_text uuid
     \<and> req_hostname (ex_request ex) \<noteq> []
     \<and> req_protocol (ex_request ex) = ''http'' \<and> remote_address (ex_request ex) = Some ''127.0.0.1''"

text \<open>The proxy library passes a request on with the prefix stripped, and answers with what comes back, or
  throws when that takes longer than its timeout; it throws when the upstream does not listen. What it
  throws is the client library's error, its own gateway timeout, or its wrapper with the message of the
  client library's error.\<close>

definition slow_error :: "fastify_error \<Rightarrow> bool" where
  "slow_error err \<longleftrightarrow> err_code err = Some ''UND_ERR_HEADERS_TIMEOUT''
     \<or> err_code err = Some ''FST_REPLY_FROM_GATEWAY_TIMEOUT'' \<and> err_status err = Some 504
     \<or> err_code err = Some reply_from_wrapper_code \<and> err_message err = ''Headers Timeout Error''"

definition refused_text :: "string \<Rightarrow> string" where
  "refused_text name = ''connect ECONNREFUSED 127.0.0.1:'' @ show_nat (service_port name)"

definition refused_error :: "string \<Rightarrow> fastify_error \<Rightarrow> bool" where
  "refused_error name err \<longleftrightarrow> err_code err = Some ''ECONNREFUSED''
     \<or> err_code err = Some reply_from_wrapper_code \<and> err_message err = refused_text name"

definition passed_on :: "app \<Rightarrow> headers \<Rightarrow> exchange \<Rightarrow> upstream_request \<Rightarrow> bool" where
  "passed_on app hs x r \<longleftrightarrow> (\<forall>n \<in> set sent_names. map_of (ur_headers r) n = map_option hval_text (hs n))
     \<and> (\<forall>p \<in> mount_prefix ` set (app_mounts app). \<forall>rest. req_url (ex_request x) = p @ ''/'' @ rest
          \<longrightarrow> ur_url r = ''/'' @ rest)
     \<and> ur_method r = req_method (ex_request x) \<and> ur_body r = req_body (ex_request x)"

definition echoes :: "e2e_setup \<Rightarrow> app \<Rightarrow> string \<Rightarrow> headers \<Rightarrow> exchange \<Rightarrow> fastify_error + reply \<Rightarrow> bool" where
  "echoes su app name hs x out \<longleftrightarrow> (\<exists>r. passed_on app hs x r
     \<and> (case start_echo name r of (delay, e) \<Rightarrow>
          if UPSTREAM_TIMEOUT_MS (app_config app) < int delay
          then (\<exists>err. out = Inl err \<and> slow_error err)
          else (\<exists>reply s. out = Inr reply \<and> su_decode su s = Some e
            \<and> relays \<lparr>ua_status = 200, ua_headers = [''content-type'' \<mapsto> HStr ''application/json''], ua_body = s\<rparr>
                (ex_reply x) reply)))"

definition echo_network :: "e2e_setup \<Rightarrow> app \<Rightarrow> proxy \<Rightarrow> bool" where
  "echo_network su app px \<longleftrightarrow> (\<forall>name \<in> {''users'', ''orders'', ''public''}. \<forall>hs x.
     sent (ex_reply x) = None \<longrightarrow> echoes su app name hs x (px (service_url name) hs x))"

definition stopped :: "string \<Rightarrow> proxy \<Rightarrow> bool" where
  "stopped name px \<longleftrightarrow> (\<forall>hs x. \<exists>err. px (service_url name) hs x = Inl err \<and> refused_error name err)"

text \<open>The secrets compared by the guards do not collide under the hash.\<close>

definition e2e_secrets :: "string set" where
  "e2e_secrets = {''nope'', ''e2e-key'', ''wrong'', ''s3cret'', ''svcpass''}"

definition world_ready :: "app \<Rightarrow> world \<Rightarrow> bool" where
  "world_ready app w \<longleftrightarrow> limiter_law (w_limit w) \<and> \<not> w_overloaded w (app_pressure app) \<and> good_random (w_random w)
     \<and> generate_span_id (w_random w) \<noteq> ''00f067aa0ba902b7''"

definition e2e_ready :: "e2e_setup \<Rightarrow> app \<Rightarrow> bool" where
  "e2e_ready su app \<longleftrightarrow> lifecycle (su_run su)
     \<and> build_app (su_platform su) e2e_variables = Inr app
     \<and> pf_validate (su_platform su) e2e_variables = Inr e2e_settings
     \<and> (\<forall>a \<in> e2e_secrets. \<forall>b \<in> e2e_secrets.
          no_collision (pf_sha256 (su_platform su)) (js_codes a) (js_codes b))
     \<and> (\<forall>q. arrives_as q (su_uuid su q) (su_arrive su q) \<and> world_ready app (su_world su q))
     \<and> (\<forall>q. cl_path q \<notin> probe_paths \<longrightarrow> (\<exists>y. w_limit (su_world su q) (app_rate_limit app)
          (traced (su_world su q) (su_arrive su q)) = Inr y))
     \<and> (\<forall>hs. \<forall>n \<in> set sent_names. su_base su hs n = hs n)
     \<and> (\<forall>q. \<forall>m \<in> set (app_mounts app). prefix (mount_prefix m @ ''/'') (cl_path q)
          \<longrightarrow> su_route su q = Some m)
     \<and> (\<forall>q. \<not> (\<exists>m \<in> set (app_mounts app). prefix (mount_prefix m) (cl_path q)) \<longrightarrow> su_route su q = None)
     \<and> \<not> shutting_down (su_state su) \<and> \<not> under_pressure (su_state su)"

text \<open>What helmet and CORS document: their headers, for an allowed origin and for another, and the answer to a
  preflight. The other requests arrive as these hooks leave them (\<open>su_arrive\<close>).\<close>

definition granted :: "cors_options \<Rightarrow> client_request \<Rightarrow> exchange \<Rightarrow> bool" where
  "granted options q ex \<longleftrightarrow> reply_headers (ex_reply ex) ''x-content-type-options'' = Some (HStr ''nosniff'')
     \<and> (\<forall>origin. map_of (cl_headers q) ''origin'' = Some origin \<longrightarrow>
          (if allowed_origin options origin
           then reply_headers (ex_reply ex) ''access-control-allow-origin'' = Some (HStr origin)
             \<and> (cors_credentials options
                 \<longrightarrow> reply_headers (ex_reply ex) ''access-control-allow-credentials'' = Some (HStr ''true''))
           else reply_headers (ex_reply ex) ''access-control-allow-origin'' = None))"

definition e2e_secured :: "e2e_setup \<Rightarrow> app \<Rightarrow> bool" where
  "e2e_secured su app \<longleftrightarrow> security_law (su_secure su)
     \<and> (\<forall>q. sent (ex_reply (su_raw su q)) = None \<and> req_method (ex_request (su_raw su q)) = cl_method q
          \<and> (if cl_method q \<noteq> ''OPTIONS''
             then su_secure su (app_cors app) (su_raw su q) = Inr (su_arrive su q) \<and> granted (app_cors app) q (su_arrive su q)
             else map_of (cl_headers q) ''origin'' \<noteq> None
               \<longrightarrow> map_of (cl_headers q) ''access-control-request-method'' \<noteq> None
               \<longrightarrow> (\<forall>x. su_secure su (app_cors app) (su_raw su q) = Inr x \<longrightarrow> status_code (ex_reply x) = 204)))"

text \<open>The script takes less than a window: its limiter counts every request of a client so far. The world of a
  request is that of a client's first one.\<close>

definition e2e_limited :: "e2e_setup \<Rightarrow> bool" where
  "e2e_limited su \<longleftrightarrow> counts_in (\<lambda>_ _. 0) (su_count su)
     \<and> (\<forall>hs. limits_by (su_count su) hs 0 (su_limiter su hs))
     \<and> (\<forall>q. w_limit (su_world su q) = su_limiter su [])"

text \<open>Pino writes a line of a logger at its level or above, with every binding as a JSON field. At the level
  \<open>info\<close> the proxy library reports each request that is forwarded on the request's own logger, and the
  line reaches the log text before the script reads it.\<close>

definition json_plain :: "string \<Rightarrow> bool" where
  "json_plain s \<longleftrightarrow> list_all (\<lambda>c. is_word c \<or> c = CHR ''-'') s"

definition pino_line :: "logger \<Rightarrow> string \<Rightarrow> bool" where
  "pino_line lg line \<longleftrightarrow> (\<forall>(key, value) \<in> set (bindings lg). json_plain key \<longrightarrow> json_plain value
     \<longrightarrow> sublist (quoted_field key value) line)"

definition e2e_logged :: "e2e_setup \<Rightarrow> app \<Rightarrow> bool" where
  "e2e_logged su app \<longleftrightarrow> (\<forall>q m x up hs. lc_level (fo_logger (app_factory app)) = ''info''
     \<longrightarrow> su_route su q = Some m
     \<longrightarrow> handle_request (su_run su) (su_base su) (pf_sha256 (su_platform su)) (su_world su q) app m (su_arrive su q)
           = (x, Forwarded up hs)
     \<longrightarrow> (\<exists>line. pino_line (req_log (ex_request x)) line \<and> sublist line (su_log su q)))"

end
