(* ===== verification/E2eServices.thy ===== *)
theory E2eServices
  imports E2eScript
begin

section \<open>What the services answer the end-to-end script\<close>

text \<open>
  The gateway booted with the environment of theory \<open>E2eScript\<close>: what it mounts, what a refused and what
  an admitted request of the script gets from each of the three services, and that the checks of each
  service then hold.
\<close>

subsection \<open>The booted gateway\<close>

lemma default_lists:
  "text_of (default_settings ''IP_ALLOW_LIST'') = []" "text_of (default_settings ''IP_DENY_LIST'') = []"
  "bool_of (default_settings ''CACHE_ENABLED'') = False"
  by code_simp+

lemma e2e_config_values:
  "GATEWAY_API_KEY (typed_config e2e_settings) = ''e2e-key''"
  "BASIC_AUTH_USERS (typed_config e2e_settings) = ''admin:s3cret,svc:svcpass''"
  "USERS_SERVICE_URL (typed_config e2e_settings) = service_url ''users''"
  "ORDERS_SERVICE_URL (typed_config e2e_settings) = service_url ''orders''"
  "PUBLIC_SERVICE_URL (typed_config e2e_settings) = service_url ''public''"
  "USERS_SERVICE_BASIC_AUTH (typed_config e2e_settings) = ''gw-users:users-secret''"
  "ORDERS_SERVICE_BASIC_AUTH (typed_config e2e_settings) = ''gw-orders:orders-secret''"
  "IP_ALLOW_LIST (typed_config e2e_settings) = []" "IP_DENY_LIST (typed_config e2e_settings) = []"
  "CACHE_ENABLED (typed_config e2e_settings) = False"
  "UPSTREAM_TIMEOUT_MS (typed_config e2e_settings) = 800"
  unfolding typed_config_def gateway_config.select_convs
  by (simp_all add: e2e_settings_def default_lists decimal_int_def)

lemma e2e_parts:
  assumes "e2e_ready su app"
  shows "build_app (su_platform su) e2e_variables = Inr app"
    and "app_config app = typed_config e2e_settings" and "app_ip_filter app = None" and "\<not> app_has_cache app"
proof -
  show b: "build_app (su_platform su) e2e_variables = Inr app" using assms by (simp add: e2e_ready_def)
  note parts = build_app_parts [OF b]
  show c: "app_config app = typed_config e2e_settings"
    using parts(2) assms by (auto simp: e2e_ready_def)
  have "build_ip_list [] = Inr None" by code_simp
  then show "app_ip_filter app = None" using parts(6)
    by (simp add: c e2e_config_values ip_filter_plugin_def)
  show "\<not> app_has_cache app" using parts(9) by (simp add: c e2e_config_values cache_plugin_def)
qed

lemma e2e_mount:
  assumes "e2e_ready su app" and "service \<in> set service_gateways"
  obtains m where "m \<in> set (app_mounts app)" and "mount_prefix m = service_prefix service" and "mount_hooks m = []"
    and "mount_upstream m = upstream_of service (typed_config e2e_settings)"
    and "mount_rewriter m = create_header_rewriter service
        (map_option encode_basic_auth (truthy (upstream_credentials service (typed_config e2e_settings))))
        (app_trust_proxy app)"
    and "mount_guard m = (if service_auth service = AuthNone then None
        else auth_strategy (app_strategies app) (service_auth service))"
proof -
  note b = e2e_parts [OF assms(1)]
  from list_all2_member [OF mount_services_list [OF build_app_parts(12) [OF b(1)]] assms(2)]
  obtain m where m: "m \<in> set (app_mounts app)" "to_plugin (pf_urls (su_platform su)) service
      (instance_of_app (app_config app) (app_trust_proxy app) (app_strategies app) (app_has_cache app)) = Inr m"
    by blast
  note spec = to_plugin_spec [OF m(2)]
  show thesis
    by (rule that [OF m(1)]) (use spec to_plugin_prefix [OF m(2)] b(2,4) in \<open>simp_all add: instance_of_app_def\<close>)
qed

subsection \<open>What the checks get\<close>

lemma ask_routed:
  "cl_path q \<notin> probe_paths \<Longrightarrow> ask_gateway su app px q = respond su (case su_route su q of
      None \<Rightarrow> handle_unmatched (su_run su) (su_world su q) app (su_arrive su q)
    | Some m \<Rightarrow> ex_reply (co_exchange (fst (serve_request (su_run su) (su_base su)
        (pf_sha256 (su_platform su)) app (e2e_arrival su px m q) quiet))))"
  by (simp add: ask_gateway_def probe_paths_def)

lemma ask_refused:
  assumes "e2e_ready su app" and "m \<in> set (app_mounts app)" and "mount_hooks m = []"
    and "su_route su q = Some m" and "mount_guard m = Some guard"
    and "\<not> admits guard (w_auth (su_world su q)) (ex_tokens (su_arrive su q))
        (ex_request (traced (su_world su q) (su_arrive su q)))"
    and "cl_path q \<notin> probe_paths"
  obtains rp where "sent rp = None"
    and "\<And>r. snd (snd (guard (w_auth (su_world su q)) (ex_tokens (su_arrive su q))
        (ex_request (traced (su_world su q) (su_arrive su q))) rp)) = r
      \<Longrightarrow> hr_status (ask_gateway su app px q) = status_code r
        \<and> header_of (hr_headers (ask_gateway su app px q)) HdrWwwAuthenticate
            = header_of (reply_headers r) HdrWwwAuthenticate"
proof -
  note probe = assms(7)
  let ?w = "su_world su q" and ?ex = "su_arrive su q" and ?a = "e2e_arrival su px m q"
  let ?sha = "pf_sha256 (su_platform su)" and ?t = "traced (su_world su q) (su_arrive su q)"
  have a: "ar_world ?a = ?w" "ar_mount ?a = m" "ar_exchange ?a = ?ex" by (simp_all add: e2e_arrival_def)
  have r: "lifecycle (su_run su)" "world_ready app ?w" "arrives_as q (su_uuid su q) ?ex"
    using assms(1) by (simp_all add: e2e_ready_def)
  with probe have l: "limiter_law (w_limit ?w)" and s: "service_request ?ex" and o: "\<not> gated ?w app (req_ip (ex_request ?ex))"
    using e2e_parts(3) [OF assms(1)] by (auto simp: world_ready_def arrives_as_def gated_def)
  have unsent: "sent (ex_reply ?t) = None" "ex_tokens ?t = ex_tokens ?ex"
    using s by (simp_all add: traced_def service_request_def)
  obtain y where y: "w_limit ?w (app_rate_limit app) ?t = Inr y"
    using assms(1) probe unfolding e2e_ready_def by blast
  then have y': "ex_request y = ex_request ?t" "ex_tokens y = ex_tokens ?t" "sent (ex_reply y) = None"
    using l unsent(1) unfolding limiter_law_def by metis+
  obtain st q' rep where g: "guard (w_auth ?w) (ex_tokens ?ex) (ex_request ?t) (ex_reply y) = (st, q', rep)"
    by (cases "guard (w_auth ?w) (ex_tokens ?ex) (ex_request ?t) (ex_reply y)") auto
  have sent: "sent rep \<noteq> None"
    using tagging_guard.verdict [OF steady_guard.axioms(1) [OF mounted_steady [OF e2e_parts(1) [OF assms(1)] assms(2,5)]]
        y'(3) fresh_unsent, of "w_auth ?w" "ex_tokens ?ex" "ex_request ?t"] g assms(6)
    by (simp add: admits_def)
  have "service_hooks ?sha ?w m = []" by (simp add: service_hooks_def assms(3) List.map_filter_def)
  then have "run' = su_run su \<Longrightarrow> run' (entry_hooks ?w app @ service_hooks ?sha ?w m @ route_hooks ?w app m) ?ex
      = y\<lparr>ex_tokens := st, ex_request := q', ex_reply := rep\<rparr>" for run'
    using y y' g unsent assms(5) run_through [OF r(1) entry_survives [OF s o]]
    by (simp add: route_hooks_def guard_hook_def run_Cons [OF r(1)] run_Nil [OF r(1)])
  then have "snd (handle_request (su_run su) (su_base su) ?sha ?w app m ?ex) = Answered rep"
    using sent by (simp add: handle_outcome outcome_of_def)
  then have "ex_reply (answered (su_run su) (su_base su) ?sha app ?a) = rep"
    using answered_outcome [of "su_run su" "su_base su" ?sha ?a app] by (simp add: a)
  then have "hr_status (ask_gateway su app px q) = status_code rep
      \<and> header_of (hr_headers (ask_gateway su app px q)) HdrWwwAuthenticate
          = header_of (reply_headers rep) HdrWwwAuthenticate"
    by (simp add: ask_routed [OF probe] respond_def assms(4) completed_reply(1,3) header_of_def header_name.simps)
  then show thesis using that [OF y'(3)] by (simp add: g)
qed

text \<open>An admitted request leaves its hooks as it entered them, with the ids bound.\<close>

lemma admitted_forwarded:
  assumes "e2e_ready su app" and "m \<in> set (app_mounts app)" and "mount_hooks m = []"
    and "\<And>guard. mount_guard m = Some guard \<Longrightarrow> admits guard (w_auth (su_world su q)) (ex_tokens (su_arrive su q))
        (ex_request (traced (su_world su q) (su_arrive su q)))"
    and "cl_path q \<notin> probe_paths"
  defines "t \<equiv> ex_request (traced (su_world su q) (su_arrive su q))"
  obtains x where "handle_request (su_run su) (su_base su) (pf_sha256 (su_platform su)) (su_world su q) app m (su_arrive su q)
      = (x, Forwarded (mount_upstream m) (mount_rewriter m t (su_base su (req_headers t))))"
    and "sent (ex_reply x) = None" and "ex_request x = t"
proof -
  note probe = assms(5)
  let ?w = "su_world su q" and ?ex = "su_arrive su q" and ?sha = "pf_sha256 (su_platform su)"
  let ?h = "handle_request (su_run su) (su_base su) ?sha ?w app m ?ex"
  have r: "lifecycle (su_run su)" "world_ready app ?w" "arrives_as q (su_uuid su q) ?ex"
    using assms(1) by (simp_all add: e2e_ready_def)
  with probe have l: "limiter_law (w_limit ?w)" and s: "service_request ?ex" and o: "\<not> gated ?w app (req_ip (ex_request ?ex))"
    using e2e_parts(3) [OF assms(1)] by (auto simp: world_ready_def arrives_as_def gated_def)
  obtain y where y: "w_limit ?w (app_rate_limit app) (traced ?w ?ex) = Inr y"
    using assms(1) probe unfolding e2e_ready_def by blast
  have unsent: "sent (ex_reply (traced ?w ?ex)) = None" using s by (simp add: traced_def service_request_def)
  have "verdict_of ?sha ?w app m ?ex = Admitted"
    using o y unsent assms(4)
    by (auto simp: verdict_of_def after_cache_def assms(3) guard_verdict_def split: option.split)
  with pipeline_decides [OF r(1) l e2e_parts(1) [OF assms(1)] assms(2) s, of ?sha "su_base su"] obtain up hs where
    f: "snd ?h = Forwarded up hs" using gives_forwarded by blast
  have f': "up = mount_upstream m" "hs = mount_rewriter m t (su_base su (req_headers t))"
    using forwarded_gates [OF r(1) l e2e_parts(1) [OF assms(1)] assms(2) s f] by (simp_all add: t_def traced_def)
  have "survive (entry_hooks ?w app @ service_hooks ?sha ?w m @ route_hooks ?w app m) ?ex = Some (fst ?h)"
    using run_survives [OF r(1)] forwarded_unsent [OF f] by (simp add: handle_request_def Let_def)
  moreover have "service_hooks ?sha ?w m = []" by (simp add: service_hooks_def assms(3) List.map_filter_def)
  ultimately have rt: "survive (route_hooks ?w app m) (traced ?w ?ex) = Some (fst ?h)"
    using entry_survives [OF s o] by (simp add: survive_append)
  have "ex_request (fst ?h) = t"
    using route_pass [OF rt l] mounted_guard [OF e2e_parts(1) [OF assms(1)] assms(2)] unfolding t_def by blast
  with that [of "fst ?h"] f f' forwarded_unsent [OF f] show thesis by (metis prod.collapse)
qed

lemma traced_fields:
  "req_url (ex_request (traced w ex)) = req_url (ex_request ex)" "req_id (ex_request (traced w ex)) = req_id (ex_request ex)"
  "req_method (ex_request (traced w ex)) = req_method (ex_request ex)"
  "req_body (ex_request (traced w ex)) = req_body (ex_request ex)"
  by (simp_all add: traced_def request_context_hook_def Let_def split: prod.split)

lemma ask_forwarded:
  assumes "e2e_ready su app" and "m \<in> set (app_mounts app)" and "mount_hooks m = []"
    and "\<And>guard. mount_guard m = Some guard \<Longrightarrow> admits guard (w_auth (su_world su q)) (ex_tokens (su_arrive su q))
        (ex_request (traced (su_world su q) (su_arrive su q)))"
    and "cl_path q \<notin> probe_paths"
  defines "t \<equiv> ex_request (traced (su_world su q) (su_arrive su q))"
  obtains x where "answered (su_run su) (su_base su) (pf_sha256 (su_platform su)) app (e2e_arrival su px m q)
      = proxied px (mount_upstream m) (mount_rewriter m t (su_base su (req_headers t))) x"
    and "sent (ex_reply x) = None" and "req_url (ex_request x) = cl_path q"
    and "req_id (ex_request x) = req_id (ex_request (su_arrive su q))"
    and "req_method (ex_request x) = cl_method q" and "req_body (ex_request x) = cl_body q"
proof -
  obtain x where x: "handle_request (su_run su) (su_base su) (pf_sha256 (su_platform su)) (su_world su q) app m (su_arrive su q)
      = (x, Forwarded (mount_upstream m) (mount_rewriter m t (su_base su (req_headers t))))"
    "sent (ex_reply x) = None" "ex_request x = t"
    using admitted_forwarded [OF assms(1-5)] unfolding t_def by blast
  have "arrives_as q (su_uuid su q) (su_arrive su q)" using assms(1) by (simp add: e2e_ready_def)
  then have "req_url t = cl_path q" "req_id t = req_id (ex_request (su_arrive su q))"
    "req_method t = cl_method q" "req_body t = cl_body q"
    by (simp_all add: t_def traced_fields arrives_as_def)
  then show thesis
    using that [of x] x by (simp add: answered_def e2e_arrival_def)
qed

lemma ask_reaches:
  assumes "e2e_ready su app" and "m \<in> set (app_mounts app)" and "mount_hooks m = []"
    and "cl_path q = mount_prefix m @ ''/'' @ rest" and "cl_path q \<notin> probe_paths"
    and "\<And>guard. mount_guard m = Some guard \<Longrightarrow> admits guard (w_auth (su_world su q)) (ex_tokens (su_arrive su q))
        (ex_request (traced (su_world su q) (su_arrive su q)))"
  defines "t \<equiv> ex_request (traced (su_world su q) (su_arrive su q))"
  obtains x where "ask_gateway su app px q = respond su (ex_reply
      (proxied px (mount_upstream m) (mount_rewriter m t (su_base su (req_headers t))) x))"
    and "sent (ex_reply x) = None" and "req_url (ex_request x) = cl_path q"
    and "req_id (ex_request x) = req_id (ex_request (su_arrive su q))"
    and "req_method (ex_request x) = cl_method q" and "req_body (ex_request x) = cl_body q"
proof -
  have "prefix (mount_prefix m @ ''/'') (cl_path q)" by (simp add: assms(4) prefix_def)
  then have route: "su_route su q = Some m" using assms(1,2) unfolding e2e_ready_def by blast
  obtain x where x: "answered (su_run su) (su_base su) (pf_sha256 (su_platform su)) app (e2e_arrival su px m q)
      = proxied px (mount_upstream m) (mount_rewriter m t (su_base su (req_headers t))) x"
    "sent (ex_reply x) = None" "req_url (ex_request x) = cl_path q"
    "req_id (ex_request x) = req_id (ex_request (su_arrive su q))"
    "req_method (ex_request x) = cl_method q" "req_body (ex_request x) = cl_body q"
    using ask_forwarded [OF assms(1-3,6,5)] unfolding t_def by blast
  have r: "respond su r = respond su r'" if "status_code r = status_code r'" "sent r = sent r'"
    "reply_headers r = reply_headers r'" for r r'
    using that by (simp add: respond_def)
  have "reply_headers (ex_reply (co_exchange (fst (serve_request (su_run su) (su_base su)
      (pf_sha256 (su_platform su)) app (e2e_arrival su px m q) quiet))))
      = reply_headers (ex_reply (answered (su_run su) (su_base su) (pf_sha256 (su_platform su)) app (e2e_arrival su px m q)))"
    by (simp add: serve_request_def complete_request_def answered_def e2e_arrival_def assms(3) on_response_def split_beta Let_def
        split: route_outcome.split)
  then have "ask_gateway su app px q = respond su (ex_reply
      (answered (su_run su) (su_base su) (pf_sha256 (su_platform su)) app (e2e_arrival su px m q)))"
    unfolding ask_routed [OF assms(5)] route option.case by (intro r completed_reply) simp_all
  then show thesis using that x by simp
qed

text \<open>An admitted request is answered with the echo of what the upstream received.\<close>

lemma passed_url:
  assumes "passed_on app hs x r" and "m \<in> set (app_mounts app)"
    and "req_url (ex_request x) = mount_prefix m @ ''/'' @ rest"
  shows "ur_url r = ''/'' @ rest"
  using assms(1) [unfolded passed_on_def, THEN conjunct2, THEN conjunct1, rule_format, OF imageI [OF assms(2)] assms(3)] .

lemma ask_echoed:
  assumes "e2e_ready su app" and "echo_network su app px" and "m \<in> set (app_mounts app)" and "mount_hooks m = []"
    and "mount_upstream m = service_url name" and "name \<in> {''users'', ''orders'', ''public''}"
    and "cl_path q = mount_prefix m @ ''/'' @ rest" and "cl_path q \<notin> probe_paths" and "rest \<noteq> ''slow''"
    and "\<And>guard. mount_guard m = Some guard \<Longrightarrow> admits guard (w_auth (su_world su q)) (ex_tokens (su_arrive su q))
        (ex_request (traced (su_world su q) (su_arrive su q)))"
  obtains r where "hr_status (ask_gateway su app px q) = 200"
    and "hr_echo (ask_gateway su app px q) = Some (snd (start_echo name r))"
    and "ur_url r = ''/'' @ rest" and "ur_method r = cl_method q" and "ur_body r = cl_body q"
    and "\<And>n. n \<in> set sent_names \<Longrightarrow> map_of (ur_headers r) n = map_option hval_text
        (mount_rewriter m (ex_request (traced (su_world su q) (su_arrive su q)))
          (su_base su (req_headers (ex_request (traced (su_world su q) (su_arrive su q))))) n)"
proof -
  let ?t = "ex_request (traced (su_world su q) (su_arrive su q))"
  let ?hs = "mount_rewriter m ?t (su_base su (req_headers ?t))"
  obtain x where x: "ask_gateway su app px q = respond su (ex_reply (proxied px (mount_upstream m) ?hs x))"
    "sent (ex_reply x) = None" "req_url (ex_request x) = cl_path q"
    "req_method (ex_request x) = cl_method q" "req_body (ex_request x) = cl_body q"
    using ask_reaches [OF assms(1,3,4,7,8,10)] by blast
  from assms(2,6) x(2) have "echoes su app name ?hs x (px (service_url name) ?hs x)"
    unfolding echo_network_def by blast
  then obtain r where r: "passed_on app ?hs x r"
    "case start_echo name r of (delay, e) \<Rightarrow> if UPSTREAM_TIMEOUT_MS (app_config app) < int delay
       then (\<exists>err. px (service_url name) ?hs x = Inl err \<and> slow_error err)
       else (\<exists>reply s. px (service_url name) ?hs x = Inr reply \<and> su_decode su s = Some e
         \<and> relays \<lparr>ua_status = 200, ua_headers = [''content-type'' \<mapsto> HStr ''application/json''], ua_body = s\<rparr>
             (ex_reply x) reply)"
    unfolding echoes_def by (elim exE conjE) (rule that)
  have url: "ur_url r = ''/'' @ rest"
    using passed_url [OF r(1) assms(3)] x(3) assms(7) by (simp only:)
  have "fst (start_echo name r) = 0" using assms(9) by (simp add: start_echo_def url)
  moreover have "\<not> UPSTREAM_TIMEOUT_MS (app_config app) < 0"
    by (simp add: e2e_parts(2) [OF assms(1)] e2e_config_values)
  ultimately obtain reply s where e: "px (service_url name) ?hs x = Inr reply"
    "su_decode su s = Some (snd (start_echo name r))"
    "relays \<lparr>ua_status = 200, ua_headers = [''content-type'' \<mapsto> HStr ''application/json''], ua_body = s\<rparr>
      (ex_reply x) reply"
    using r(2) by (auto simp: split_beta)
  have rel: "status_code reply = 200" "sent reply = Some (StreamPayload s)"
    using e(3) by (simp_all add: relays_def)
  have "hr_status (ask_gateway su app px q) = 200"
    "hr_echo (ask_gateway su app px q) = Some (snd (start_echo name r))"
    by (simp_all add: x(1) proxied_def assms(5) e(1,2) rel respond_def)
  moreover have "ur_method r = cl_method q" "ur_body r = cl_body q"
    using r(1) x(4,5) by (simp_all add: passed_on_def)
  ultimately show ?thesis using url that r(1) unfolding passed_on_def by blast
qed

lemma map_of_others: "k \<noteq> n \<Longrightarrow> map_of (filter (\<lambda>(k, v). k \<noteq> n) xs) k = map_of xs k"
  by (induction xs) auto

lemma e2e_req_fields:
  "cl_path (fst (e2e_req path opts n)) = path"
  "k \<noteq> ''x-forwarded-for'' \<Longrightarrow> map_of (cl_headers (fst (e2e_req path opts n))) k = map_of (op_headers opts) k"
  "cl_method (fst (e2e_req path opts n)) = op_method opts"
  "cl_body (fst (e2e_req path opts n)) = op_body opts"
  by (simp_all add: e2e_req_def Let_def map_of_others split: option.split)

lemma traced_read:
  assumes "e2e_ready su app" and "n \<in> {''x-api-key'', ''authorization''}"
  shows "req_headers (ex_request (traced w (su_arrive su q))) n = map_option HStr (map_of (cl_headers q) n)"
proof -
  have "arrives_as q (su_uuid su q) (su_arrive su q)" using assms(1) by (simp add: e2e_ready_def)
  moreover have "n \<in> set read_names" using assms(2) by (auto simp: read_names_def)
  moreover have "n \<notin> {''x-request-id'', ''x-correlation-id'', ''traceparent'', ''tracestate''}"
    using assms(2) by auto
  note traced_header [OF this, of w "su_arrive su q"]
  ultimately show ?thesis unfolding arrives_as_def by simp
qed

lemma op_with_headers: "op_headers (with_headers hs) = hs" "op_headers plain = []"
  by (simp_all add: with_headers_def plain_def)

subsection \<open>The users service\<close>

lemma e2e_secret_equal:
  assumes "e2e_ready su app" and "a \<in> e2e_secrets" and "b \<in> e2e_secrets"
  shows "safe_equal (pf_sha256 (su_platform su)) (js_codes a) (js_codes b) \<longleftrightarrow> a = b"
proof -
  have "no_collision (pf_sha256 (su_platform su)) (js_codes a) (js_codes b)"
    using assms unfolding e2e_ready_def by blast
  from safe_equal_iff [OF this] show ?thesis by (simp add: js_codes_scalar)
qed

lemma users_mount:
  assumes "e2e_ready su app"
  obtains m where "m \<in> set (app_mounts app)" and "mount_prefix m = ''/api/users''" and "mount_hooks m = []"
    and "mount_upstream m = service_url ''users''"
    and "mount_rewriter m = create_header_rewriter users_gateway (Some (basic ''gw-users'' ''users-secret'')) (app_trust_proxy app)"
    and "mount_guard m = Some (create_api_key_strategy (pf_sha256 (su_platform su)) ''e2e-key'')"
proof -
  have u: "users_gateway \<in> set service_gateways" by (simp add: service_gateways_def)
  have "auth_strategy (app_strategies app) AuthApiKey
      = Some (create_api_key_strategy (pf_sha256 (su_platform su)) ''e2e-key'')"
    by (rule auth_plugin_registry [OF build_app_parts(7) [OF e2e_parts(1) [OF assms]]])
      (simp add: e2e_parts(2) [OF assms] e2e_config_values)
  moreover have "service_prefix users_gateway = ''/api/users''" by (simp add: users_gateway_def base_gateway_def)
  moreover have "encode_basic_auth ''gw-users:users-secret'' = basic ''gw-users'' ''users-secret''"
    by (simp add: encode_basic_auth_def basic_def)
  moreover obtain m where "m \<in> set (app_mounts app)" "mount_prefix m = service_prefix users_gateway" "mount_hooks m = []"
    "mount_upstream m = upstream_of users_gateway (typed_config e2e_settings)"
    "mount_rewriter m = create_header_rewriter users_gateway (map_option encode_basic_auth
        (truthy (upstream_credentials users_gateway (typed_config e2e_settings)))) (app_trust_proxy app)"
    "mount_guard m = (if service_auth users_gateway = AuthNone then None
        else auth_strategy (app_strategies app) (service_auth users_gateway))"
    by (rule e2e_mount [OF assms u])
  ultimately show thesis
    using that [of m] by (simp add: e2e_config_values or_undefined_def truthy_Some)
qed

lemma users_refused:
  assumes "e2e_ready su app" and "cl_path q = ''/api/users'' @ ''/'' @ rest"
    and "map_of (cl_headers q) ''x-api-key'' = None \<or> map_of (cl_headers q) ''x-api-key'' = Some ''nope''"
  shows "hr_status (ask_gateway su app px q) = 401"
proof -
  obtain m where m: "m \<in> set (app_mounts app)" "mount_prefix m = ''/api/users''" "mount_hooks m = []"
    and g: "mount_guard m = Some (create_api_key_strategy (pf_sha256 (su_platform su)) ''e2e-key'')"
    by (rule users_mount [OF assms(1)])
  have "prefix (mount_prefix m @ ''/'') (cl_path q)" by (simp add: assms(2) m(2) prefix_def)
  then have route: "su_route su q = Some m" using assms(1) m(1) unfolding e2e_ready_def by blast
  have probe: "cl_path q \<notin> probe_paths" by (simp add: assms(2) probe_paths_def)
  let ?t = "ex_request (traced (su_world su q) (su_arrive su q))"
  have "req_headers ?t ''x-api-key'' = map_option HStr (map_of (cl_headers q) ''x-api-key'')"
    using traced_read [OF assms(1)] by simp
  then have h: "req_header ?t HdrApiKey = None \<or> req_header ?t HdrApiKey = Some (HStr ''nope'')"
    using assms(3) by (auto simp: req_header_def header_of_def header_name.simps)
  have ne: "\<not> safe_equal (pf_sha256 (su_platform su)) (js_codes ''nope'') (js_codes ''e2e-key'')"
    using e2e_secret_equal [OF assms(1), of "''nope''" "''e2e-key''"] by (simp add: e2e_secrets_def)
  have out: "snd (snd (create_api_key_strategy (pf_sha256 (su_platform su)) ''e2e-key'' env st ?t rp))
      = send_unauthorized ?t rp" for env st rp
    using h ne by (auto simp: create_api_key_strategy_def)
  then have "\<not> admits (create_api_key_strategy (pf_sha256 (su_platform su)) ''e2e-key'') (w_auth (su_world su q))
      (ex_tokens (su_arrive su q)) ?t"
    by (simp add: admits_def)
  from ask_refused [OF assms(1) m(1,3) route g this probe] show ?thesis
    by (metis out send_unauthorized_simps(1))
qed

lemma base_kept: "e2e_ready su app \<Longrightarrow> n \<in> set sent_names \<Longrightarrow> su_base su hs n = hs n"
  unfolding e2e_ready_def by blast

lemma uuid_safe: "uuid_text u \<Longrightarrow> safe_header_id u"
  by (auto simp: uuid_text_def safe_header_id_def list_all_iff is_hex_lower_def is_word_def is_lower_def)

lemma traced_ids:
  fixes q :: client_request
  assumes "e2e_ready su app"
  defines "t \<equiv> ex_request (traced (su_world su q) (su_arrive su q))"
  shows "req_headers t ''x-request-id'' = Some (HStr (req_id (ex_request (su_arrive su q))))"
    and "req_id (ex_request (su_arrive su q)) \<noteq> []"
    and "req_hostname t \<noteq> []" and "req_protocol t = ''http''" and "remote_address t = Some ''127.0.0.1''"
proof -
  have a: "arrives_as q (su_uuid su q) (su_arrive su q)" using assms(1) by (simp add: e2e_ready_def)
  show "req_headers t ''x-request-id'' = Some (HStr (req_id (ex_request (su_arrive su q))))"
    using hook_unfold(4) by (simp add: t_def traced_def)
  have fields: "req_hostname t = req_hostname (ex_request (su_arrive su q))"
    "req_protocol t = req_protocol (ex_request (su_arrive su q))"
    "remote_address t = remote_address (ex_request (su_arrive su q))"
    by (simp_all add: t_def traced_def request_context_hook_def Let_def split: prod.split)
  have "safe_header_id (req_id (ex_request (su_arrive su q)))"
    using a gen_req_id_safe [OF uuid_safe] by (simp add: arrives_as_def)
  then show "req_id (ex_request (su_arrive su q)) \<noteq> []" by (auto simp: safe_header_id_def)
  from fields show "req_hostname t \<noteq> []" "req_protocol t = ''http''"
    "remote_address t = Some ''127.0.0.1''"
    using a by (simp_all add: arrives_as_def)
qed

text \<open>The client's trace goes on with the gateway's span.\<close>

lemma client_trace:
  "parse_traceparent (Some client_traceparent) = Some \<lparr>tc_trace_id = ''4bf92f3577b34da6a3ce929d0e0e4736'',
     tc_span_id = ''00f067aa0ba902b7'', tc_flags = ''01''\<rparr>"
  unfolding client_traceparent_def by code_simp

lemma trace_goes_on:
  assumes "e2e_ready su app" and "map_of (cl_headers q) ''traceparent'' = Some client_traceparent"
  shows "\<exists>s. req_headers (ex_request (traced (su_world su q) (su_arrive su q))) ''traceparent'' = Some (HStr s)
    \<and> trace_continued s"
proof -
  let ?rnd = "w_random (su_world su q)" and ?ex = "su_arrive su q"
  have a: "arrives_as q (su_uuid su q) ?ex" and w: "good_random ?rnd" "generate_span_id ?rnd \<noteq> ''00f067aa0ba902b7''"
    using assms(1) by (auto simp: e2e_ready_def world_ready_def)
  have "''traceparent'' \<in> set read_names" by (simp add: read_names_def)
  then have "req_headers (ex_request ?ex) ''traceparent'' = Some (HStr client_traceparent)"
    using a assms(2) unfolding arrives_as_def by simp
  then have h: "string_header (req_header (ex_request ?ex) HdrTraceparent) = Some client_traceparent"
    by (simp add: req_header_def header_of_def header_name.simps)
  let ?c = "\<lparr>tc_trace_id = ''4bf92f3577b34da6a3ce929d0e0e4736'', tc_span_id = generate_span_id ?rnd, tc_flags = ''01''\<rparr>"
  have c: "fst (next_trace_context ?rnd (Some client_traceparent)) = ?c"
    by (simp add: next_trace_context_def client_trace)
  have v: "valid_context ?c" using next_context_valid [OF w(1), of "Some client_traceparent"] c by simp
  have "req_headers (ex_request (traced (su_world su q) ?ex)) ''traceparent'' = Some (HStr (format_traceparent ?c))"
    using hook_unfold(4) [of ?rnd "ex_request ?ex" "ex_reply ?ex" "''traceparent''"]
    by (simp add: traced_def h c)
  moreover have "trace_continued (format_traceparent ?c)"
    using v w(2) by (simp add: trace_continued_def format_traceparent_def valid_context_def)
  ultimately show ?thesis by blast
qed

lemma forwarded_ends:
  "\<exists>v. create_header_rewriter service ua tp t hs ''x-forwarded-for'' = Some (HStr (v @ peer_of t))"
proof (cases "tp \<and> header_truthy (hs ''x-forwarded-for'')")
  case True
  then have "create_header_rewriter service ua tp t hs ''x-forwarded-for''
      = Some (HStr ((header_text (hs ''x-forwarded-for'') @ '', '') @ peer_of t))"
    by (simp add: rewriter_at)
  then show ?thesis by blast
next
  case False
  then have "create_header_rewriter service ua tp t hs ''x-forwarded-for'' = Some (HStr ([] @ peer_of t))"
    by (auto simp: rewriter_at)
  then show ?thesis by blast
qed

lemma sent_values:
  fixes t :: request
  assumes "e2e_ready su app" and "mount_rewriter m = create_header_rewriter service ua tp"
  defines "hs \<equiv> mount_rewriter m t (su_base su (req_headers t))"
  shows "hs ''x-api-key'' = None"
    and "hs ''authorization'' = (case truthy ua of Some a \<Rightarrow> Some (HStr a)
        | None \<Rightarrow> if service_auth service = AuthBasic then None else req_headers t ''authorization'')"
    and "hs ''x-request-id'' = req_headers t ''x-request-id''"
    and "hs ''traceparent'' = req_headers t ''traceparent''"
    and "hs ''x-forwarded-host'' = Some (HStr (req_hostname t))"
    and "hs ''x-forwarded-proto'' = Some (HStr (req_protocol t))"
    and "\<exists>v. hs ''x-forwarded-for'' = Some (HStr (v @ peer_of t))"
  unfolding hs_def assms(2)
  by (rule rewriter_at [THEN trans], simp add: base_kept [OF assms(1)] sent_names_def split: option.split)+
    (rule forwarded_ends)

lemma basic_set: "truthy (Some (basic u p)) = Some (basic u p)"
  by (simp add: truthy_Some basic_def)

lemma users_admitted:
  assumes "e2e_ready su app" and "echo_network su app px" and "cl_path q = ''/api/users'' @ ''/'' @ rest"
    and "rest \<noteq> ''slow''" and "map_of (cl_headers q) ''x-api-key'' = Some ''e2e-key''"
    and "map_of (cl_headers q) ''traceparent'' = Some client_traceparent"
  obtains e where "hr_status (ask_gateway su app px q) = 200" and "hr_echo (ask_gateway su app px q) = Some e"
    and "ec_service e = ''users''" and "ec_url e = ''/'' @ rest" and "e2e_header ''x-api-key'' e = None"
    and "e2e_header ''authorization'' e = Some (basic ''gw-users'' ''users-secret'')"
    and "set_text (e2e_header ''x-request-id'' e)"
    and "\<exists>t. e2e_header ''traceparent'' e = Some t \<and> trace_continued t"
    and "set_text (e2e_header ''x-forwarded-for'' e)" and "set_text (e2e_header ''x-forwarded-host'' e)"
    and "e2e_header ''x-forwarded-proto'' e = Some ''http''"
proof -
  obtain m where m: "m \<in> set (app_mounts app)" "mount_prefix m = ''/api/users''" "mount_hooks m = []"
    "mount_upstream m = service_url ''users''"
    and w: "mount_rewriter m = create_header_rewriter users_gateway (Some (basic ''gw-users'' ''users-secret'')) (app_trust_proxy app)"
    and g: "mount_guard m = Some (create_api_key_strategy (pf_sha256 (su_platform su)) ''e2e-key'')"
    by (rule users_mount [OF assms(1)])
  let ?t = "ex_request (traced (su_world su q) (su_arrive su q))"
  have "req_headers ?t ''x-api-key'' = Some (HStr ''e2e-key'')"
    using traced_read [OF assms(1), of "''x-api-key''" "su_world su q" q] assms(5) by simp
  then have h: "req_header ?t HdrApiKey = Some (HStr ''e2e-key'')"
    by (simp add: req_header_def header_of_def header_name.simps)
  have "safe_equal (pf_sha256 (su_platform su)) (js_codes ''e2e-key'') (js_codes ''e2e-key'')"
    using e2e_secret_equal [OF assms(1), of "''e2e-key''" "''e2e-key''"] by (simp add: e2e_secrets_def)
  with h have ad: "admits guard (w_auth (su_world su q)) (ex_tokens (su_arrive su q)) ?t"
    if "mount_guard m = Some guard" for guard
    using that g by (auto simp: admits_def create_api_key_strategy_def)
  have path: "cl_path q = mount_prefix m @ ''/'' @ rest" by (simp add: assms(3) m(2))
  have probe: "cl_path q \<notin> probe_paths" by (simp add: assms(3) probe_paths_def)
  have name: "''users'' \<in> {''users'', ''orders'', ''public''}" by simp
  obtain r where r: "hr_status (ask_gateway su app px q) = 200"
    "hr_echo (ask_gateway su app px q) = Some (snd (start_echo ''users'' r))" "ur_url r = ''/'' @ rest"
    and hs: "\<And>n. n \<in> set sent_names \<Longrightarrow> map_of (ur_headers r) n = map_option hval_text
        (mount_rewriter m ?t (su_base su (req_headers ?t)) n)"
    using ask_echoed [OF assms(1,2) m(1,3,4) name path probe assms(4) ad] by blast
  note v = sent_values [OF assms(1) w, of ?t] and ids = traced_ids [OF assms(1), of q]
  obtain xf where xf: "mount_rewriter m ?t (su_base su (req_headers ?t)) ''x-forwarded-for'' = Some (HStr (xf @ peer_of ?t))"
    using v(7) by blast
  obtain tp where tp: "req_headers ?t ''traceparent'' = Some (HStr tp)" "trace_continued tp"
    using trace_goes_on [OF assms(1,6)] by blast
  have peer: "peer_of ?t \<noteq> []" by (simp add: peer_of_def ids(5))
  let ?e = "snd (start_echo ''users'' r)"
  have e: "e2e_header n ?e = map_of (ur_headers r) n" for n by (simp add: e2e_header_def start_echo_def)
  have f: "ec_service ?e = ''users''" "ec_url ?e = ''/'' @ rest" by (simp_all add: start_echo_def r(3))
  show thesis
    by (rule that [OF r(1,2) f]; unfold e)
      (simp_all add: hs sent_names_def v xf tp ids set_text_def basic_set peer)
qed

lemma users_pass:
  assumes "e2e_ready su app" and "echo_network su app px" and "list_all check_ok results"
  shows "list_all check_ok (fst (users_checks (ask_gateway su app px) n results))"
proof -
  have path: "''/api/users/me'' = ''/api/users'' @ ''/'' @ ''me''" by simp
  have one: "hr_status (ask_gateway su app px (fst (e2e_req ''/api/users/me'' plain k))) = 401" for k
    by (rule users_refused [OF assms(1), where rest = "''me''"]) (simp_all add: e2e_req_fields plain_def)
  have two: "hr_status (ask_gateway su app px (fst (e2e_req ''/api/users/me''
      (with_headers [(''x-api-key'', ''nope'')]) k))) = 401" for k
    by (rule users_refused [OF assms(1), where rest = "''me''"]) (simp_all add: e2e_req_fields with_headers_def)
  define q where "q k = fst (e2e_req ''/api/users/me'' (with_headers [(''x-api-key'', ''e2e-key''),
      (''traceparent'', client_traceparent)]) k)" for k
  have q: "cl_path (q k) = ''/api/users'' @ ''/'' @ ''me''" "map_of (cl_headers (q k)) ''x-api-key'' = Some ''e2e-key''"
    "map_of (cl_headers (q k)) ''traceparent'' = Some client_traceparent" for k
    by (simp_all add: q_def e2e_req_fields with_headers_def)
  have "hr_status (ask_gateway su app px (q k)) = 200 \<and> (\<exists>e. hr_echo (ask_gateway su app px (q k)) = Some e
      \<and> ec_service e = ''users'' \<and> ec_url e = ''/me'' \<and> e2e_header ''x-api-key'' e = None
      \<and> e2e_header ''authorization'' e = Some (basic ''gw-users'' ''users-secret'')
      \<and> set_text (e2e_header ''x-request-id'' e)
      \<and> (\<exists>t. e2e_header ''traceparent'' e = Some t \<and> trace_continued t)
      \<and> set_text (e2e_header ''x-forwarded-for'' e) \<and> set_text (e2e_header ''x-forwarded-host'' e)
      \<and> e2e_header ''x-forwarded-proto'' e = Some ''http'')" for k
    by (rule users_admitted [OF assms(1,2) q(1) [of k] _ q(2,3) [of k]]) auto
  then have three: "hr_status (ask_gateway su app px (q k)) = 200" "\<exists>e. hr_echo (ask_gateway su app px (q k)) = Some e
      \<and> ec_service e = ''users'' \<and> ec_url e = ''/me'' \<and> e2e_header ''x-api-key'' e = None
      \<and> e2e_header ''authorization'' e = Some (basic ''gw-users'' ''users-secret'')
      \<and> set_text (e2e_header ''x-request-id'' e)
      \<and> (\<exists>t. e2e_header ''traceparent'' e = Some t \<and> trace_continued t)
      \<and> set_text (e2e_header ''x-forwarded-for'' e) \<and> set_text (e2e_header ''x-forwarded-host'' e)
      \<and> e2e_header ''x-forwarded-proto'' e = Some ''http''" for k
    by blast+
  define k where "k = snd (e2e_req ''/api/users/me'' (with_headers [(''x-api-key'', ''nope'')])
      (snd (e2e_req ''/api/users/me'' plain n)))"
  obtain e where e: "hr_echo (ask_gateway su app px (q k)) = Some e"
    "ec_service e = ''users''" "ec_url e = ''/me''" "e2e_header ''x-api-key'' e = None"
    "e2e_header ''authorization'' e = Some (basic ''gw-users'' ''users-secret'')"
    "set_text (e2e_header ''x-request-id'' e)"
    "set_text (e2e_header ''x-forwarded-for'' e)" "set_text (e2e_header ''x-forwarded-host'' e)"
    "e2e_header ''x-forwarded-proto'' e = Some ''http''"
    and t: "\<exists>t. e2e_header ''traceparent'' e = Some t \<and> trace_continued t"
    using three(2) [of k] by blast
  from t obtain t where "e2e_header ''traceparent'' e = Some t" "trace_continued t" by blast
  then show ?thesis
    using assms(3) e three(1) [of k]
    by (simp add: users_checks_def split_beta Let_def one two q_def [symmetric] k_def [symmetric] record_check_def
        echoed_def)
qed

subsection \<open>The orders service\<close>

definition e2e_users :: "(string \<times> string) list" where
  "e2e_users = [(''admin'', ''s3cret''), (''svc'', ''svcpass'')]"

lemma e2e_users_parsed: "parse_user_list ''admin:s3cret,svc:svcpass'' = Inr (coded e2e_users)"
  unfolding e2e_users_def by code_simp

lemma orders_mount:
  assumes "e2e_ready su app"
  obtains m where "m \<in> set (app_mounts app)" and "mount_prefix m = ''/api/orders''" and "mount_hooks m = []"
    and "mount_upstream m = service_url ''orders''"
    and "mount_rewriter m = create_header_rewriter orders_gateway (Some (basic ''gw-orders'' ''orders-secret'')) (app_trust_proxy app)"
    and "mount_guard m = Some (create_basic_auth_strategy (pf_sha256 (su_platform su)) (coded e2e_users))"
proof -
  have o: "orders_gateway \<in> set service_gateways" by (simp add: service_gateways_def)
  have "auth_strategy (app_strategies app) AuthBasic
      = Some (create_basic_auth_strategy (pf_sha256 (su_platform su)) (coded e2e_users))"
    by (rule auth_plugin_registry [OF build_app_parts(7) [OF e2e_parts(1) [OF assms]]])
      (simp add: e2e_parts(2) [OF assms] e2e_config_values e2e_users_parsed)
  moreover have "service_prefix orders_gateway = ''/api/orders''" by (simp add: orders_gateway_def base_gateway_def)
  moreover have "encode_basic_auth ''gw-orders:orders-secret'' = basic ''gw-orders'' ''orders-secret''"
    by (simp add: encode_basic_auth_def basic_def)
  moreover obtain m where "m \<in> set (app_mounts app)" "mount_prefix m = service_prefix orders_gateway" "mount_hooks m = []"
    "mount_upstream m = upstream_of orders_gateway (typed_config e2e_settings)"
    "mount_rewriter m = create_header_rewriter orders_gateway (map_option encode_basic_auth
        (truthy (upstream_credentials orders_gateway (typed_config e2e_settings)))) (app_trust_proxy app)"
    "mount_guard m = (if service_auth orders_gateway = AuthNone then None
        else auth_strategy (app_strategies app) (service_auth orders_gateway))"
    by (rule e2e_mount [OF assms o])
  ultimately show thesis
    using that [of m] by (simp add: e2e_config_values or_undefined_def truthy_Some)
qed

text \<open>What the guard makes of the \<open>Authorization\<close> header of a check.\<close>

lemma orders_header:
  assumes "e2e_ready su app"
  shows "header_of (req_headers (ex_request (traced w (su_arrive su q)))) HdrAuthorization
    = map_option HStr (map_of (cl_headers q) ''authorization'')"
  using traced_read [OF assms, of "''authorization''" w q] by (simp add: header_of_def header_name.simps)

lemma basic_parsed: "CHR '':'' \<notin> set u \<Longrightarrow> parse_basic_auth_header (Some (basic u p))
    = Some \<lparr>cred_username = js_codes u, cred_password = js_codes p\<rparr>"
  using parse_encode_basic_auth [of u p] by (simp add: encode_basic_auth_def basic_def)

lemma e2e_users_get:
  "jm_get (coded e2e_users) (js_codes u) = Some q \<longleftrightarrow> (\<exists>p. (u, p) \<in> set e2e_users \<and> q = js_codes p)"
  by (rule jm_get_coded) (simp add: e2e_users_def)

lemma orders_refused:
  assumes "e2e_ready su app" and "cl_path q = ''/api/orders'' @ ''/'' @ rest"
    and "map_of (cl_headers q) ''authorization''
      \<in> {None, Some (basic ''admin'' ''wrong''), Some (basic ''ghost'' ''s3cret'')}"
  shows "hr_status (ask_gateway su app px q) = 401
    \<and> header_of (hr_headers (ask_gateway su app px q)) HdrWwwAuthenticate = Some (HStr basic_challenge)"
proof -
  obtain m where m: "m \<in> set (app_mounts app)" "mount_prefix m = ''/api/orders''" "mount_hooks m = []"
    and g: "mount_guard m = Some (create_basic_auth_strategy (pf_sha256 (su_platform su)) (coded e2e_users))"
    by (rule orders_mount [OF assms(1)])
  have "prefix (mount_prefix m @ ''/'') (cl_path q)" by (simp add: assms(2) m(2) prefix_def)
  then have route: "su_route su q = Some m" using assms(1) m(1) unfolding e2e_ready_def by blast
  have probe: "cl_path q \<notin> probe_paths" by (simp add: assms(2) probe_paths_def)
  let ?t = "ex_request (traced (su_world su q) (su_arrive su q))" and ?sha = "pf_sha256 (su_platform su)"
  have ne: "\<not> safe_equal ?sha (js_codes ''wrong'') (js_codes ''s3cret'')"
    using e2e_secret_equal [OF assms(1), of "''wrong''" "''s3cret''"] by (simp add: e2e_secrets_def)
  have admin: "jm_get (coded e2e_users) (js_codes ''admin'') = Some (js_codes ''s3cret'')"
    unfolding e2e_users_get by (simp add: e2e_users_def)
  have ghost: "jm_get (coded e2e_users) (js_codes ''ghost'') = None"
    using e2e_users_get [of "''ghost''"] by (cases "jm_get (coded e2e_users) (js_codes ''ghost'')") (auto simp: e2e_users_def)
  have h: "req_header ?t HdrAuthorization = map_option HStr (map_of (cl_headers q) ''authorization'')"
    using orders_header [OF assms(1)] by (simp add: req_header_def)
  consider "string_header (req_header ?t HdrAuthorization) = None"
    | "string_header (req_header ?t HdrAuthorization) = Some (basic ''admin'' ''wrong'')"
    | "string_header (req_header ?t HdrAuthorization) = Some (basic ''ghost'' ''s3cret'')"
    using assms(3) unfolding h by auto
  then have no: "case parse_basic_auth_header (string_header (req_header ?t HdrAuthorization)) of None \<Rightarrow> True
    | Some c \<Rightarrow> (case jm_get (coded e2e_users) (cred_username c) of None \<Rightarrow> True
        | Some p \<Rightarrow> \<not> safe_equal ?sha (cred_password c) p)"
    by cases (simp_all add: parse_basic_auth_header_def [of None] basic_parsed admin ghost ne del: js_codes_simps)
  have size: "jm_size (coded e2e_users) \<noteq> 0" by (simp add: jm_size_def coded_def e2e_users_def)
  have out: "snd (snd (create_basic_auth_strategy ?sha (coded e2e_users) env st ?t rp))
      = send_unauthorized ?t (reply_header HdrWwwAuthenticate basic_challenge rp)" for env st rp
    using no size
    by (auto simp: create_basic_auth_strategy_def Let_def split: option.splits)
  then have "\<not> admits (create_basic_auth_strategy ?sha (coded e2e_users)) (w_auth (su_world su q))
      (ex_tokens (su_arrive su q)) ?t"
    by (simp add: admits_def)
  from ask_refused [OF assms(1) m(1,3) route g this probe] obtain rp where
    "hr_status (ask_gateway su app px q) = status_code (send_unauthorized ?t (reply_header HdrWwwAuthenticate basic_challenge rp))
     \<and> header_of (hr_headers (ask_gateway su app px q)) HdrWwwAuthenticate
        = header_of (reply_headers (send_unauthorized ?t (reply_header HdrWwwAuthenticate basic_challenge rp))) HdrWwwAuthenticate"
    unfolding out by blast
  then show ?thesis by simp
qed

lemma orders_guard_admits:
  assumes "e2e_ready su app"
    and "map_of (cl_headers q) ''authorization'' \<in> {Some (basic ''admin'' ''s3cret''), Some (basic ''svc'' ''svcpass'')}"
  shows "admits (create_basic_auth_strategy (pf_sha256 (su_platform su)) (coded e2e_users)) (w_auth (su_world su q))
    (ex_tokens (su_arrive su q)) (ex_request (traced (su_world su q) (su_arrive su q)))"
proof -
  let ?t = "ex_request (traced (su_world su q) (su_arrive su q))" and ?sha = "pf_sha256 (su_platform su)"
  have h: "req_header ?t HdrAuthorization = map_option HStr (map_of (cl_headers q) ''authorization'')"
    using orders_header [OF assms(1)] by (simp add: req_header_def)
  have eq: "safe_equal ?sha (js_codes p) (js_codes p)" if "p \<in> e2e_secrets" for p
    using e2e_secret_equal [OF assms(1) that that] by simp
  have ok: "\<exists>c p. parse_basic_auth_header (string_header (req_header ?t HdrAuthorization)) = Some c
      \<and> jm_get (coded e2e_users) (cred_username c) = Some p \<and> safe_equal ?sha (cred_password c) p"
    if "map_of (cl_headers q) ''authorization'' = Some (basic u p)" "(u, p) \<in> set e2e_users" "p \<in> e2e_secrets"
      "CHR '':'' \<notin> set u" for u p
    using that eq [OF that(3)] e2e_users_get [of u "js_codes p"] h basic_parsed [OF that(4), of p] by auto
  have "\<exists>c p. parse_basic_auth_header (string_header (req_header ?t HdrAuthorization)) = Some c
      \<and> jm_get (coded e2e_users) (cred_username c) = Some p \<and> safe_equal ?sha (cred_password c) p"
    using assms(2) ok [of "''admin''" "''s3cret''"] ok [of "''svc''" "''svcpass''"]
    by (simp add: e2e_users_def e2e_secrets_def) blast
  then show ?thesis
    unfolding admits_def by (simp add: basic_guard_sent fresh_unsent)
qed

lemma orders_admitted:
  assumes "e2e_ready su app" and "echo_network su app px" and "cl_path q = ''/api/orders'' @ ''/'' @ rest"
    and "rest \<noteq> ''slow''"
    and "map_of (cl_headers q) ''authorization'' \<in> {Some (basic ''admin'' ''s3cret''), Some (basic ''svc'' ''svcpass'')}"
  shows "hr_status (ask_gateway su app px q) = 200
    \<and> (\<exists>e. hr_echo (ask_gateway su app px q) = Some e \<and> ec_service e = ''orders''
        \<and> e2e_header ''authorization'' e = Some (basic ''gw-orders'' ''orders-secret''))"
proof -
  obtain m where m: "m \<in> set (app_mounts app)" "mount_prefix m = ''/api/orders''" "mount_hooks m = []"
    "mount_upstream m = service_url ''orders''"
    and w: "mount_rewriter m = create_header_rewriter orders_gateway (Some (basic ''gw-orders'' ''orders-secret'')) (app_trust_proxy app)"
    and g: "mount_guard m = Some (create_basic_auth_strategy (pf_sha256 (su_platform su)) (coded e2e_users))"
    by (rule orders_mount [OF assms(1)])
  let ?t = "ex_request (traced (su_world su q) (su_arrive su q))"
  have ad: "admits guard (w_auth (su_world su q)) (ex_tokens (su_arrive su q)) ?t"
    if "mount_guard m = Some guard" for guard
    using that g orders_guard_admits [OF assms(1,5)] by simp
  have path: "cl_path q = mount_prefix m @ ''/'' @ rest" by (simp add: assms(3) m(2))
  have probe: "cl_path q \<notin> probe_paths" by (simp add: assms(3) probe_paths_def)
  have name: "''orders'' \<in> {''users'', ''orders'', ''public''}" by simp
  obtain r where r: "hr_status (ask_gateway su app px q) = 200"
    "hr_echo (ask_gateway su app px q) = Some (snd (start_echo ''orders'' r))"
    and hs: "\<And>n. n \<in> set sent_names \<Longrightarrow> map_of (ur_headers r) n = map_option hval_text
        (mount_rewriter m ?t (su_base su (req_headers ?t)) n)"
    using ask_echoed [OF assms(1,2) m(1,3,4) name path probe assms(4) ad] by blast
  have "e2e_header ''authorization'' (snd (start_echo ''orders'' r)) = Some (basic ''gw-orders'' ''orders-secret'')"
    using hs [of "''authorization''"] sent_values(2) [OF assms(1) w, of ?t]
    by (simp add: e2e_header_def start_echo_def sent_names_def basic_set)
  with r show ?thesis by (simp add: start_echo_def)
qed

lemma orders_pass:
  assumes "e2e_ready su app" and "echo_network su app px" and "list_all check_ok results"
  shows "list_all check_ok (fst (orders_checks (ask_gateway su app px) n results))"
proof -
  have refused: "hr_status (ask_gateway su app px (fst (e2e_req ''/api/orders/list'' opts k))) = 401
      \<and> header_of (hr_headers (ask_gateway su app px (fst (e2e_req ''/api/orders/list'' opts k)))) HdrWwwAuthenticate
          = Some (HStr basic_challenge)"
    if "map_of (op_headers opts) ''authorization''
      \<in> {None, Some (basic ''admin'' ''wrong''), Some (basic ''ghost'' ''s3cret'')}" for opts k
    by (rule orders_refused [OF assms(1), where rest = "''list''"]) (use that in \<open>simp_all add: e2e_req_fields\<close>)
  have admitted: "hr_status (ask_gateway su app px (fst (e2e_req ''/api/orders/list'' opts k))) = 200
      \<and> (\<exists>e. hr_echo (ask_gateway su app px (fst (e2e_req ''/api/orders/list'' opts k))) = Some e
          \<and> ec_service e = ''orders'' \<and> e2e_header ''authorization'' e = Some (basic ''gw-orders'' ''orders-secret''))"
    if "map_of (op_headers opts) ''authorization'' \<in> {Some (basic ''admin'' ''s3cret''), Some (basic ''svc'' ''svcpass'')}"
    for opts k
    by (rule orders_admitted [OF assms(1,2), where rest = "''list''"]) (use that in \<open>simp_all add: e2e_req_fields\<close>)
  have challenge: "sublist ''Basic'' (header_text (Some (HStr basic_challenge)))"
  proof -
    have "basic_challenge = [] @ ''Basic'' @ '' realm=\"gateway\"''" by (simp add: basic_challenge_def)
    then show ?thesis unfolding header_text_def option.case hval_text.simps by (metis sublist_appendI)
  qed
  have refuses: "hr_status (ask_gateway su app px (fst (e2e_req ''/api/orders/list'' plain k))) = 401"
    "header_of (hr_headers (ask_gateway su app px (fst (e2e_req ''/api/orders/list'' plain k)))) HdrWwwAuthenticate
       = Some (HStr basic_challenge)"
    "hr_status (ask_gateway su app px (fst (e2e_req ''/api/orders/list''
       (with_headers [(''authorization'', basic ''admin'' ''wrong'')]) k))) = 401"
    "hr_status (ask_gateway su app px (fst (e2e_req ''/api/orders/list''
       (with_headers [(''authorization'', basic ''ghost'' ''s3cret'')]) k))) = 401" for k
    using refused [of plain] refused [of "with_headers [(''authorization'', basic ''admin'' ''wrong'')]"]
      refused [of "with_headers [(''authorization'', basic ''ghost'' ''s3cret'')]"]
    by (simp_all add: with_headers_def plain_def)
  have admits: "hr_status (ask_gateway su app px (fst (e2e_req ''/api/orders/list''
       (with_headers [(''authorization'', basic ''svc'' ''svcpass'')]) k))) = 200"
    "hr_status (ask_gateway su app px (fst (e2e_req ''/api/orders/list''
       (with_headers [(''authorization'', basic ''admin'' ''s3cret'')]) k))) = 200"
    "echoed (\<lambda>b. ec_service b = ''orders'') (ask_gateway su app px (fst (e2e_req ''/api/orders/list''
       (with_headers [(''authorization'', basic ''admin'' ''s3cret'')]) k)))"
    "echoed (\<lambda>b. e2e_header ''authorization'' b = Some (basic ''gw-orders'' ''orders-secret''))
       (ask_gateway su app px (fst (e2e_req ''/api/orders/list''
         (with_headers [(''authorization'', basic ''admin'' ''s3cret'')]) k)))" for k
    using admitted [of "with_headers [(''authorization'', basic ''admin'' ''s3cret'')]" k]
      admitted [of "with_headers [(''authorization'', basic ''svc'' ''svcpass'')]" k]
    by (auto simp: op_with_headers echoed_def simp del: js_codes_simps)
  show ?thesis
    using assms(3)
    by (simp add: orders_checks_def split_beta Let_def record_check_def refuses admits challenge)
qed

subsection \<open>The public service\<close>

lemma public_mount:
  assumes "e2e_ready su app"
  obtains m where "m \<in> set (app_mounts app)" and "mount_prefix m = ''/api/public''" and "mount_hooks m = []"
    and "mount_upstream m = service_url ''public''"
    and "mount_rewriter m = create_header_rewriter public_gateway None (app_trust_proxy app)"
    and "mount_guard m = None"
proof -
  have p: "public_gateway \<in> set service_gateways" by (simp add: service_gateways_def)
  have f: "service_prefix public_gateway = ''/api/public''"
    "upstream_credentials public_gateway (typed_config e2e_settings) = None"
    by (simp_all add: public_gateway_def base_gateway_def)
  show thesis by (rule e2e_mount [OF assms p], rule that) (simp_all add: f e2e_config_values)
qed

lemma public_admitted:
  assumes "e2e_ready su app" and "echo_network su app px" and "cl_path q = ''/api/public'' @ ''/'' @ rest"
    and "rest \<noteq> ''slow''"
  shows "hr_status (ask_gateway su app px q) = 200
    \<and> (\<exists>e. hr_echo (ask_gateway su app px q) = Some e \<and> ec_service e = ''public'' \<and> ec_url e = ''/'' @ rest
        \<and> ec_method e = cl_method q \<and> ec_body e = cl_body q
        \<and> e2e_header ''authorization'' e = map_of (cl_headers q) ''authorization'')"
proof -
  obtain m where m: "m \<in> set (app_mounts app)" "mount_prefix m = ''/api/public''" "mount_hooks m = []"
    "mount_upstream m = service_url ''public''"
    and w: "mount_rewriter m = create_header_rewriter public_gateway None (app_trust_proxy app)"
    and g: "mount_guard m = None"
    by (rule public_mount [OF assms(1)])
  let ?t = "ex_request (traced (su_world su q) (su_arrive su q))"
  have path: "cl_path q = mount_prefix m @ ''/'' @ rest" by (simp add: assms(3) m(2))
  have probe: "cl_path q \<notin> probe_paths" by (simp add: assms(3) probe_paths_def)
  have name: "''public'' \<in> {''users'', ''orders'', ''public''}" by simp
  have ad: "admits guard (w_auth (su_world su q)) (ex_tokens (su_arrive su q)) ?t"
    if "mount_guard m = Some guard" for guard
    using that g by simp
  obtain r where r: "hr_status (ask_gateway su app px q) = 200"
    "hr_echo (ask_gateway su app px q) = Some (snd (start_echo ''public'' r))" "ur_url r = ''/'' @ rest"
    "ur_method r = cl_method q" "ur_body r = cl_body q"
    and hs: "\<And>n. n \<in> set sent_names \<Longrightarrow> map_of (ur_headers r) n = map_option hval_text
        (mount_rewriter m ?t (su_base su (req_headers ?t)) n)"
    using ask_echoed [OF assms(1,2) m(1,3,4) name path probe assms(4) ad] by blast
  have "e2e_header ''authorization'' (snd (start_echo ''public'' r)) = map_of (cl_headers q) ''authorization''"
    using hs [of "''authorization''"] sent_values(2) [OF assms(1) w, of ?t]
      traced_read [OF assms(1), of "''authorization''" "su_world su q" q]
    by (simp add: e2e_header_def start_echo_def sent_names_def option.map_comp comp_def option.map_ident)
  with r show ?thesis by (simp add: start_echo_def)
qed

lemma public_pass:
  assumes "e2e_ready su app" and "echo_network su app px" and "list_all check_ok results"
  shows "list_all check_ok (fst (public_checks (ask_gateway su app px) n results))"
proof -
  have one: "hr_status (ask_gateway su app px (fst (e2e_req ''/api/public/status?page=2&sort=asc'' plain k))) = 200"
    "echoed (\<lambda>b. ec_service b = ''public'')
       (ask_gateway su app px (fst (e2e_req ''/api/public/status?page=2&sort=asc'' plain k)))"
    "echoed (\<lambda>b. ec_url b = ''/status?page=2&sort=asc'')
       (ask_gateway su app px (fst (e2e_req ''/api/public/status?page=2&sort=asc'' plain k)))" for k
    using public_admitted [OF assms(1,2), of "fst (e2e_req ''/api/public/status?page=2&sort=asc'' plain k)"
        "''status?page=2&sort=asc''"]
    by (auto simp: e2e_req_fields echoed_def)
  have two: "echoed (\<lambda>b. e2e_header ''authorization'' b = Some ''Bearer client-token'')
      (ask_gateway su app px (fst (e2e_req ''/api/public/token-check''
        (with_headers [(''authorization'', ''Bearer client-token'')]) k)))" for k
    using public_admitted [OF assms(1,2), of "fst (e2e_req ''/api/public/token-check''
        (with_headers [(''authorization'', ''Bearer client-token'')]) k)" "''token-check''"]
    by (auto simp: e2e_req_fields op_with_headers echoed_def)
  have hello: "hello_text hello_body = Some (js_codes ''gateway'')" by code_simp
  have three: "hr_status (ask_gateway su app px (fst (e2e_req ''/api/public/echo'' (posting hello_body) k))) = 200
    \<and> echoed (\<lambda>b. ec_method b = ''POST'' \<and> hello_text (ec_body b) = Some (js_codes ''gateway''))
       (ask_gateway su app px (fst (e2e_req ''/api/public/echo'' (posting hello_body) k)))" for k
    using public_admitted [OF assms(1,2), of "fst (e2e_req ''/api/public/echo'' (posting hello_body) k)" "''echo''"]
    by (auto simp: e2e_req_fields posting_def echoed_def hello simp del: js_codes_simps)
  show ?thesis
    using assms(3)
    by (simp add: public_checks_def split_beta Let_def record_check_def one two three del: js_codes_simps)
qed

end
