(* ===== verification/E2eAnswers.thy ===== *)
theory E2eAnswers
  imports E2eServices
begin

section \<open>What the gateway itself answers the end-to-end script\<close>

text \<open>
  The remaining answers the checks of theory \<open>E2eScript\<close> read: of the gateway in front of a slow or stopped
  upstream, of its own endpoints and its not-found handler, and what its log text holds; the checks on
  them then hold.
\<close>

subsection \<open>The failing upstreams\<close>

lemma ask_failed:
  assumes "e2e_ready su app" and "m \<in> set (app_mounts app)" and "mount_hooks m = []"
    and "cl_path q = mount_prefix m @ ''/'' @ rest" and "cl_path q \<notin> probe_paths"
    and "\<And>guard. mount_guard m = Some guard \<Longrightarrow> admits guard (w_auth (su_world su q)) (ex_tokens (su_arrive su q))
        (ex_request (traced (su_world su q) (su_arrive su q)))"
    and "\<And>hs x. sent (ex_reply x) = None \<Longrightarrow> req_url (ex_request x) = cl_path q
      \<Longrightarrow> \<exists>err. px (mount_upstream m) hs x = Inl err \<and> resolve_status err = status"
    and "status \<in> {502, 504}"
  shows "hr_status (ask_gateway su app px q) = status
    \<and> hr_error (ask_gateway su app px q) = Some (error_body_of (req_id (ex_request (su_arrive su q)))
        (if status = 504 then ''Upstream timeout'' else ''Upstream unavailable''))"
proof -
  let ?t = "ex_request (traced (su_world su q) (su_arrive su q))"
  let ?hs = "mount_rewriter m ?t (su_base su (req_headers ?t))"
  obtain x where x: "ask_gateway su app px q = respond su (ex_reply (proxied px (mount_upstream m) ?hs x))"
    "sent (ex_reply x) = None" "req_url (ex_request x) = cl_path q"
    "req_id (ex_request x) = req_id (ex_request (su_arrive su q))"
    using ask_reaches [OF assms(1-6)] by blast
  obtain err where err: "px (mount_upstream m) ?hs x = Inl err" "resolve_status err = status"
    using assms(7) [OF x(2,3)] by blast
  obtain req' reply' where h: "handle_error err (ex_request x) (ex_reply x) = (req', reply')"
    by (cases "handle_error err (ex_request x) (ex_reply x)")
  from handle_error_reply [OF x(2) h] have "rejected_with status (client_message status err) (ex_request x) reply'"
    by (simp only: err(2))
  moreover have "client_message status err = (if status = 504 then ''Upstream timeout'' else ''Upstream unavailable'')"
    using assms(8) by (auto simp only: client_message_def) simp_all
  ultimately show ?thesis
    by (simp add: x(1,4) proxied_def err(1) error_reply_def h respond_def rejected_with_def del: if_split)
qed

text \<open>However the proxy library hands an error of the upstream over, it is answered with the same status.\<close>

lemma slow_status: "slow_error err \<Longrightarrow> resolve_status err = 504"
proof -
  have "contains_ci ''timeout'' ''Headers Timeout Error''" by code_simp
  moreover assume "slow_error err"
  ultimately show "resolve_status err = 504"
    unfolding slow_error_def
    by (elim disjE conjE) (simp_all add: resolve_status_def upstream_timeout_codes_def upstream_connection_codes_def
        reply_from_wrapper_code_def)
qed

lemma refused_status: "refused_error ''orders'' err \<Longrightarrow> resolve_status err = 502"
proof -
  have "char_of (49::nat) = CHR ''1''" "char_of (56::nat) = CHR ''8''" "char_of (51::nat) = CHR ''3''"
    "char_of (48::nat) = CHR ''0''" "char_of (50::nat) = CHR ''2''"
    by code_simp+
  then have "refused_text ''orders'' = ''connect ECONNREFUSED 127.0.0.1:18302''"
    by (simp add: refused_text_def service_port_def show_nat.simps)
  moreover have "\<not> contains_ci ''timeout'' ''connect ECONNREFUSED 127.0.0.1:18302''" by code_simp
  moreover assume "refused_error ''orders'' err"
  ultimately show "resolve_status err = 502"
    unfolding refused_error_def
    by (elim disjE conjE) (simp_all add: resolve_status_def upstream_timeout_codes_def upstream_connection_codes_def
        reply_from_wrapper_code_def)
qed

lemma slow_answer:
  assumes "e2e_ready su app" and "echo_network su app px" and "cl_path q = ''/api/public'' @ ''/'' @ ''slow''"
  shows "hr_status (ask_gateway su app px q) = 504
    \<and> map_option eb_error (hr_error (ask_gateway su app px q)) = Some ''Upstream timeout''"
proof -
  obtain m where m: "m \<in> set (app_mounts app)" "mount_prefix m = ''/api/public''" "mount_hooks m = []"
    "mount_upstream m = service_url ''public''"
    and g: "mount_guard m = None"
    by (rule public_mount [OF assms(1)])
  have path: "cl_path q = mount_prefix m @ ''/'' @ ''slow''" by (simp add: assms(3) m(2))
  have probe: "cl_path q \<notin> probe_paths" by (simp add: assms(3) probe_paths_def)
  have fails: "\<exists>err. px (mount_upstream m) hs x = Inl err \<and> resolve_status err = 504"
    if "sent (ex_reply x) = None" "req_url (ex_request x) = cl_path q" for hs x
  proof -
    from that(1) assms(2) have "echoes su app ''public'' hs x (px (service_url ''public'') hs x)"
      unfolding echo_network_def by blast
    then obtain r where r: "passed_on app hs x r" "case start_echo ''public'' r of (delay, e) \<Rightarrow>
        if UPSTREAM_TIMEOUT_MS (app_config app) < int delay
        then (\<exists>err. px (service_url ''public'') hs x = Inl err \<and> slow_error err)
        else (\<exists>reply s. px (service_url ''public'') hs x = Inr reply \<and> su_decode su s = Some e
          \<and> relays \<lparr>ua_status = 200, ua_headers = [''content-type'' \<mapsto> HStr ''application/json''], ua_body = s\<rparr>
              (ex_reply x) reply)"
      unfolding echoes_def by (elim exE conjE) (rule that)
    have "ur_url r = ''/'' @ ''slow''"
      using passed_url [OF r(1) m(1)] that(2) path by (simp only:)
    with r(2) have "\<exists>err. px (mount_upstream m) hs x = Inl err \<and> slow_error err"
      by (simp add: start_echo_def m(4) e2e_parts(2) [OF assms(1)] e2e_config_values)
    then show ?thesis using slow_status by blast
  qed
  have ad: "admits guard (w_auth (su_world su q)) (ex_tokens (su_arrive su q))
      (ex_request (traced (su_world su q) (su_arrive su q)))" if "mount_guard m = Some guard" for guard
    using that g by simp
  from ask_failed [where px = px and status = 504, OF assms(1) m(1,3) path probe ad fails]
  have "hr_status (ask_gateway su app px q) = 504 \<and> hr_error (ask_gateway su app px q)
      = Some (error_body_of (req_id (ex_request (su_arrive su q)))
          (if (504 :: nat) = 504 then ''Upstream timeout'' else ''Upstream unavailable''))"
    by blast
  then show ?thesis by (simp add: error_body_of_def)
qed

lemma dead_answer:
  assumes "e2e_ready su app" and "stopped ''orders'' px" and "cl_path q = ''/api/orders'' @ ''/'' @ rest"
    and "map_of (cl_headers q) ''authorization'' \<in> {Some (basic ''admin'' ''s3cret''), Some (basic ''svc'' ''svcpass'')}"
  shows "hr_status (ask_gateway su app px q) = 502
    \<and> hr_error (ask_gateway su app px q)
        = Some (error_body_of (req_id (ex_request (su_arrive su q))) ''Upstream unavailable'')"
proof -
  obtain m where m: "m \<in> set (app_mounts app)" "mount_prefix m = ''/api/orders''" "mount_hooks m = []"
    "mount_upstream m = service_url ''orders''"
    and g: "mount_guard m = Some (create_basic_auth_strategy (pf_sha256 (su_platform su)) (coded e2e_users))"
    by (rule orders_mount [OF assms(1)])
  have path: "cl_path q = mount_prefix m @ ''/'' @ rest" by (simp add: assms(3) m(2))
  have probe: "cl_path q \<notin> probe_paths" by (simp add: assms(3) probe_paths_def)
  have fails: "\<exists>err. px (mount_upstream m) hs x = Inl err \<and> resolve_status err = 502" for hs x
    using assms(2) refused_status unfolding stopped_def m(4) by blast
  have ad: "admits guard (w_auth (su_world su q)) (ex_tokens (su_arrive su q))
      (ex_request (traced (su_world su q) (su_arrive su q)))" if "mount_guard m = Some guard" for guard
    using that g orders_guard_admits [OF assms(1,4)] by simp
  show ?thesis
    using ask_failed [where px = px and status = 502, OF assms(1) m(1,3) path probe ad fails] by simp
qed

lemma no_leak:
  assumes "CHR ''E'' \<notin> set s" and "CHR ''.'' \<notin> set s"
  shows "\<not> leaks s"
  using assms by (auto simp: leaks_def dest!: set_mono_sublist)

lemma fresh_id:
  assumes "e2e_ready su app" and "map_of (cl_headers q) ''x-request-id'' = None"
  shows "req_id (ex_request (su_arrive su q)) = su_uuid su q" and "uuid_text (su_uuid su q)"
proof -
  have a: "arrives_as q (su_uuid su q) (su_arrive su q)" using assms(1) by (simp add: e2e_ready_def)
  have "''x-request-id'' \<in> set read_names" by (simp add: read_names_def)
  with a have "req_headers (ex_request (su_arrive su q)) ''x-request-id'' = None"
    using assms(2) unfolding arrives_as_def by simp
  then have "header_of (req_headers (ex_request (su_arrive su q))) HdrRequestId = None"
    by (simp add: header_of_def header_name.simps)
  with a show "req_id (ex_request (su_arrive su q)) = su_uuid su q"
    by (simp add: arrives_as_def gen_req_id_def)
  show "uuid_text (su_uuid su q)" using a by (simp add: arrives_as_def)
qed

lemma uuid_no_leak: "uuid_text u \<Longrightarrow> \<not> leaks u"
  by (rule no_leak) (auto simp: uuid_text_def list_all_iff is_hex_lower_def is_digit_def)

lemma slow_pass:
  assumes "e2e_ready su app" and "echo_network su app px" and "list_all check_ok results"
  shows "list_all check_ok (fst (slow_checks (ask_gateway su app px) n results))"
proof -
  have one: "hr_status (ask_gateway su app px (fst (e2e_req ''/api/public/slow'' plain k))) = 504"
    "\<exists>b. hr_error (ask_gateway su app px (fst (e2e_req ''/api/public/slow'' plain k))) = Some b
       \<and> eb_error b = ''Upstream timeout''" for k
    using slow_answer [OF assms(1,2), of "fst (e2e_req ''/api/public/slow'' plain k)"]
    by (simp_all add: e2e_req_fields)
  show ?thesis
    using assms(3) by (simp add: slow_checks_def split_beta Let_def record_check_def one)
qed

lemma dead_pass:
  assumes "e2e_ready su app" and "stopped ''orders'' px" and "list_all check_ok results"
  shows "list_all check_ok (fst (dead_checks (ask_gateway su app px) n results))"
proof -
  let ?q = "\<lambda>k. fst (e2e_req ''/api/orders/list'' (with_headers [(''authorization'', basic ''admin'' ''s3cret'')]) k)"
  have f: "cl_path (?q k) = ''/api/orders'' @ ''/'' @ ''list''"
    "map_of (cl_headers (?q k)) ''authorization'' \<in> {Some (basic ''admin'' ''s3cret''), Some (basic ''svc'' ''svcpass'')}"
    "map_of (cl_headers (?q k)) ''x-request-id'' = None" for k
    by (simp_all add: e2e_req_fields op_with_headers)
  have "\<not> leaks ''Upstream unavailable''" by (rule no_leak) simp_all
  then have two: "hr_status (ask_gateway su app px (?q k)) = 502"
    "hr_error (ask_gateway su app px (?q k)) = Some (error_body_of (su_uuid su (?q k)) ''Upstream unavailable'')"
    "\<not> leaks ''Upstream unavailable''" "\<not> leaks (su_uuid su (?q k))" for k
    using dead_answer [OF assms(1,2) f(1,2) [of k]] fresh_id [OF assms(1) f(3) [of k]] uuid_no_leak by simp_all
  show ?thesis
    using assms(3) by (simp add: dead_checks_def split_beta Let_def record_check_def two error_body_of_def)
qed

subsection \<open>The gateway's own endpoints\<close>

lemma probe_answer:
  assumes "e2e_ready su app" and "cl_path q \<in> probe_paths"
  defines "rid \<equiv> req_id (ex_request (su_arrive su q))"
    and "cid \<equiv> context_correlation_id (ex_request (su_arrive su q))"
  shows "hr_status (ask_gateway su app px q) = 200"
    and "header_of (hr_headers (ask_gateway su app px q)) HdrRequestId = Some (HStr rid)"
    and "header_of (hr_headers (ask_gateway su app px q)) HdrCorrelationId = Some (HStr cid)"
    and "cl_path q = ''/healthz'' \<Longrightarrow> hr_state (ask_gateway su app px q) = Some ''ok''"
    and "n \<notin> {''x-request-id'', ''x-correlation-id''}
      \<Longrightarrow> hr_headers (ask_gateway su app px q) n = reply_headers (ex_reply (su_arrive su q)) n"
proof -
  let ?w = "su_world su q" and ?ex = "su_arrive su q"
  let ?r = "snd (request_context_hook (w_random ?w) (ex_request ?ex) (ex_reply ?ex))"
  define handler where "handler = (if cl_path q = ''/healthz'' then healthz else readyz (su_state su))"
  have r: "lifecycle (su_run su)" "limiter_law (w_limit ?w)" "sent (ex_reply ?ex) = None" "status_code (ex_reply ?ex) = 200"
    "req_route (ex_request ?ex) = probe_options (cl_path q)"
    using assms(1,2) by (simp_all add: e2e_ready_def world_ready_def arrives_as_def)
  have "ask_gateway su app px q = respond su (handle_own_route (su_run su) ?w app (\<lambda>_. handler) ?ex)"
    using assms(2) by (auto simp: ask_gateway_def probe_paths_def handler_def)
  then have a: "ask_gateway su app px q = respond su (handler ?r)"
    by (simp add: own_route_exempt [OF r(1,2,5,3)])
  have h: "status_code (handler x) = status_code x" "reply_headers (handler x) = reply_headers x" for x
    using assms(1) by (simp_all add: handler_def healthz_def readyz_def e2e_ready_def)
  have "status_code ?r = 200"
    using r(4) by (simp add: request_context_hook_def Let_def split: prod.split)
  then show "hr_status (ask_gateway su app px q) = 200" by (simp add: a respond_def h)
  show "header_of (hr_headers (ask_gateway su app px q)) HdrRequestId = Some (HStr rid)"
    "header_of (hr_headers (ask_gateway su app px q)) HdrCorrelationId = Some (HStr cid)"
    by (simp_all add: a respond_def h header_of_def header_name.simps hook_unfold(5) rid_def cid_def)
  show "cl_path q = ''/healthz'' \<Longrightarrow> hr_state (ask_gateway su app px q) = Some ''ok''"
    by (simp add: a respond_def handler_def healthz_def hook_unfold(6) r(3))
  show "n \<notin> {''x-request-id'', ''x-correlation-id''}
      \<Longrightarrow> hr_headers (ask_gateway su app px q) n = reply_headers (ex_reply ?ex) n"
    by (simp add: a respond_def h hook_unfold(5))
qed

lemma e2e_prefixes:
  assumes "e2e_ready su app" and "m \<in> set (app_mounts app)"
  shows "mount_prefix m \<in> {''/api/users'', ''/api/orders'', ''/api/public''}"
proof -
  have "list_all2 (\<lambda>m service. mount_prefix m = service_prefix service) (app_mounts app) service_gateways"
    using mount_services_list [OF build_app_parts(12) [OF e2e_parts(1) [OF assms(1)]]]
    by (subst list.rel_flip [symmetric]) (auto simp: to_plugin_prefix elim: list.rel_mono_strong)
  from list_all2_member [OF this assms(2)] show ?thesis
    by (auto simp: service_gateways_def users_gateway_def orders_gateway_def public_gateway_def base_gateway_def)
qed

lemma unmatched_answer:
  assumes "e2e_ready su app" and "cl_path q = ''/does/not/exist''"
  shows "hr_status (ask_gateway su app px q) = 404"
    and "hr_error (ask_gateway su app px q) = Some (error_body_of (req_id (ex_request (su_arrive su q))) ''Not found'')"
proof -
  let ?w = "su_world su q" and ?ex = "su_arrive su q"
  have probe: "cl_path q \<notin> probe_paths" by (simp add: assms(2) probe_paths_def)
  have r: "lifecycle (su_run su)" "service_request ?ex" "\<not> gated ?w app (req_ip (ex_request ?ex))"
    using assms(1) probe e2e_parts(3) [OF assms(1)]
    by (auto simp: e2e_ready_def world_ready_def arrives_as_def gated_def)
  have "\<not> prefix (mount_prefix m) (cl_path q)" if "m \<in> set (app_mounts app)" for m
    using e2e_prefixes [OF assms(1) that] by (auto simp: assms(2))
  then have route: "su_route su q = None" using assms(1) unfolding e2e_ready_def by blast
  have "handle_unmatched (su_run su) ?w app ?ex
      = handle_not_found (ex_request (traced ?w ?ex)) (ex_reply (traced ?w ?ex))"
    by (simp add: handle_unmatched_def run_through [OF r(1) entry_survives [OF r(2,3)]] run_Cons [OF r(1)]
        run_Nil [OF r(1)])
  then have "ask_gateway su app px q
      = respond su (handle_not_found (ex_request (traced ?w ?ex)) (ex_reply (traced ?w ?ex)))"
    by (simp add: ask_routed [OF probe] route)
  then show "hr_status (ask_gateway su app px q) = 404"
    "hr_error (ask_gateway su app px q) = Some (error_body_of (req_id (ex_request (su_arrive su q))) ''Not found'')"
    using r(2) by (simp_all add: respond_def handle_not_found_def traced_def hook_unfold(1,6) service_request_def)
qed

lemma honored_ids:
  assumes "e2e_ready su app"
    and "map_of (cl_headers q) ''x-request-id'' = Some ''e2e-req-1''"
    and "map_of (cl_headers q) ''x-correlation-id'' = Some ''e2e-corr-1''"
  shows "req_id (ex_request (su_arrive su q)) = ''e2e-req-1''"
    and "context_correlation_id (ex_request (su_arrive su q)) = ''e2e-corr-1''"
proof -
  have a: "arrives_as q (su_uuid su q) (su_arrive su q)" using assms(1) by (simp add: e2e_ready_def)
  have "{''x-request-id'', ''x-correlation-id''} \<subseteq> set read_names" by (simp add: read_names_def)
  with a have "header_of (req_headers (ex_request (su_arrive su q))) HdrRequestId = Some (HStr ''e2e-req-1'')"
    "header_of (req_headers (ex_request (su_arrive su q))) HdrCorrelationId = Some (HStr ''e2e-corr-1'')"
    using assms(2,3) unfolding arrives_as_def by (simp_all add: header_of_def header_name.simps)
  moreover have "safe_header_id ''e2e-req-1''" "safe_header_id ''e2e-corr-1''" by code_simp+
  ultimately show "req_id (ex_request (su_arrive su q)) = ''e2e-req-1''"
    "context_correlation_id (ex_request (su_arrive su q)) = ''e2e-corr-1''"
    using a by (simp_all add: arrives_as_def gen_req_id_def context_correlation_id_def req_header_def)
qed

lemma ids_set:
  assumes "e2e_ready su app"
  shows "req_id (ex_request (su_arrive su q)) \<noteq> []" and "context_correlation_id (ex_request (su_arrive su q)) \<noteq> []"
proof -
  show i: "req_id (ex_request (su_arrive su q)) \<noteq> []" by (rule traced_ids(2) [OF assms])
  show "context_correlation_id (ex_request (su_arrive su q)) \<noteq> []"
    using i by (auto simp: context_correlation_id_def safe_header_id_def split: option.split)
qed

lemma e2e_cors:
  assumes "e2e_ready su app"
  shows "app_cors app = \<lparr>cors_origin = OriginList [''https://app.example.com''], cors_credentials = True\<rparr>"
proof -
  have "CORS_ORIGINS (typed_config e2e_settings) = ''https://app.example.com''"
    "CORS_ALLOW_CREDENTIALS (typed_config e2e_settings)"
    unfolding typed_config_def gateway_config.select_convs by (simp_all add: e2e_settings_def)
  moreover have "map js_trim (split_on (CHR '','') ''https://app.example.com'') = [''https://app.example.com'']" by code_simp
  ultimately have "security_plugin (typed_config e2e_settings)
      = Inr \<lparr>cors_origin = OriginList [''https://app.example.com''], cors_credentials = True\<rparr>"
    by (simp add: security_plugin_def cors_origins_def Let_def)
  with build_app_parts(4) [OF e2e_parts(1) [OF assms]] show ?thesis by (simp add: e2e_parts(2) [OF assms])
qed

lemma arrives_granted:
  "e2e_secured su app \<Longrightarrow> cl_method q \<noteq> ''OPTIONS'' \<Longrightarrow> granted (app_cors app) q (su_arrive su q)"
  unfolding e2e_secured_def by presburger

lemma get_methods: "cl_method (fst (e2e_req path plain k)) = ''GET''" "cl_method (fst (e2e_req path (with_headers hs) k)) = ''GET''"
  by (simp_all add: e2e_req_fields plain_def with_headers_def)

lemma preflight_answer:
  assumes "e2e_ready su app" and "e2e_secured su app" and "cl_method q = ''OPTIONS''"
    and "map_of (cl_headers q) ''origin'' \<noteq> None" and "map_of (cl_headers q) ''access-control-request-method'' \<noteq> None"
  shows "hr_status (ask_preflight_of su app q) = 204"
proof -
  have raw: "sent (ex_reply (su_raw su q)) = None" "req_method (ex_request (su_raw su q)) = ''OPTIONS''"
    and law: "security_law (su_secure su)" and run: "lifecycle (su_run su)"
    and status: "\<And>x. su_secure su (app_cors app) (su_raw su q) = Inr x \<Longrightarrow> status_code (ex_reply x) = 204"
    using assms by (auto simp: e2e_secured_def e2e_ready_def)
  obtain x where "su_secure su (app_cors app) (su_raw su q) = Inr x"
    "\<And>base sha256 w m. secured_request (su_run su) base sha256 (su_secure su) w app m (su_raw su q) = (x, Answered (ex_reply x))"
    "\<And>w handler. secured_route (su_run su) (su_secure su) w app handler (su_raw su q) = ex_reply x"
    by (rule secured_preflight [OF run law raw, of app]) blast
  with status show ?thesis by (simp add: ask_preflight_of_def respond_def split: option.split)
qed

lemma cors_pass:
  assumes "e2e_ready su app" and "e2e_secured su app" and "list_all check_ok results"
  shows "list_all check_ok (fst (cors_checks (ask_gateway su app px) (ask_preflight_of su app) n results))"
proof -
  let ?good = "\<lambda>k. fst (e2e_req ''/healthz'' (with_headers [(''origin'', ''https://app.example.com'')]) k)"
  let ?evil = "\<lambda>k. fst (e2e_req ''/healthz'' (with_headers [(''origin'', ''https://evil.example.com'')]) k)"
  have probe: "cl_path (?good k) \<in> probe_paths" "cl_path (?evil k) \<in> probe_paths" for k
    by (simp_all add: e2e_req_fields probe_paths_def)
  have origin: "map_of (cl_headers (?good k)) ''origin'' = Some ''https://app.example.com''"
    "map_of (cl_headers (?evil k)) ''origin'' = Some ''https://evil.example.com''" for k
    by (simp_all add: e2e_req_fields op_with_headers)
  have get: "cl_method (?good k) \<noteq> ''OPTIONS''" "cl_method (?evil k) \<noteq> ''OPTIONS''" for k
    by (simp_all add: get_methods)
  have good: "hr_headers (ask_gateway su app px (?good k)) ''access-control-allow-origin'' = Some (HStr ''https://app.example.com'')
    \<and> hr_headers (ask_gateway su app px (?good k)) ''access-control-allow-credentials'' = Some (HStr ''true'')" for k
    using arrives_granted [OF assms(2) get(1), of k] origin(1) [of k]
    by (simp add: probe_answer(5) [OF assms(1) probe(1)] granted_def e2e_cors [OF assms(1)] allowed_origin_def)
  have evil: "\<not> header_truthy (hr_headers (ask_gateway su app px (?evil k)) ''access-control-allow-origin'')" for k
    using arrives_granted [OF assms(2) get(2), of k] origin(2) [of k]
    by (simp add: probe_answer(5) [OF assms(1) probe(2)] granted_def e2e_cors [OF assms(1)] allowed_origin_def)
  have pre: "hr_status (ask_preflight_of su app (fst (e2e_req ''/api/public/status'' (preflighting origin) k))) = 204" for origin k
    by (rule preflight_answer [OF assms(1,2)]) (simp_all add: e2e_req_fields preflighting_def)
  show ?thesis
    using assms(3) good evil pre by (simp add: cors_checks_def split_beta Let_def record_check_def)
qed

lemma own_pass:
  assumes "e2e_ready su app" and "e2e_secured su app" and "list_all check_ok results"
  shows "list_all check_ok (fst (own_checks (ask_gateway su app px) n results))"
proof -
  let ?ids = "with_headers [(''x-request-id'', ''e2e-req-1''), (''x-correlation-id'', ''e2e-corr-1'')]"
  have paths: "cl_path (fst (e2e_req ''/healthz'' opts k)) \<in> probe_paths"
    "cl_path (fst (e2e_req ''/readyz'' opts k)) \<in> probe_paths"
    "cl_path (fst (e2e_req ''/healthz'' opts k)) = ''/healthz''" for opts k
    by (simp_all add: e2e_req_fields probe_paths_def)
  have given: "map_of (cl_headers (fst (e2e_req ''/healthz'' ?ids k))) ''x-request-id'' = Some ''e2e-req-1''"
    "map_of (cl_headers (fst (e2e_req ''/healthz'' ?ids k))) ''x-correlation-id'' = Some ''e2e-corr-1''" for k
    by (simp_all add: e2e_req_fields op_with_headers)
  have missing: "cl_path (fst (e2e_req ''/does/not/exist'' plain k)) = ''/does/not/exist''" for k
    by (simp add: e2e_req_fields)
  have nosniff: "hr_headers (ask_gateway su app px (fst (e2e_req ''/healthz'' plain k))) ''x-content-type-options''
      = Some (HStr ''nosniff'')" for k
    using arrives_granted [OF assms(2), of "fst (e2e_req ''/healthz'' plain k)"]
    by (simp add: probe_answer(5) [OF assms(1) paths(1)] granted_def get_methods)
  note healthy = probe_answer(1-4) [OF assms(1) paths(1)] and ready = probe_answer(1) [OF assms(1) paths(2)]
  show ?thesis
    using assms(3)
    by (simp add: own_checks_def split_beta Let_def record_check_def has_header_def nosniff healthy paths(3) ready ids_set [OF assms(1)]
        honored_ids [OF assms(1) given] unmatched_answer [OF assms(1) missing] error_body_of_def)
qed

subsection \<open>The log text\<close>

lemma e2e_level:
  assumes "e2e_ready su app"
  shows "lc_level (fo_logger (app_factory app)) = ''info''"
proof -
  have "factory_options_of e2e_variables = Inr (app_factory app)"
    using build_app_parts(1) [OF e2e_parts(1) [OF assms]] .
  moreover have "env_or e2e_variables ''LOG_LEVEL'' ''info'' = ''info''"
    by (simp add: env_or_def e2e_variables_def)
  ultimately show ?thesis
    by (auto simp: factory_options_of_def bind_result_Inr_iff build_logger_options_def dest!: sym [of _ "app_factory app"])
qed

lemma trace_id_found:
  assumes "sublist (quoted_field ''traceId'' tid) log" and "length tid = 32" and "list_all is_hex_lower tid"
  shows "has_trace_id log"
proof -
  obtain before after where log: "log = before @ ''\"traceId\":\"'' @ tid @ ''\"'' @ after"
    using assms(1) by (auto simp: sublist_def quoted_field_def)
  let ?s = "''\"traceId\":\"'' @ tid @ ''\"'' @ after"
  have "?s \<in> set (suffixes log)" by (auto simp: log suffix_def)
  moreover have "take 32 (drop 11 ?s) = tid" "drop 43 ?s = ''\"'' @ after"
    using assms(2) by simp_all
  moreover have "prefix ''\"traceId\":\"'' ?s" by simp
  ultimately show ?thesis
    using assms(2,3) unfolding has_trace_id_def list_ex_iff by (intro bexI [of _ ?s] conjI) simp_all
qed

lemma traced_bindings:
  "bindings (req_log (ex_request (traced w ex))) = bindings (req_log (ex_request ex))
     @ [(''correlationId'', context_correlation_id (ex_request ex)),
        (''traceId'', tc_trace_id (fst (next_trace_context (w_random w)
           (string_header (req_header (ex_request ex) HdrTraceparent)))))]"
  by (simp add: traced_def request_context_hook_def log_child_def Let_def split: prod.split)

lemma log_pass:
  assumes "e2e_ready su app" and "e2e_logged su app" and "list_all check_ok results"
  shows "list_all check_ok (fst (log_checks (su_log su) n results))"
proof -
  let ?q = "fst (e2e_req ''/api/public/status'' (with_headers [(''x-correlation-id'', ''log-check-corr'')]) n)"
  let ?t = "ex_request (traced (su_world su ?q) (su_arrive su ?q))"
  let ?tid = "tc_trace_id (fst (next_trace_context (w_random (su_world su ?q))
     (string_header (req_header (ex_request (su_arrive su ?q)) HdrTraceparent))))"
  obtain m where m: "m \<in> set (app_mounts app)" "mount_prefix m = ''/api/public''" "mount_hooks m = []"
    and g: "mount_guard m = None"
    by (rule public_mount [OF assms(1)])
  have path: "cl_path ?q \<notin> probe_paths" "prefix (mount_prefix m @ ''/'') (cl_path ?q)"
    by (simp_all add: e2e_req_fields probe_paths_def m(2))
  have ready: "su_route su ?q = Some m" "good_random (w_random (su_world su ?q))"
    "arrives_as ?q (su_uuid su ?q) (su_arrive su ?q)"
    using assms(1) m(1) path(2) unfolding e2e_ready_def world_ready_def by blast+
  have ad: "admits guard (w_auth (su_world su ?q)) (ex_tokens (su_arrive su ?q)) ?t"
    if "mount_guard m = Some guard" for guard using that g by simp
  obtain x up hs where x: "handle_request (su_run su) (su_base su) (pf_sha256 (su_platform su)) (su_world su ?q) app m
      (su_arrive su ?q) = (x, Forwarded up hs)" "ex_request x = ?t"
    using admitted_forwarded [OF assms(1) m(1,3) ad path(1)] by metis
  from assms(2) e2e_level [OF assms(1)] ready(1) x obtain line where
    line: "pino_line (req_log ?t) line" "sublist line (su_log su ?q)"
    unfolding e2e_logged_def by metis
  have "map_of (cl_headers ?q) ''x-correlation-id'' = Some ''log-check-corr''"
    by (simp add: e2e_req_fields op_with_headers)
  moreover have "''x-correlation-id'' \<in> set read_names" by (simp add: read_names_def)
  ultimately have "header_of (req_headers (ex_request (su_arrive su ?q))) HdrCorrelationId = Some (HStr ''log-check-corr'')"
    using ready(3) unfolding arrives_as_def by (simp add: header_of_def header_name.simps)
  moreover have "safe_header_id ''log-check-corr''" "json_plain ''log-check-corr''" "json_plain ''correlationId''"
    "json_plain ''traceId''"
    by code_simp+
  moreover have tid: "length ?tid = 32" "list_all is_hex_lower ?tid"
    using next_context_valid [OF ready(2)] by (simp_all add: valid_context_def)
  moreover have "json_plain ?tid"
    using tid(2) by (auto simp: json_plain_def list_all_iff is_hex_lower_def is_word_def is_lower_def)
  ultimately have "sublist (quoted_field ''correlationId'' ''log-check-corr'') line" "sublist (quoted_field ''traceId'' ?tid) line"
    using line(1) by (simp_all add: pino_line_def traced_bindings context_correlation_id_def req_header_def)
  then have logged: "sublist (quoted_field ''correlationId'' ''log-check-corr'') (su_log su ?q)"
    "sublist (quoted_field ''traceId'' ?tid) (su_log su ?q)"
    using line(2) sublist_order.order_trans by blast+
  have "sublist ''log-check-corr'' (quoted_field ''correlationId'' ''log-check-corr'')"
    unfolding quoted_field_def append_assoc [symmetric] by (metis append_assoc sublist_appendI)
  with logged(1) have "sublist ''log-check-corr'' (su_log su ?q)" using sublist_order.order_trans by blast
  then show ?thesis
    using assms(3) trace_id_found [OF logged(2) tid]
    by (simp add: log_checks_def split_beta Let_def record_check_def)
qed

end
