(* ===== verification/E2eLimit.thy ===== *)
theory E2eLimit
  imports E2eAnswers
begin

section \<open>The limiter's checks of the end-to-end script\<close>

text \<open>
  The gateway after earlier requests (\<open>met_after\<close> of theory \<open>E2eScript\<close>): within its budget a client finds
  the same gateway, over it the limiter's 429, and a health check is never limited. The script's
  \<open>RATE_LIMIT_MAX\<close> is 10.
\<close>

subsection \<open>The limiter's answer\<close>

definition earlier :: "e2e_setup \<Rightarrow> client_request list \<Rightarrow> string \<Rightarrow> nat" where
  "earlier su past ip = length (filter (\<lambda>p. su_route su p \<noteq> None \<and> req_ip (ex_request (su_arrive su p)) = ip) past)"

lemma earlier_hits: "length (filter (same_window (\<lambda>_ _. 0) ip 0) (hits_of su past)) = earlier su past ip"
proof -
  have "filter (same_window (\<lambda>_ _. 0) ip 0) (hits_of su past)
      = map (\<lambda>q. (0, req_ip (ex_request (su_arrive su q))))
          (filter (\<lambda>p. su_route su p \<noteq> None \<and> req_ip (ex_request (su_arrive su p)) = ip) past)"
    by (induction past) (auto simp: hits_of_def same_window_def)
  then show ?thesis by (simp add: earlier_def)
qed

lemma e2e_limits:
  "rl_max (rate_limit_plugin (typed_config e2e_settings)) = 10"
  "rl_key (rate_limit_plugin (typed_config e2e_settings)) = req_ip"
  "rl_ban (rate_limit_plugin (typed_config e2e_settings)) = None"
proof -
  have "number_of (default_settings ''RATE_LIMIT_BAN'') = 0" by code_simp
  then have "RATE_LIMIT_MAX (typed_config e2e_settings) = 10" "RATE_LIMIT_BAN (typed_config e2e_settings) = 0"
    unfolding typed_config_def gateway_config.select_convs by (simp_all add: e2e_settings_def decimal_int_def)
  then show "rl_max (rate_limit_plugin (typed_config e2e_settings)) = 10"
    "rl_key (rate_limit_plugin (typed_config e2e_settings)) = req_ip"
    "rl_ban (rate_limit_plugin (typed_config e2e_settings)) = None"
    by (simp_all add: rate_limit_plugin_def)
qed

lemma e2e_rate_limit:
  "e2e_ready su app \<Longrightarrow> app_rate_limit app = rate_limit_plugin (typed_config e2e_settings)"
  using build_app_parts(11) [OF e2e_parts(1)] e2e_parts(2) by metis

lemma limiter_verdict:
  assumes "e2e_ready su app" and "e2e_limited su" and "cl_path q \<notin> probe_paths"
  defines "t \<equiv> traced (su_world su q) (su_arrive su q)"
  shows "if earlier su past (req_ip (ex_request (su_arrive su q))) < 10
    then \<exists>y. su_limiter su (hits_of su past) (app_rate_limit app) t = Inr y
    else \<exists>err. su_limiter su (hits_of su past) (app_rate_limit app) t = Inl err \<and> resolve_status err = 429"
proof -
  let ?ip = "req_ip (ex_request (su_arrive su q))"
  have "arrives_as q (su_uuid su q) (su_arrive su q)" using assms(1) by (simp add: e2e_ready_def)
  then have r: "route_rate_limit (req_route (ex_request t)) \<noteq> Some False" "req_ip (ex_request t) = ?ip"
    using assms(3) by (simp_all add: t_def arrives_as_def)
  have c: "su_count su (hits_of su past) 0 ?ip = Some (Suc (earlier su past ?ip))"
    using assms(2) unfolding e2e_limited_def counts_in_def earlier_hits [symmetric] by blast
  have "case su_count su (hits_of su past) 0 (rl_key (app_rate_limit app) (ex_request t)) of
      None \<Rightarrow> rl_skip_on_error (app_rate_limit app) \<longrightarrow>
        (\<exists>y. su_limiter su (hits_of su past) (app_rate_limit app) t = Inr y)
    | Some n \<Rightarrow> if int n \<le> rl_max (app_rate_limit app)
        then (\<exists>y. su_limiter su (hits_of su past) (app_rate_limit app) t = Inr y)
        else (\<exists>err. su_limiter su (hits_of su past) (app_rate_limit app) t = Inl err
          \<and> over_limit (app_rate_limit app) err)"
    using assms(2) r(1) unfolding e2e_limited_def limits_by_def by blast
  then show ?thesis
    by (simp add: e2e_rate_limit [OF assms(1)] e2e_limits r(2) c over_limit_def split: if_splits)
qed

subsection \<open>The gateway after earlier requests\<close>

lemma met_after_fields:
  "su_run (met_after su past q) = su_run su" "su_base (met_after su past q) = su_base su"
  "su_platform (met_after su past q) = su_platform su" "su_arrive (met_after su past q) = su_arrive su"
  "su_route (met_after su past q) = su_route su" "su_state (met_after su past q) = su_state su"
  "su_uuid (met_after su past q) = su_uuid su" "su_decode (met_after su past q) = su_decode su"
  "su_world (met_after su past q) q' = (if q' = q
     then (su_world su q)\<lparr>w_limit := su_limiter su (hits_of su past)\<rparr> else su_world su q')"
  by (simp_all add: met_after_def)

lemma met_first: "e2e_limited su \<Longrightarrow> met_after su [] q = su"
  by (simp add: met_after_def e2e_limited_def hits_of_def fun_upd_idem)

lemma traced_limit: "traced (w\<lparr>w_limit := l\<rparr>) ex = traced w ex"
  by (simp add: traced_def)

lemma world_after: "world_ready app w \<Longrightarrow> limiter_law l \<Longrightarrow> world_ready app (w\<lparr>w_limit := l\<rparr>)"
  by (simp add: world_ready_def)

lemma within_ready:
  assumes "e2e_ready su app" and "e2e_limited su"
    and "cl_path q \<notin> probe_paths \<Longrightarrow> earlier su past (req_ip (ex_request (su_arrive su q))) < 10"
  shows "e2e_ready (met_after su past q) app"
proof -
  have law: "limiter_law (su_limiter su (hits_of su past))"
    using assms(2) by (simp add: e2e_limited_def limits_by_def)
  have "\<exists>y. su_limiter su (hits_of su past) (app_rate_limit app) (traced (su_world su q) (su_arrive su q)) = Inr y"
    if "cl_path q \<notin> probe_paths"
    using limiter_verdict [OF assms(1,2) that, of past] assms(3) [OF that] by simp
  then show ?thesis
    using assms(1) world_after [OF _ law] by (simp add: e2e_ready_def met_after_fields traced_limit)
qed

lemma met_echoes: "echo_network su app px \<Longrightarrow> echo_network (met_after su past q) app px"
proof -
  have "echoes (met_after su past q) app = echoes su app"
    by (intro ext) (simp only: echoes_def met_after_fields)
  then show "echo_network su app px \<Longrightarrow> echo_network (met_after su past q) app px"
    by (simp only: echo_network_def)
qed

lemma over_limit_answer:
  assumes "e2e_ready su app" and "e2e_limited su" and "cl_path q = ''/api/public'' @ ''/'' @ rest"
    and "10 \<le> earlier su past (req_ip (ex_request (su_arrive su q)))"
  shows "hr_status (ask_gateway_after su app px past q) = 429"
proof -
  let ?su = "met_after su past q" and ?ex = "su_arrive su q"
  let ?w = "(su_world su q)\<lparr>w_limit := su_limiter su (hits_of su past)\<rparr>" and ?sha = "pf_sha256 (su_platform su)"
  obtain m where m: "m \<in> set (app_mounts app)" "mount_prefix m = ''/api/public''" "mount_hooks m = []"
    by (rule public_mount [OF assms(1)])
  let ?a = "e2e_arrival ?su px m q"
  have a: "ar_world ?a = ?w" "ar_mount ?a = m" "ar_exchange ?a = ?ex"
    by (simp_all add: e2e_arrival_def met_after_fields)
  have "prefix (mount_prefix m @ ''/'') (cl_path q)" by (simp add: assms(3) m(2) prefix_def)
  then have route: "su_route su q = Some m" using assms(1) m(1) unfolding e2e_ready_def by blast
  have probe: "cl_path q \<notin> probe_paths" by (simp add: assms(3) probe_paths_def)
  have r: "lifecycle (su_run su)" "service_request ?ex" "\<not> w_overloaded ?w (app_pressure app)"
    using assms(1) probe by (auto simp: e2e_ready_def world_ready_def arrives_as_def)
  then have o: "\<not> gated ?w app (req_ip (ex_request ?ex))" using e2e_parts(3) [OF assms(1)] by (simp add: gated_def)
  have law: "limiter_law (w_limit ?w)" using assms(2) by (simp add: e2e_limited_def limits_by_def)
  obtain err where err: "su_limiter su (hits_of su past) (app_rate_limit app) (traced (su_world su q) ?ex) = Inl err"
    "resolve_status err = 429"
    using limiter_verdict [OF assms(1,2) probe, of past] assms(4) by auto
  have "sent (ex_reply (traced (su_world su q) ?ex)) = None" using r(2) by (simp add: traced_def service_request_def)
  then have "verdict_of ?sha ?w app m ?ex = Thrown err"
    using o err(1) by (simp add: verdict_of_def after_cache_def m(3) traced_limit)
  with pipeline_decides [OF r(1) law e2e_parts(1) [OF assms(1)] m(1) r(2), of ?sha "su_base su"] obtain rep where
    rep: "snd (handle_request (su_run su) (su_base su) ?sha ?w app m ?ex) = Answered rep" "status_code rep = 429"
    using err(2) by (cases "snd (handle_request (su_run su) (su_base su) ?sha ?w app m ?ex)") auto
  then have "ex_reply (answered (su_run su) (su_base su) ?sha app ?a) = rep"
    using answered_outcome [of "su_run su" "su_base su" ?sha ?a app] by (simp add: a)
  then show ?thesis
    using route rep(2)
    by (simp add: ask_gateway_after_def ask_routed [OF probe] respond_def met_after_fields completed_reply(1))
qed

subsection \<open>The checks\<close>

lemma same_client_run:
  "same_client ask q n past answer
    = (if n = 0 then answer else Some (ask (past @ replicate (n - 1) q) q), past @ replicate n q)"
proof (induction n arbitrary: past answer)
  case (Suc n)
  show ?case using Suc.IH [of "past @ [q]" "Some (ask past q)"] by (cases n) simp_all
qed simp

lemma client_addresses_differ: "client_address n \<noteq> ''9.9.9.9''"
  by (simp add: client_address_def)

lemma limit_pass:
  assumes "e2e_ready su app" and "e2e_limited su" and "echo_network su app px" and "list_all check_ok results"
  shows "list_all check_ok (fst (limit_checks (ask_gateway_after su app px) n results))"
proof -
  let ?opts = "plain\<lparr>op_same_client := Some ''9.9.9.9''\<rparr>"
  let ?q1 = "fst (e2e_req ''/api/public/status'' ?opts n)" and ?q2 = "fst (e2e_req ''/api/public/status'' plain n)"
  let ?q3 = "fst (e2e_req ''/healthz'' ?opts (Suc n))"
  have num: "snd (e2e_req path ?opts k) = k" "snd (e2e_req path plain k) = Suc k" for path k
    by (simp_all add: e2e_req_def plain_def)
  have path: "cl_path ?q1 = ''/api/public'' @ ''/'' @ ''status''" "cl_path ?q2 = ''/api/public'' @ ''/'' @ ''status''"
    "cl_path ?q3 \<in> probe_paths"
    by (simp_all add: e2e_req_fields probe_paths_def)
  have arrives: "arrives_as q (su_uuid su q) (su_arrive su q)" for q using assms(1) by (simp add: e2e_ready_def)
  have ip: "req_ip (ex_request (su_arrive su ?q1)) = ''9.9.9.9''"
    "req_ip (ex_request (su_arrive su ?q2)) = client_address (Suc n)"
    using arrives [of ?q1] arrives [of ?q2] by (simp_all add: arrives_as_def e2e_req_def plain_def)
  obtain m where m: "m \<in> set (app_mounts app)" "mount_prefix m = ''/api/public''"
    by (rule public_mount [OF assms(1)])
  have "prefix (mount_prefix m @ ''/'') (cl_path ?q1)" by (simp add: path(1) m(2) prefix_def)
  then have route: "su_route su ?q1 = Some m" using assms(1) m(1) unfolding e2e_ready_def by blast
  have hits: "earlier su (replicate k ?q1) ''9.9.9.9'' = k"
    "earlier su (replicate k ?q1) (client_address (Suc n)) = 0" for k
    using client_addresses_differ [of "Suc n"] by (simp_all add: earlier_def ip(1) route)
  have one: "hr_status (ask_gateway_after su app px (replicate 10 ?q1) ?q1) = 429"
    by (rule over_limit_answer [OF assms(1,2) path(1)]) (simp only: ip(1) hits)
  have "e2e_ready (met_after su (replicate 11 ?q1) ?q2) app"
    by (rule within_ready [OF assms(1,2)]) (simp only: ip(2) hits)
  from public_admitted [OF this met_echoes [OF assms(3)] path(2)]
  have two: "hr_status (ask_gateway_after su app px (replicate 11 ?q1) ?q2) = 200"
    by (simp add: ask_gateway_after_def)
  have "e2e_ready (met_after su (replicate 11 ?q1 @ [?q2]) ?q3) app"
    by (rule within_ready [OF assms(1,2)]) (use path(3) in blast)
  from probe_answer(1) [OF this path(3)]
  have three: "hr_status (ask_gateway_after su app px (replicate 11 ?q1 @ [?q2]) ?q3) = 200"
    by (simp add: ask_gateway_after_def)
  have "same_client (ask_gateway_after su app px) ?q1 11 [] None
      = (Some (ask_gateway_after su app px (replicate 10 ?q1) ?q1), replicate 11 ?q1)"
    by (simp only: same_client_run) simp
  then show ?thesis
    using assms(4) one two three
    by (simp add: limit_checks_def split_beta Let_def record_check_def num)
qed

end
