(* ===== verification/E2eChecks.thy ===== *)
theory E2eChecks
  imports E2eLimit
begin

section \<open>The end-to-end script passes\<close>

text \<open>
  The whole script of theory \<open>E2eScript\<close> (\<open>e2e_checks_pass\<close>), and a network, a limiter and a gateway on
  which it runs.
\<close>

subsection \<open>The script\<close>

lemma wait_up_iff: "wait_up healthy i n \<longleftrightarrow> (\<exists>j < n. healthy (i + j))"
proof (induction n arbitrary: i)
  case (Suc n)
  have "(\<exists>j < Suc n. healthy (i + j)) \<longleftrightarrow> healthy i \<or> (\<exists>j < n. healthy (Suc i + j))"
    by (auto simp: less_Suc_eq_0_disj)
  then show ?case by (simp add: Suc.IH)
qed simp

lemma gateway_up_iff: "gateway_up healthy \<longleftrightarrow> (\<exists>j < 50. healthy j)"
  by (simp add: gateway_up_def wait_up_iff)

lemma e2e_exit_ok: "list_all check_ok results \<Longrightarrow> e2e_exit results = 0"
  by (simp add: e2e_exit_def filter_empty_conv list_all_iff)

text \<open>C9. The end-to-end script passes: against the gateway booted with the script's environment, on a
  network and on hooks that keep their documented laws, a gateway that listens within the fifty
  attempts passes every check, of its own endpoints, the api-key, basic-auth and public services, a
  posted body, CORS, the slow upstream, the limiter's budget, the stopped upstream and the log text,
  all 37 that the exit code depends on, and the script exits with 0. The upstream's failure may reach the
  gateway as the client library's error or in the proxy library's wrapper.\<close>
theorem e2e_checks_pass:
  assumes "e2e_ready su app" and "e2e_secured su app" and "e2e_limited su" and "echo_network su app px" and "stopped ''orders'' px'"
    and "e2e_logged su app" and "listening i" and "i < 50"
  shows "case e2e_run listening (ask_gateway_after su app px) (ask_preflight_of su app) (ask_gateway su app px')
      (su_log su) of
    (results, code) \<Rightarrow> length results = 37 \<and> list_all check_ok results \<and> code = 0"
proof -
  let ?ask = "ask_gateway su app px"
  have status: "hr_status (?ask \<lparr>cl_path = ''/healthz'', cl_method = ''GET'', cl_headers = [], cl_body = []\<rparr>) = 200"
    by (rule probe_answer(1) [OF assms(1)]) (simp add: probe_paths_def)
  have first: "ask_gateway_after su app px [] = ?ask"
    by (intro ext) (simp add: ask_gateway_after_def met_first [OF assms(3)])
  from status have up: "gateway_up (\<lambda>i. listening i \<and> 200 \<le> hr_status (?ask \<lparr>cl_path = ''/healthz'', cl_method = ''GET'',
      cl_headers = [], cl_body = []\<rparr>) \<and> hr_status (?ask \<lparr>cl_path = ''/healthz'', cl_method = ''GET'',
      cl_headers = [], cl_body = []\<rparr>) < 300)"
    using assms(7,8) by (auto simp: gateway_up_iff)
  have len: "length (fst (own_checks a n rs)) = 7 + length rs" "length (fst (users_checks a n rs)) = 9 + length rs"
    "length (fst (orders_checks a n rs)) = 6 + length rs" "length (fst (public_checks a n rs)) = 4 + length rs"
    "length (fst (slow_checks a n rs)) = 1 + length rs" "length (fst (dead_checks a n rs)) = 2 + length rs"
    "length (fst (limit_checks b n rs)) = 3 + length rs" "length (fst (cors_checks a a' n rs)) = 3 + length rs"
    "length (fst (log_checks log n rs)) = 2 + length rs"
    for a a' b log n rs
    by (simp_all add: own_checks_def users_checks_def orders_checks_def public_checks_def slow_checks_def dead_checks_def
        limit_checks_def cors_checks_def log_checks_def record_check_def split_beta Let_def)
  have ok: "list_all check_ok (fst (log_checks (su_log su) n9 (fst (dead_checks (ask_gateway su app px') n8
      (fst (limit_checks (ask_gateway_after su app px) n7 (fst (slow_checks ?ask n6
        (fst (cors_checks ?ask (ask_preflight_of su app) n5 (fst (public_checks ?ask n4 (fst (orders_checks ?ask n3 (fst (users_checks ?ask n2
        (fst (own_checks ?ask n1 []))))))))))))))))))" for n1 n2 n3 n4 n5 n6 n7 n8 n9
    by (intro log_pass [OF assms(1)] dead_pass limit_pass slow_pass cors_pass public_pass orders_pass users_pass own_pass assms) simp_all
  show ?thesis
    by (simp add: e2e_run_def split_beta Let_def first up len ok e2e_exit_ok [OF ok])
qed

subsection \<open>A network for the script\<close>

definition e2e_platform :: platform where
  "e2e_platform = sample_platform\<lparr>pf_validate := (\<lambda>_. Inr e2e_settings)\<rparr>"

lemma e2e_unset:
  "e2e_variables ''LOG_DESTINATIONS'' = None" "e2e_variables ''LOG_BUFFER_BYTES'' = None"
  "e2e_variables ''TRUST_PROXY'' = None" "e2e_variables ''LOG_REQUEST_STYLE'' = None"
  "e2e_variables ''BODY_LIMIT'' = None" "e2e_variables ''KEEP_ALIVE_TIMEOUT_MS'' = None"
  "e2e_variables ''REQUEST_TIMEOUT_MS'' = None" "e2e_variables ''LOG_DESTINATION'' = None"
  by (simp_all add: e2e_variables_def)

lemma e2e_factory:
  "\<exists>factory. factory_options_of e2e_variables = Inr factory \<and> registers e2e_platform (RegFastify factory)"
proof -
  have "destination_names Map.empty = [''console'']" by code_simp
  then have n: "destination_names e2e_variables = [''console'']" by (simp add: destination_names_def e2e_unset)
  have "parse_destinations e2e_variables = Inr {''console''}"
    unfolding parse_destinations_def n by (simp add: valid_destinations_def)
  moreover obtain target where "log_target_for e2e_variables {''console''} (Decimal 0 0) = Inr target"
    by (simp add: log_target_for_def)
  moreover have "env_or e2e_variables ''LOG_LEVEL'' ''info'' = ''info''"
    by (simp add: env_or_def e2e_variables_def)
  ultimately have "build_logger_options e2e_variables
      = Inr \<lparr>lc_level = ''info'', lc_redact = redact_paths, lc_target = target\<rparr>"
    by (simp add: build_logger_options_def env_number_def e2e_unset)
  then show ?thesis
    by (auto simp: factory_options_of_def env_boolean_def env_enum_def env_number_def e2e_unset registers_def
        e2e_platform_def sample_platform_def pino_levels_def)
qed

lemma e2e_boots: "\<exists>app. build_app e2e_platform e2e_variables = Inr app"
proof -
  obtain factory where f: "factory_options_of e2e_variables = Inr factory" "registers e2e_platform (RegFastify factory)"
    using e2e_factory by blast
  have v: "pf_validate e2e_platform e2e_variables = Inr e2e_settings" by (simp add: e2e_platform_def)
  have "text_of (default_settings ''JWT_JWKS_URI'') = []" "text_of (default_settings ''REDIS_URL'') = []"
    by code_simp+
  then have "JWT_JWKS_URI (typed_config e2e_settings) = []" "REDIS_URL (typed_config e2e_settings) = []"
    "CORS_ORIGINS (typed_config e2e_settings) = ''https://app.example.com''"
    unfolding typed_config_def gateway_config.select_convs by (simp_all add: e2e_settings_def)
  moreover have "''*'' \<notin> set (map js_trim (split_on (CHR '','') ''https://app.example.com''))" by code_simp
  moreover have "list_items [] = []" by code_simp
  ultimately have "config_accepted e2e_platform (typed_config e2e_settings)"
    using sample_registers [of e2e_platform "typed_config e2e_settings"]
    by (simp add: config_accepted_def e2e_config_values e2e_users_parsed redis_plugin_def cors_origins_def
        service_url_def e2e_platform_def sample_platform_def)
  from build_app_ok [OF f v this] show ?thesis by blast
qed

text \<open>The stripped path, and the echo as a stream of text chunks.\<close>

definition mounted_at :: "string list" where
  "mounted_at = [''/api/users'', ''/api/orders'', ''/api/public'']"

definition strip_mount :: "string \<Rightarrow> string" where
  "strip_mount url = (case find (\<lambda>p. prefix (p @ ''/'') url) mounted_at of
     None \<Rightarrow> url | Some p \<Rightarrow> drop (length p) url)"

definition echo_chunks :: "echo \<Rightarrow> stream_chunk list" where
  "echo_chunks e = StringChunk (ec_service e) # StringChunk (ec_method e) # StringChunk (ec_url e)
     # StringChunk (ec_body e)
     # concat (map (\<lambda>(n, v). [StringChunk n, StringChunk v]) (ec_headers e))"

fun chunk_pairs :: "stream_chunk list \<Rightarrow> (string \<times> string) list" where
  "chunk_pairs (StringChunk n # StringChunk v # cs) = (n, v) # chunk_pairs cs"
| "chunk_pairs _ = []"

fun chunks_echo :: "stream_chunk list \<Rightarrow> echo option" where
  "chunks_echo (StringChunk name # StringChunk verb # StringChunk url # StringChunk text # cs) =
     Some \<lparr>ec_service = name, ec_method = verb, ec_url = url, ec_headers = chunk_pairs cs, ec_body = text\<rparr>"
| "chunks_echo _ = None"

lemma chunk_pairs_concat: "chunk_pairs (concat (map (\<lambda>(n, v). [StringChunk n, StringChunk v]) hs)) = hs"
  by (induction hs) auto

lemma chunks_echo_chunks: "chunks_echo (echo_chunks e) = Some e"
  by (cases e) (simp add: echo_chunks_def chunk_pairs_concat)

definition sample_sent :: "headers \<Rightarrow> exchange \<Rightarrow> upstream_request" where
  "sample_sent hs x = \<lparr>ur_method = req_method (ex_request x), ur_url = strip_mount (req_url (ex_request x)),
     ur_headers = map (\<lambda>n. (n, hval_text (the (hs n)))) (filter (\<lambda>n. hs n \<noteq> None) sent_names),
     ur_body = req_body (ex_request x)\<rparr>"

definition e2e_proxy :: proxy where
  "e2e_proxy up hs x =
     (let name = (if up = service_url ''users'' then ''users'' else if up = service_url ''orders'' then ''orders''
         else ''public'')
      in (case start_echo name (sample_sent hs x) of (delay, e) \<Rightarrow>
        if 800 < delay then Inl (wrapped ''Headers Timeout Error'')
        else Inr \<lparr>status_code = 200,
          reply_headers = (reply_headers (ex_reply x))(''content-type'' \<mapsto> HStr ''application/json''),
          sent = Some (StreamPayload \<lparr>chunks = echo_chunks e, stream_fails = False\<rparr>)\<rparr>))"

text \<open>The same network once the orders upstream has been closed.\<close>

definition closed_proxy :: proxy where
  "closed_proxy up hs x =
     (if up = service_url ''orders'' then Inl (wrapped (refused_text ''orders'')) else e2e_proxy up hs x)"

text \<open>The documented headers of helmet and CORS.\<close>

definition script_secure :: "cors_options \<Rightarrow> hook" where
  "script_secure options ex =
     (let granted = (case req_headers (ex_request ex) ''origin'' of
            Some (HStr origin) \<Rightarrow>
              if allowed_origin options origin
              then [''access-control-allow-origin'' \<mapsto> HStr origin, ''access-control-allow-credentials'' \<mapsto> HStr ''true'']
              else Map.empty
          | _ \<Rightarrow> Map.empty);
          reply = (ex_reply ex)\<lparr>reply_headers := (reply_headers (ex_reply ex))(''x-content-type-options'' \<mapsto> HStr ''nosniff'')
            ++ granted\<rparr>
      in Inr (ex\<lparr>ex_reply := (if req_method (ex_request ex) = ''OPTIONS'' then reply\<lparr>status_code := 204, sent := Some NoPayload\<rparr>
           else reply)\<rparr>))"

definition e2e_exchange :: "client_request \<Rightarrow> exchange" where
  "e2e_exchange q =
     (let hs = (\<lambda>n. map_option HStr (map_of (cl_headers q) n))
      in \<lparr>ex_request = (sample_request (cl_method q) [])\<lparr>req_id := gen_req_id (replicate 36 CHR ''a'') hs,
            req_url := cl_path q, req_headers := hs, req_body := cl_body q,
            req_ip := (case map_of (cl_headers q) ''x-forwarded-for'' of Some ip \<Rightarrow> ip | None \<Rightarrow> ''127.0.0.1''), remote_address := Some ''127.0.0.1'',
            req_hostname := ''127.0.0.1:18300'', req_protocol := ''http'',
            req_route := (if cl_path q \<in> probe_paths then probe_options (cl_path q)
              else \<lparr>route_url = None, route_shed = None, route_ip_filter = None, route_rate_limit = None\<rparr>)\<rparr>,
          ex_reply = fresh_reply, ex_tokens = [], ex_log = \<lparr>bindings = [], log_lines = []\<rparr>\<rparr>)"

definition secured_exchange :: "cors_options \<Rightarrow> client_request \<Rightarrow> exchange" where
  "secured_exchange options q =
     (if cl_method q = ''OPTIONS'' then e2e_exchange q
      else case script_secure options (e2e_exchange q) of Inl _ \<Rightarrow> e2e_exchange q | Inr x \<Rightarrow> x)"

text \<open>A limiter that counts the requests of a client.\<close>

definition script_count :: hit_count where
  "script_count hs now key = Some (Suc (length (filter (same_window (\<lambda>_ _. 0) key now) hs)))"

definition script_limit :: "hits \<Rightarrow> rate_limit_options \<Rightarrow> hook" where
  "script_limit hs options ex =
     (if route_rate_limit (req_route (ex_request ex)) = Some False
        \<or> int (the (script_count hs 0 (rl_key options (ex_request ex)))) \<le> rl_max options
      then Inr ex
      else Inl \<lparr>err_code = Some ''FST_ERR_RATE_LIMIT'', err_message = ''Rate limit exceeded'', err_status = Some 429\<rparr>)"

lemma script_limit_law: "limits_by script_count hs 0 (script_limit hs)"
  by (simp add: limits_by_def limiter_law_def script_limit_def script_count_def over_limit_def resolve_status_def
      upstream_timeout_codes_def upstream_connection_codes_def reply_from_wrapper_code_def)

text \<open>A line per forwarded request, with the bindings of its logger.\<close>

definition binding_fields :: "logger \<Rightarrow> string" where
  "binding_fields lg = concat (map (\<lambda>(key, value). '','' @ quoted_field key value) (bindings lg))"

definition forward_log :: "app \<Rightarrow> (client_request \<Rightarrow> mount option) \<Rightarrow> (client_request \<Rightarrow> world)
    \<Rightarrow> (client_request \<Rightarrow> exchange) \<Rightarrow> client_request \<Rightarrow> string" where
  "forward_log app route w arrive q =
     (case route q of None \<Rightarrow> []
      | Some m \<Rightarrow> ''{\"level\":\"info\"'' @ binding_fields (req_log (ex_request (fst
            (handle_request run_hooks (\<lambda>hs. hs) (pf_sha256 e2e_platform) (w q) app m (arrive q)))))
          @ '',\"msg\":\"fetching from remote server\"}'')"

lemma binding_written:
  assumes "(key, value) \<in> set (bindings lg)"
  shows "sublist (quoted_field key value) (before @ binding_fields lg @ after)"
proof -
  from assms obtain xs ys where "bindings lg = xs @ (key, value) # ys" by (meson split_list)
  then have "before @ binding_fields lg @ after = (before @ concat (map (\<lambda>(key, value). '','' @ quoted_field key value) xs) @ '','')
      @ quoted_field key value @ (concat (map (\<lambda>(key, value). '','' @ quoted_field key value) ys) @ after)"
    by (simp add: binding_fields_def)
  then show ?thesis by (metis sublist_appendI)
qed

definition e2e_network :: "app \<Rightarrow> e2e_setup" where
  "e2e_network app = \<lparr>su_run = run_hooks, su_base = (\<lambda>hs. hs), su_platform = e2e_platform,
     su_arrive = secured_exchange (app_cors app), su_world = (\<lambda>_. sample_world\<lparr>w_limit := script_limit []\<rparr>),
     su_route = (\<lambda>q. find (\<lambda>m. prefix (mount_prefix m @ ''/'') (cl_path q)) (app_mounts app)),
     su_state = \<lparr>shutting_down = False, under_pressure = False\<rparr>,
     su_uuid = (\<lambda>_. replicate 36 CHR ''a''),
     su_decode = (\<lambda>s. chunks_echo (chunks s)), su_count = script_count, su_limiter = script_limit,
     su_raw = e2e_exchange, su_secure = script_secure,
     su_log = forward_log app (\<lambda>q. find (\<lambda>m. prefix (mount_prefix m @ ''/'') (cl_path q)) (app_mounts app))
       (\<lambda>_. sample_world\<lparr>w_limit := script_limit []\<rparr>) (secured_exchange (app_cors app))\<rparr>"

lemma route_of_mount:
  assumes "build_app pf env = Inr app" and "m \<in> set (app_mounts app)" and "prefix (mount_prefix m @ ''/'') path"
  shows "find (\<lambda>m. prefix (mount_prefix m @ ''/'') path) (app_mounts app) = Some m"
proof -
  obtain a b c where ms: "app_mounts app = [a, b, c]" and ps: "mount_prefix a = ''/api/users''"
    "mount_prefix b = ''/api/orders''" "mount_prefix c = ''/api/public''"
    using mount_services_list [OF build_app_parts(12) [OF assms(1)]]
    by (auto simp: service_gateways_def list_all2_Cons1 to_plugin_prefix users_gateway_def orders_gateway_def
        public_gateway_def base_gateway_def)
  have other: "\<not> prefix (p @ ''/'') path" if "p \<in> set mounted_at" "p \<noteq> mount_prefix m" for p
  proof
    assume "prefix (p @ ''/'') path"
    with assms(3) have "prefix (p @ ''/'') (mount_prefix m @ ''/'') \<or> prefix (mount_prefix m @ ''/'') (p @ ''/'')"
      using prefix_same_cases by blast
    moreover have "mount_prefix m \<in> set mounted_at" using assms(2) by (auto simp: ms ps mounted_at_def)
    ultimately show False using that by (auto simp: mounted_at_def)
  qed
  have at: "mount_prefix a \<in> set mounted_at" "mount_prefix b \<in> set mounted_at"
    "mount_prefix a \<noteq> mount_prefix b" "mount_prefix a \<noteq> mount_prefix c" "mount_prefix b \<noteq> mount_prefix c"
    by (simp_all add: ps mounted_at_def)
  from assms(2) consider "m = a" | "m = b" | "m = c" by (auto simp: ms)
  then show ?thesis
    using assms(3) other [OF at(1)] other [OF at(2)] at(3-5) by cases (simp_all add: ms)
qed

lemma strip_mounted:
  assumes "p \<in> set mounted_at"
  shows "strip_mount (p @ ''/'' @ rest) = ''/'' @ rest"
  using assms by (auto simp: mounted_at_def strip_mount_def)

lemma e2e_network_ready:
  assumes "build_app e2e_platform e2e_variables = Inr app"
  shows "e2e_ready (e2e_network app) app"
proof -
  note fields = e2e_network_def e2e_setup.select_convs
  have p: "e2e_platform = sample_platform\<lparr>pf_validate := (\<lambda>_. Inr e2e_settings)\<rparr>" by (rule e2e_platform_def)
  have arrives: "arrives_as q (replicate 36 CHR ''a'') (secured_exchange (app_cors app) q)" for q
  proof -
    have u: "uuid_text (replicate 36 CHR ''a'')" by code_simp
    show ?thesis
      by (simp add: arrives_as_def secured_exchange_def script_secure_def e2e_exchange_def Let_def u sample_request_def
          service_request_def fresh_reply_def)
  qed
  have "generate_span_id sample_random \<noteq> ''00f067aa0ba902b7''" by code_simp
  then have world: "world_ready app (sample_world\<lparr>w_limit := script_limit []\<rparr>)"
    using script_limit_law [of "[]"] sample_random_good
    by (simp add: world_ready_def sample_world_def limits_by_def)
  have config: "app_config app = typed_config e2e_settings"
    using build_app_parts(2) [OF assms] by (auto simp: e2e_platform_def)
  have "rl_max (app_rate_limit app) = 10"
    by (simp add: build_app_parts(11) [OF assms] config e2e_limits)
  then have passes: "script_limit [] (app_rate_limit app) x = Inr x" for x
    by (simp add: script_limit_def script_count_def)
  have none: "find (\<lambda>m. prefix (mount_prefix m @ ''/'') path) (app_mounts app) = None"
    if "\<not> (\<exists>m \<in> set (app_mounts app). prefix (mount_prefix m) path)" for path
    using that append_prefixD by (auto simp: find_None_iff)
  show ?thesis
    unfolding e2e_ready_def fields
    using assms route_of_mount [OF assms] none arrives world
    by (simp add: run_hooks_lifecycle p sample_platform_def no_collision_def passes)
qed

lemma e2e_network_limited: "e2e_limited (e2e_network app)"
  by (simp add: e2e_limited_def e2e_network_def script_limit_law counts_in_def script_count_def)

lemma e2e_network_secured: "e2e_secured (e2e_network app) app"
proof -
  have "security_law script_secure"
    by (auto simp: security_law_def script_secure_def Let_def correlation_keys_def header_of_def header_name.simps
        map_add_def split: option.split hval.split)
  moreover have "granted (app_cors app) q (secured_exchange (app_cors app) q)" if "cl_method q \<noteq> ''OPTIONS''" for q
    using that
    by (cases "map_of (cl_headers q) ''origin''")
      (auto simp: granted_def secured_exchange_def script_secure_def e2e_exchange_def Let_def sample_request_def
        fresh_reply_def map_add_def)
  ultimately show ?thesis
    by (auto simp: e2e_secured_def e2e_network_def secured_exchange_def script_secure_def e2e_exchange_def Let_def
        sample_request_def fresh_reply_def)
qed

lemma e2e_network_logged: "e2e_logged (e2e_network app) app"
  unfolding e2e_logged_def
proof (intro allI impI)
  fix q m x up hs
  let ?su = "e2e_network app"
  assume m: "su_route ?su q = Some m"
    and h: "handle_request (su_run ?su) (su_base ?su) (pf_sha256 (su_platform ?su)) (su_world ?su q) app m (su_arrive ?su q)
      = (x, Forwarded up hs)"
  have "su_log ?su q = ''{\"level\":\"info\"'' @ binding_fields (req_log (ex_request x))
      @ '',\"msg\":\"fetching from remote server\"}''"
    using m h by (simp add: e2e_network_def forward_log_def)
  then have "pino_line (req_log (ex_request x)) (su_log ?su q)"
    by (auto simp: pino_line_def intro: binding_written simp del: append.simps)
  then show "\<exists>line. pino_line (req_log (ex_request x)) line \<and> sublist line (su_log ?su q)" by blast
qed

lemma service_urls_differ:
  "service_url ''users'' \<noteq> service_url ''orders''" "service_url ''public'' \<noteq> service_url ''users''"
  "service_url ''public'' \<noteq> service_url ''orders''"
  by (simp_all add: service_url_def service_port_def)

lemma map_of_sent:
  "map_of (map (\<lambda>n. (n, f n)) (filter P ns)) n = (if n \<in> set ns \<and> P n then Some (f n) else None)"
  by (induction ns) auto

lemma e2e_network_echoes:
  assumes "build_app e2e_platform e2e_variables = Inr app"
  shows "echo_network (e2e_network app) app e2e_proxy"
  unfolding echo_network_def
proof (intro ballI allI impI)
  fix name hs and x :: exchange assume "name \<in> {''users'', ''orders'', ''public''}" and "sent (ex_reply x) = None"
  then have px: "e2e_proxy (service_url name) hs x = (case start_echo name (sample_sent hs x) of (delay, e) \<Rightarrow>
      if 800 < delay then Inl (wrapped ''Headers Timeout Error'')
      else Inr \<lparr>status_code = 200,
        reply_headers = (reply_headers (ex_reply x))(''content-type'' \<mapsto> HStr ''application/json''),
        sent = Some (StreamPayload \<lparr>chunks = echo_chunks e, stream_fails = False\<rparr>)\<rparr>)"
    using service_urls_differ by (auto simp: e2e_proxy_def)
  let ?r = "sample_sent hs x"
  have "passed_on app hs x ?r"
    unfolding passed_on_def
  proof (intro conjI ballI allI impI)
    show "map_of (ur_headers ?r) n = map_option hval_text (hs n)" if "n \<in> set sent_names" for n
      using that by (auto simp: sample_sent_def map_of_sent)
    show "ur_url ?r = ''/'' @ rest" if "p \<in> mount_prefix ` set (app_mounts app)"
      "req_url (ex_request x) = p @ ''/'' @ rest" for p rest
    proof -
      have "p \<in> set mounted_at"
        using that(1) e2e_prefixes [OF e2e_network_ready [OF assms]] by (auto simp: mounted_at_def)
      from strip_mounted [OF this] show ?thesis by (simp only: sample_sent_def upstream_request.select_convs that(2))
    qed
  qed (simp_all add: sample_sent_def)
  moreover have "UPSTREAM_TIMEOUT_MS (app_config app) = 800"
    using e2e_parts(2) [OF e2e_network_ready [OF assms]] by (simp add: e2e_config_values)
  moreover have "chunks_echo (echo_chunks (snd (start_echo name ?r))) = Some (snd (start_echo name ?r))"
    by (rule chunks_echo_chunks)
  ultimately show "echoes (e2e_network app) app name hs x (e2e_proxy (service_url name) hs x)"
    unfolding echoes_def px
    by (intro exI [of _ ?r]) (simp add: split_beta e2e_network_def relays_def slow_error_def wrapped_def reply_from_wrapper_code_def)
qed

lemma closed_stopped: "stopped ''orders'' closed_proxy"
  by (simp add: stopped_def closed_proxy_def refused_error_def wrapped_def reply_from_wrapper_code_def)

theorem e2e_checks_pass_witness:
  "\<exists>app. build_app e2e_platform e2e_variables = Inr app
    \<and> snd (e2e_run (\<lambda>i. i = 2) (ask_gateway_after (e2e_network app) app e2e_proxy) (ask_preflight_of (e2e_network app) app)
        (ask_gateway (e2e_network app) app closed_proxy) (su_log (e2e_network app))) = 0"
proof -
  obtain app where app: "build_app e2e_platform e2e_variables = Inr app" using e2e_boots by blast
  from e2e_checks_pass [OF e2e_network_ready [OF app] e2e_network_secured e2e_network_limited e2e_network_echoes [OF app] closed_stopped
      e2e_network_logged, of "\<lambda>i. i = 2" 2]
  show ?thesis using app by (auto simp: split_beta)
qed

end
