(* ===== verification/Spec2Isabelle.thy ===== *)
theory Spec2Isabelle
  imports Server CacheStore BearerCache CacheStream RateLimit E2eChecks
begin

text \<open>
  A verification library for the Fastify API gateway under \<open>src/\<close> (TypeScript).

  The program. The gateway terminates client requests, filters and limits them, authenticates them
  at the edge, and proxies them to three upstream services (users behind an API key, orders behind
  Basic, public open and cacheable). \<open>app.ts\<close> registers one plugin per concern on a Fastify
  instance, in a load-bearing order; \<open>core/service-gateway.ts\<close> turns the declaration of a service
  into a mounted proxy route; \<open>server.ts\<close> boots the application and shuts it down.

  \<^bold>\<open>Theories and the code they model.\<close>

  \<^item> \<open>Prelude\<close>: results of code that may throw, the insertion-ordered \<open>Map\<close> and its interface
    \<open>ordered_map\<close>. \<open>JsText\<close>, \<open>Encoding\<close>, \<open>JsNumber\<close>, \<open>Json\<close>, \<open>JsonRoundTrip\<close>: the parts of the
    JavaScript library the source uses (trim, split, the regular expressions as matchers, UTF-8,
    base64, hex, \<open>Number(text)\<close>, \<open>JSON.parse\<close> and \<open>JSON.stringify\<close>).
  \<^item> \<open>Constants\<close>: \<open>constants/\<close> and \<open>enums/\<close>. \<open>Http\<close>: requests, replies, logs, the error body
    (\<open>utils/error.util.ts\<close>, \<open>utils/reply.util.ts\<close>).
  \<^item> \<open>Credentials\<close>: \<open>utils/crypto.util.ts\<close>, \<open>basic-auth.util.ts\<close>, \<open>bearer.util.ts\<close>.
    \<open>Strategies\<close>: the four guards of \<open>strategies/\<close>, with the contract of a guard as the locales
    \<open>auth_guard\<close> and \<open>tagging_guard\<close>, interpreted for each of the four. \<open>BearerCache\<close>: the
    introspection cache over time, as a step relation. \<open>AuthRegistry\<close>: \<open>plugins/auth.ts\<close>.
  \<^item> \<open>Config\<close>: \<open>config/env.ts\<close>, \<open>config/schema.ts\<close>, \<open>types/gateway-config.type.ts\<close>.
  \<^item> \<open>ServiceGateway\<close>: \<open>core/service-gateway.ts\<close>, \<open>gateways/\<close>, \<open>utils/url.util.ts\<close>.
  \<^item> \<open>Tracing\<close>: \<open>utils/tracing.util.ts\<close>, \<open>plugins/request-context.ts\<close>, \<open>genReqId\<close> of \<open>app.ts\<close>.
    \<open>IpList\<close>: \<open>utils/ip-list.util.ts\<close> and \<open>plugins/ip-filter.ts\<close>, on 32- and 128-bit words.
  \<^item> \<open>Cache\<close>: \<open>plugins/cache.ts\<close>. \<open>CacheStore\<close>: its two hooks around one Redis over time, and the
    refinement of the machine that only knows what was published. \<open>CacheStream\<close>: the race of a lookup
    with its timer, and the tee of a streamed response as a machine over its events.
  \<^item> \<open>ErrorHandler\<close>, \<open>Alerts\<close> (with \<open>utils/alert-channels.util.ts\<close>, \<open>alert-level.util.ts\<close>),
    \<open>Limits\<close> (\<open>plugins/security.ts\<close>, \<open>pressure.ts\<close>, \<open>redis.ts\<close>, \<open>rate-limit.ts\<close>),
    \<open>Observability\<close> (\<open>plugins/metrics.ts\<close>, \<open>plugins/logging.ts\<close>, \<open>routes/\<close>, \<open>config/logger.ts\<close>).
  \<^item> \<open>App\<close>: \<open>app.ts\<close> and \<open>types/fastify.d.ts\<close>: \<open>build_app\<close> composes every plugin in registration
    order, \<open>handle_request\<close> every hook a request passes. \<open>Admission\<close>: the decision the gates specify,
    against which the pipeline is proved. \<open>Traffic\<close>: what follows the hooks, the upstream's answer or
    failure, the \<open>onSend\<close> and \<open>onResponse\<close> hooks, over the requests of an instance
    (\<open>serve_request\<close>, \<open>serve_all\<close>). \<open>SharedTraffic\<close>: requests that meet in the shared cache, and
    \<open>CacheTraffic\<close>: any overlap of requests on one Redis. \<open>SecurityHooks\<close>: the whole pipeline behind the
    hooks of helmet and CORS, which \<open>app.ts\<close> registers first; the theories before it start behind them.
    \<open>RateLimit\<close>: the budget of a client over a sequence of requests. \<open>Server\<close>: \<open>server.ts\<close>, \<open>otel.ts\<close>
    and the flushing of \<open>config/logger.ts\<close>, as a state machine over events.
  \<^item> \<open>E2eScript\<close>: \<open>scripts/e2e.mjs\<close>, its environment, echo upstreams, clients and checks.
    \<open>E2eServices\<close>, \<open>E2eAnswers\<close>, \<open>E2eLimit\<close>, \<open>E2eChecks\<close>: the checks as theorems about the booted
    gateway, of the services, of its own endpoints, CORS and failing upstreams, of the limiter, and all.

  \<^bold>\<open>State and operations.\<close> A class or interface is a record (\<open>request\<close>, \<open>reply\<close>, \<open>app\<close>,
  \<open>server\<close>), an enumeration a datatype, a handler a function from the state, request and reply it
  reads to those it leaves; a thrown error is \<open>Inl\<close>. An \<open>await\<close> whose interleaving matters splits
  its handler (\<open>bearer_begin\<close> and \<open>bearer_finish\<close>; the events of \<open>Server\<close> and \<open>CacheStore\<close>).

  \<^bold>\<open>What the groups of lemmas show.\<close>

  \<^item> End to end: an application boots exactly on a sound environment and is then well formed; nothing
    reaches an upstream without passing the IP filter, load shedding and the guard; blocked and shed
    traffic costs no further work; every answer but a preflight's carries its correlation ids; probes
    always answer. Every request is decided as the gates specify and forwarded exactly when all admit
    it, except that a preflight is answered before any gate. Upstream
    calls and failed logins of one client in one window stay within \<open>RATE_LIMIT_MAX\<close>.
  \<^item> Completion: every request is counted once under its final status; alerts are the throttled run over
    the final replies; upstream failures become 504 or 502 with the uniform body; upstream answers
    are relayed byte for byte; a stored response answers the next client; every answer from the cache is
    traced back to an upstream's bytes and carries its own request's security headers; a credentialed
    request is completed the same whatever the cache holds.
  \<^item> The tee and the lookup: every run of the tee is the store hook's summary and holds at most the
    limit; a lookup waits at most its timeout.
  \<^item> The end-to-end script: its checks, all but two of the log text, hold of the gateway booted with its
    environment, on any network with the documented laws, and it exits with 0.
  \<^item> Process: a signalled process ends within its timeout, exits with 0 only after a graceful close
    (and does so when nothing is stuck), loses no log line on any exit, and refines the life
    serve, drain, end.
  \<^item> Shared cache: the hooks refine the published-responses machine; every hit is an earlier response
    of the same service and key within its lifetime; keys separate; credentialed requests bypass;
    outages fail open; what is stored is served byte for byte.
  \<^item> Authentication: who passes each guard; cached decisions are backed and bounded; eviction equals
    its reference; mounting fails closed; what is forwarded, header by header.
  \<^item> Parsers and printers: round trips of Basic credentials, trace contexts and JSON; CIDR matching on
    words is arithmetic; numbers of the environment are exact or refused.

  \<^bold>\<open>Bounds.\<close> The JSON parser runs on fuel \<open>2 * length + 1\<close>, which \<open>JsonRoundTrip\<close> shows to be
  enough for every printed value. Time is an integer number of milliseconds; a timer fires at its
  time. Everything else is structural recursion.

  \<^bold>\<open>Parameters.\<close> Code that is not in \<open>src/\<close> is an argument: SHA-256, the URL parser, \<open>jose\<close>, \<open>fetch\<close>
  and the clock (\<open>auth_env\<close>), random bytes, the Redis answers, \<open>@fastify/env\<close> (\<open>pf_validate\<close>; where
  used, its values conform to the schema), Fastify's hook runner (\<open>lifecycle\<close>: in order, stop at the
  first reply, errors to the handler), the hooks of helmet and CORS (\<open>security_law\<close>),
  \<open>@fastify/under-pressure\<close>'s verdict, \<open>@fastify/rate-limit\<close> (\<open>limiter_law\<close>, and \<open>limits_by\<close> where its
  counting matters), \<open>@fastify/http-proxy\<close>'s own header list and what it makes of a forwarded request
  (\<open>proxy_law\<close>, \<open>relays\<close>), Redis over overlapping requests (\<open>honest_redis\<close>), the network of the script
  (\<open>arrives_as\<close>, \<open>echoes\<close>, \<open>e2e_secured\<close>), \<open>p-retry\<close>, the OpenTelemetry SDK. Every theorem that assumes such a law has a witness with concrete functions.

  \<^bold>\<open>Not modelled.\<close> The proxying of bytes by \<open>@fastify/http-proxy\<close> and the upstream's side; pino's
  formatting; the rendering of the metrics registry and its default metrics; timing (so that
  comparisons are constant-time) and the exit of a process whose event loop runs dry; configuration
  texts beyond Latin-1 and fractional settings other than the event-loop utilization; of the script,
  the two checks of the log text and the starting and stopping of processes; the barrel files
  (re-exports only) and the test configuration.
\<close>

end
